theory Spec2Isabelle
  imports Complex_Main "HOL-Library.Word" "HOL-Library.Finite_Map"
begin

unbundle bit_operations_syntax

section \<open>Errors\<close>

text \<open>
  Go's \<open>error\<close> values: the package's sentinel errors, \<open>redis.ErrNil\<close>, an error
  produced by a library call, \<open>fmt.Errorf\<close>, and \<open>errors.Wrap(err, msg)\<close> of \<open>github.com/pkg/errors\<close> around another
  error. A nil \<open>error\<close> is \<open>None\<close> of \<open>error option\<close>.
\<close>

datatype error =
  ErrDoesNotExist
  | ErrDoesNotExistOrFCntOrMICInvalid
  | ErrInvalidFPort
  | ErrNil
  | LibError string
  | Errorf string
  | Wrapped error string

text \<open>\<open>errors.Wrap\<close> returns nil when the error it is given is nil.\<close>

definition errors_Wrap :: "error option \<Rightarrow> string \<Rightarrow> error option" where
  "errors_Wrap err message = (case err of None \<Rightarrow> None | Some e \<Rightarrow> Some (Wrapped e message))"

section \<open>Go types\<close>

text \<open>
  Go's fixed-width integers are words. Go's \<open>int\<close> is the 64-bit signed integer of
  the platforms the server is built for; \<open>uint32(x)\<close> on it keeps the low 32 bits and
  \<open>int(y)\<close> on a \<open>uint32\<close> zero-extends, both of which are \<open>ucast\<close>.
  Fixed-size byte arrays (\<open>lorawan.DevAddr\<close> is \<open>[4]byte\<close>, \<open>lorawan.EUI64\<close> is
  \<open>[8]byte\<close>, \<open>lorawan.AES128Key\<close> and \<open>uuid.UUID\<close> are \<open>[16]byte\<close>) are words
  of that many bits, the first byte of the array being the most significant one; byte
  slices are lists of bytes. A nil slice or map and an empty one are the same list or
  map. A \<open>float64\<close> is idealised as a real number.
\<close>

type_synonym byte = "8 word"
type_synonym uint8 = "8 word"
type_synonym uint16 = "16 word"
type_synonym uint32 = "32 word"
type_synonym int64 = "64 word"
type_synonym go_int = "64 word"
type_synonym float64 = real
type_synonym float32 = real
type_synonym DevAddr = "32 word"
type_synonym EUI64 = "64 word"
type_synonym AES128Key = "128 word"
type_synonym UUID = "128 word"

section \<open>Library functions used by the storage package\<close>

subsection \<open>Byte arrays and slices\<close>

text \<open>
  \<open>a[:]\<close> of an \<open>n\<close>-byte array \<open>a\<close> (a word of \<open>8 * n\<close> bits): its bytes, the
  first one the most significant.
\<close>

definition array_bytes :: "nat \<Rightarrow> 'a::len word \<Rightarrow> byte list" where
  "array_bytes n a = map (\<lambda>i. word_of_nat (unat a div 256 ^ i mod 256)) (rev [0..<n])"

text \<open>
  \<open>copy(a[:], src)\<close> into a zero-valued \<open>n\<close>-byte array \<open>a\<close>, read back as the
  array: the first \<open>min(n, len(src))\<close> bytes of \<open>src\<close>, the rest of the array zero.
\<close>

definition copy_to_array :: "nat \<Rightarrow> byte list \<Rightarrow> 'a::len word" where
  "copy_to_array n src =
     word_of_nat (foldl (\<lambda>acc b. acc * 256 + unat b) 0 (take n (src @ replicate n 0)))"

subsection \<open>UUIDs as text (github.com/gofrs/uuid)\<close>

text \<open>
  \<open>UUID.String()\<close> is the canonical form: 32 lower-case hexadecimal digits in
  groups of 8, 4, 4, 4 and 12, separated by hyphens.
\<close>

definition hexdigit :: "nat \<Rightarrow> char" where
  "hexdigit n = ''0123456789abcdef'' ! n"

definition uuid_String :: "UUID \<Rightarrow> string" where
  "uuid_String u =
     (let h = map hexdigit (map (\<lambda>i. unat u div 16 ^ i mod 16) (rev [0..<32]))
      in take 8 h @ ''-'' @ take 4 (drop 8 h) @ ''-'' @ take 4 (drop 12 h) @ ''-''
           @ take 4 (drop 16 h) @ ''-'' @ drop 20 h)"

text \<open>\<open>fromHexChar\<close> of \<open>encoding/hex\<close>, on the character code.\<close>

definition fromHexChar :: "char \<Rightarrow> nat option" where
  "fromHexChar c =
     (let n = (of_char c :: nat) in
      if 48 \<le> n \<and> n \<le> 57 then Some (n - 48)
      else if 97 \<le> n \<and> n \<le> 102 then Some (n - 97 + 10)
      else if 65 \<le> n \<and> n \<le> 70 then Some (n - 65 + 10)
      else None)"

fun hex_decode :: "string \<Rightarrow> nat list option" where
  "hex_decode [] = Some []"
| "hex_decode (c # cs) =
     (case fromHexChar c of
        None \<Rightarrow> None
      | Some d \<Rightarrow> (case hex_decode cs of None \<Rightarrow> None | Some ds \<Rightarrow> Some (d # ds)))"

text \<open>
  \<open>uuid.FromString\<close> returns a UUID and an error. The model reads the canonical
  36-character form. The library also accepts the braced, the URN and the 32-digit
  forms, which \<open>String()\<close> never produces; they are not modelled, and for every text
  the model does not read the result is \<open>uuid.Nil\<close> with an error.
\<close>

definition uuid_FromString :: "string \<Rightarrow> UUID \<times> error option" where
  "uuid_FromString s =
     (if length s = 36 \<and> s ! 8 = CHR ''-'' \<and> s ! 13 = CHR ''-'' \<and> s ! 18 = CHR ''-''
         \<and> s ! 23 = CHR ''-''
      then
        (case hex_decode (take 8 s @ take 4 (drop 9 s) @ take 4 (drop 14 s) @ take 4 (drop 19 s)
                            @ drop 24 s) of
           Some ds \<Rightarrow> (word_of_nat (foldl (\<lambda>acc d. acc * 16 + d) 0 ds), None)
         | None \<Rightarrow> (0, Some (LibError ''uuid: incorrect UUID format'')))
      else (0, Some (LibError ''uuid: incorrect UUID length'')))"

subsection \<open>Time (package time)\<close>

text \<open>
  A \<open>time.Time\<close> is modelled as its instant: the seconds since January 1 of year 1
  (Go keeps them in an \<open>int64\<close>) and the nanoseconds within the second (an
  \<open>int32\<close>). The zero \<open>Time\<close> has both at 0. The location and the monotonic clock
  reading are not represented.
\<close>

record Time =
  sec :: int64
  nsec :: "32 word"

definition zeroTime :: Time where
  "zeroTime = \<lparr>sec = 0, nsec = 0\<rparr>"

text \<open>Go's integer division truncates towards zero.\<close>

definition tdiv :: "int \<Rightarrow> int \<Rightarrow> int" where
  "tdiv a b = (if (a < 0) = (b < 0) then \<bar>a\<bar> div \<bar>b\<bar> else - (\<bar>a\<bar> div \<bar>b\<bar>))"

text \<open>
  \<open>t.UnixNano()\<close> is \<open>(t.sec() + internalToUnix) * 1e9 + int64(t.nsec())\<close> in
  \<open>int64\<close> arithmetic, with \<open>internalToUnix = -62135596800\<close>: the integer result,
  wrapped to 64 bits.
\<close>

definition time_UnixNano :: "Time \<Rightarrow> int64" where
  "time_UnixNano t = word_of_int ((sint (sec t) - 62135596800) * 1000000000 + sint (nsec t))"

text \<open>
  \<open>time.Unix(sec, nsec)\<close>: the nanoseconds are brought into \<open>[0, 1e9)\<close> as the
  source does it, then \<open>unixToInternal = 62135596800\<close> is added to the seconds.
\<close>

definition unix_norm :: "int \<Rightarrow> int \<Rightarrow> int \<times> int" where
  "unix_norm s ns =
     (if ns < 0 \<or> ns \<ge> 1000000000 then
        (let n = tdiv ns 1000000000;
             s' = s + n;
             n' = ns - n * 1000000000
         in if n' < 0 then (s' - 1, n' + 1000000000) else (s', n'))
      else (s, ns))"

definition time_Unix :: "int64 \<Rightarrow> int64 \<Rightarrow> Time" where
  "time_Unix s ns =
     (case unix_norm (sint s) (sint ns) of
        (s1, n1) \<Rightarrow> \<lparr>sec = word_of_int (s1 + 62135596800), nsec = word_of_int n1\<rparr>)"

text \<open>\<open>t.After(u)\<close> on instants: seconds first (signed), then nanoseconds.\<close>

definition time_After :: "Time \<Rightarrow> Time \<Rightarrow> bool" where
  "time_After t u \<longleftrightarrow>
     sint (sec t) > sint (sec u) \<or> (sec t = sec u \<and> sint (nsec t) > sint (nsec u))"

subsection \<open>UTF-8 (package unicode/utf8)\<close>

text \<open>
  \<open>utf8.ValidString(s)\<close>, on the byte values of \<open>s\<close>: a byte below \<open>0x80\<close> stands
  alone; \<open>0xC2\<close> to \<open>0xDF\<close> lead two bytes, \<open>0xE0\<close> to \<open>0xEF\<close> three and
  \<open>0xF0\<close> to \<open>0xF4\<close> four; the bytes after the lead are continuation bytes
  (\<open>0x80\<close> to \<open>0xBF\<close>), the first of them in a narrower range after the leads
  \<open>0xE0\<close>, \<open>0xED\<close>, \<open>0xF0\<close> and \<open>0xF4\<close> (no overlong forms, no surrogates,
  nothing above \<open>U+10FFFF\<close>). Every other byte is invalid.
\<close>

definition utf8_cont :: "nat \<Rightarrow> bool" where
  "utf8_cont b \<longleftrightarrow> 128 \<le> b \<and> b \<le> 191"

definition utf8_second :: "nat \<Rightarrow> nat \<Rightarrow> bool" where
  "utf8_second a b \<longleftrightarrow>
     (if a = 224 then 160 \<le> b \<and> b \<le> 191
      else if a = 237 then 128 \<le> b \<and> b \<le> 159
      else if a = 240 then 144 \<le> b \<and> b \<le> 191
      else if a = 244 then 128 \<le> b \<and> b \<le> 143
      else utf8_cont b)"

fun utf8_valid :: "nat list \<Rightarrow> bool" where
  "utf8_valid [] = True"
| "utf8_valid (a # bs) =
     (if a < 128 then utf8_valid bs
      else if 194 \<le> a \<and> a \<le> 223 then
        (case bs of
           b # cs \<Rightarrow> utf8_cont b \<and> utf8_valid cs
         | _ \<Rightarrow> False)
      else if 224 \<le> a \<and> a \<le> 239 then
        (case bs of
           b # c # ds \<Rightarrow> utf8_second a b \<and> utf8_cont c \<and> utf8_valid ds
         | _ \<Rightarrow> False)
      else if 240 \<le> a \<and> a \<le> 244 then
        (case bs of
           b # c # d # es \<Rightarrow> utf8_second a b \<and> utf8_cont c \<and> utf8_cont d \<and> utf8_valid es
         | _ \<Rightarrow> False)
      else False)"

definition utf8_ValidString :: "string \<Rightarrow> bool" where
  "utf8_ValidString s = utf8_valid (map of_char s)"

section \<open>The wire message of a device-session (device\_session.pb.go)\<close>

text \<open>
  The message types are generated from \<open>device_session.proto\<close>; their fields and
  field types are the ones \<open>deviceSessionToPB\<close> and \<open>deviceSessionFromPB\<close> read
  and write. The \<open>bytes\<close> field \<open>PendingRejoinDeviceSession\<close> holds a marshalled
  message of the same type, so the message is the datatype \<open>DeviceSessionPB\<close> of
  the record of its other fields and that field.
\<close>

record DeviceSessionPBUplinkADRHistory =
  FCnt :: uint32
  MaxSnr :: float32
  TxPowerIndex :: uint32
  GatewayCount :: uint32

record DeviceSessionPBChannel =
  Frequency :: uint32
  MinDr :: uint32
  MaxDr :: uint32

record common_KeyEnvelope =
  KekLabel :: string
  AesKey :: "byte list"

record PBData =
  MacVersion :: string
  DeviceProfileId :: string
  ServiceProfileId :: string
  RoutingProfileId :: string
  DevAddr :: "byte list"
  DevEui :: "byte list"
  JoinEui :: "byte list"
  FNwkSIntKey :: "byte list"
  SNwkSIntKey :: "byte list"
  NwkSEncKey :: "byte list"
  FCntUp :: uint32
  NFCntDown :: uint32
  AFCntDown :: uint32
  ConfFCnt :: uint32
  SkipFCntCheck :: bool
  RxDelay :: uint32
  Rx1DrOffset :: uint32
  Rx2Dr :: uint32
  Rx2Frequency :: uint32
  TxPowerIndex :: uint32
  Dr :: uint32
  Adr :: bool
  MinSupportedTxPowerIndex :: uint32
  MaxSupportedTxPowerIndex :: uint32
  NbTrans :: uint32
  ExtraUplinkChannels :: "(uint32, DeviceSessionPBChannel) fmap"
  LastDeviceStatusRequestTimeUnixNs :: int64
  LastDownlinkTxTimestampUnixNs :: int64
  BeaconLocked :: bool
  PingSlotNb :: uint32
  PingSlotDr :: uint32
  PingSlotFrequency :: uint32
  RejoinRequestEnabled :: bool
  RejoinRequestMaxCountN :: uint32
  RejoinRequestMaxTimeN :: uint32
  RejoinCount_0 :: uint32
  ReferenceAltitude :: float64
  UplinkDwellTime_400Ms :: bool
  DownlinkDwellTime_400Ms :: bool
  UplinkMaxEirpIndex :: uint32
  AppSKeyEnvelope :: "common_KeyEnvelope option"
  EnabledUplinkChannels :: "uint32 list"
  ChannelFrequencies :: "uint32 list"
  UplinkAdrHistory :: "DeviceSessionPBUplinkADRHistory list"

text \<open>
  A byte string as \<open>proto.Marshal\<close> and \<open>proto.Unmarshal\<close> of
  \<open>github.com/golang/protobuf\<close> see it: the empty string \<open>WEmpty\<close>, an encoding
  \<open>WMsg m\<close> of the message \<open>m\<close>, or bytes that do not parse as a message
  (\<open>WOther\<close>, for instance the legacy gob encoding).
\<close>

datatype DeviceSessionPB =
  DeviceSessionPB (pb: PBData) (PendingRejoinDeviceSessionPB: wire)
and wire =
  WEmpty
  | WMsg DeviceSessionPB
  | WOther "byte list"

text \<open>The message with every field at its default, \<open>DeviceSessionPB{}\<close>.\<close>

definition defaultPB :: DeviceSessionPB where
  "defaultPB =
     DeviceSessionPB
       \<lparr>MacVersion = [], DeviceProfileId = [], ServiceProfileId = [], RoutingProfileId = [],
        DevAddr = [], DevEui = [], JoinEui = [], FNwkSIntKey = [], SNwkSIntKey = [],
        NwkSEncKey = [], FCntUp = 0, NFCntDown = 0, AFCntDown = 0, ConfFCnt = 0,
        SkipFCntCheck = False, RxDelay = 0, Rx1DrOffset = 0, Rx2Dr = 0, Rx2Frequency = 0,
        TxPowerIndex = 0, Dr = 0, Adr = False, MinSupportedTxPowerIndex = 0,
        MaxSupportedTxPowerIndex = 0, NbTrans = 0, ExtraUplinkChannels = fmempty,
        LastDeviceStatusRequestTimeUnixNs = 0, LastDownlinkTxTimestampUnixNs = 0,
        BeaconLocked = False, PingSlotNb = 0, PingSlotDr = 0, PingSlotFrequency = 0,
        RejoinRequestEnabled = False, RejoinRequestMaxCountN = 0, RejoinRequestMaxTimeN = 0,
        RejoinCount_0 = 0, ReferenceAltitude = 0, UplinkDwellTime_400Ms = False,
        DownlinkDwellTime_400Ms = False, UplinkMaxEirpIndex = 0, AppSKeyEnvelope = None,
        EnabledUplinkChannels = [], ChannelFrequencies = [], UplinkAdrHistory = []\<rparr>
       WEmpty"

text \<open>
  The string fields of the message and of its key envelope. A proto3 \<open>string\<close> has
  to be valid UTF-8; \<open>bytes\<close> fields (the embedded pending session among them) carry
  any bytes.
\<close>

definition proto_valid :: "DeviceSessionPB \<Rightarrow> bool" where
  "proto_valid m \<longleftrightarrow>
     utf8_ValidString (MacVersion (pb m)) \<and> utf8_ValidString (DeviceProfileId (pb m))
     \<and> utf8_ValidString (ServiceProfileId (pb m)) \<and> utf8_ValidString (RoutingProfileId (pb m))
     \<and> (case AppSKeyEnvelope (pb m) of None \<Rightarrow> True | Some e \<Rightarrow> utf8_ValidString (KekLabel e))"

text \<open>
  \<open>proto.Marshal\<close> of \<open>github.com/golang/protobuf\<close> returns the bytes and an error.
  In proto3 a field at its default is not written: the message with every field at its
  default marshals to the empty byte string. When a string field is not valid UTF-8 the
  call returns an error (its text names the field; a fixed text stands for it here); the
  library writes the field all the same and returns the bytes next to the error.
\<close>

definition proto_Marshal :: "DeviceSessionPB \<Rightarrow> wire \<times> error option" where
  "proto_Marshal m =
     (if m = defaultPB then WEmpty else WMsg m,
      if proto_valid m then None else Some (LibError ''proto: field contains invalid UTF-8''))"

text \<open>
  \<open>proto.Unmarshal\<close>, \<open>None\<close> for an error: the empty byte string is the message
  with every field at its default; bytes that are not a message, and a message with a
  string field that is not valid UTF-8, are errors.
\<close>

definition proto_Unmarshal :: "wire \<Rightarrow> DeviceSessionPB option" where
  "proto_Unmarshal b =
     (case b of
        WEmpty \<Rightarrow> Some defaultPB
      | WMsg m \<Rightarrow> if proto_valid m then Some m else None
      | WOther bs \<Rightarrow> None)"

text \<open>\<open>len(b) == 0\<close> for a byte string.\<close>

definition wire_empty :: "wire \<Rightarrow> bool" where
  "wire_empty b = (case b of WEmpty \<Rightarrow> True | WMsg m \<Rightarrow> False | WOther bs \<Rightarrow> bs = [])"

section \<open>The device-session\<close>

text \<open>\<open>const UplinkHistorySize = 20\<close>\<close>

definition UplinkHistorySize :: nat where
  "UplinkHistorySize = 20"

record UplinkHistory =
  FCnt :: uint32
  MaxSNR :: float64
  TXPowerIndex :: go_int
  GatewayCount :: go_int

record KeyEnvelope =
  KEKLabel :: string
  AESKey :: "byte list"

text \<open>
  \<open>loraband.Channel\<close> is declared in the lorawan library; its exported fields are the
  frequency and the data-rate bounds.
\<close>

record Channel =
  Frequency :: go_int
  MinDR :: go_int
  MaxDR :: go_int

text \<open>
  The fields of \<open>struct DeviceSession\<close>, in the order of the source. The struct refers
  to itself through \<open>PendingRejoinDeviceSession *DeviceSession\<close>; a record cannot, so
  the recursive field is the second argument of the datatype \<open>DeviceSession\<close> below and
  all other fields are in the record \<open>SessionData\<close>. A nil pointer is \<open>None\<close>.
\<close>

record SessionData =
  MACVersion :: string
  DeviceProfileID :: UUID
  ServiceProfileID :: UUID
  RoutingProfileID :: UUID
  DevAddr :: DevAddr
  DevEUI :: EUI64
  JoinEUI :: EUI64
  FNwkSIntKey :: AES128Key
  SNwkSIntKey :: AES128Key
  NwkSEncKey :: AES128Key
  AppSKeyEvelope :: "KeyEnvelope option"
  FCntUp :: uint32
  NFCntDown :: uint32
  AFCntDown :: uint32
  ConfFCnt :: uint32
  SkipFCntValidation :: bool
  RXWindow :: "8 word"
  RXDelay :: uint8
  RX1DROffset :: uint8
  RX2DR :: uint8
  RX2Frequency :: go_int
  TXPowerIndex :: go_int
  DR :: go_int
  ADR :: bool
  MinSupportedTXPowerIndex :: go_int
  MaxSupportedTXPowerIndex :: go_int
  NbTrans :: uint8
  EnabledChannels :: "go_int list"
  EnabledUplinkChannels :: "go_int list"
  ExtraUplinkChannels :: "(go_int, Channel) fmap"
  ChannelFrequencies :: "go_int list"
  UplinkHistory :: "UplinkHistory list"
  LastDevStatusRequested :: Time
  LastDownlinkTX :: Time
  BeaconLocked :: bool
  PingSlotNb :: go_int
  PingSlotDR :: go_int
  PingSlotFrequency :: go_int
  RejoinRequestEnabled :: bool
  RejoinRequestMaxCountN :: go_int
  RejoinRequestMaxTimeN :: go_int
  RejoinCount0 :: uint16
  ReferenceAltitude :: float64
  UplinkDwellTime400ms :: bool
  DownlinkDwellTime400ms :: bool
  UplinkMaxEIRPIndex :: uint8

datatype DeviceSession =
  DeviceSession (data: SessionData) (PendingRejoinDeviceSession: "DeviceSession option")

text \<open>Assignment to a field of the session, \<open>s.f = v\<close>, is \<open>upd (f_update (\<lambda>_. v)) s\<close>.\<close>

definition upd :: "(SessionData \<Rightarrow> SessionData) \<Rightarrow> DeviceSession \<Rightarrow> DeviceSession" where
  "upd f s = DeviceSession (f (data s)) (PendingRejoinDeviceSession s)"

text \<open>A Go slice expression \<open>xs[lo:hi]\<close> with \<open>lo \<le> hi \<le> len(xs)\<close>.\<close>

definition slice :: "'a list \<Rightarrow> nat \<Rightarrow> nat \<Rightarrow> 'a list" where
  "slice xs lo hi = take (hi - lo) (drop lo xs)"

text \<open>The zero value \<open>DeviceSession{}\<close>.\<close>

definition zeroSessionData :: SessionData where
  "zeroSessionData =
     \<lparr>MACVersion = [], DeviceProfileID = 0, ServiceProfileID = 0, RoutingProfileID = 0,
      SessionData.DevAddr = 0, SessionData.DevEUI = 0, JoinEUI = 0, FNwkSIntKey = 0, SNwkSIntKey = 0, NwkSEncKey = 0,
      AppSKeyEvelope = None, FCntUp = 0, NFCntDown = 0, AFCntDown = 0, ConfFCnt = 0,
      SkipFCntValidation = False, RXWindow = 0, RXDelay = 0, RX1DROffset = 0, RX2DR = 0,
      RX2Frequency = 0, TXPowerIndex = 0, DR = 0, ADR = False, MinSupportedTXPowerIndex = 0,
      MaxSupportedTXPowerIndex = 0, NbTrans = 0, EnabledChannels = [], EnabledUplinkChannels = [],
      ExtraUplinkChannels = fmempty, ChannelFrequencies = [], UplinkHistory = [],
      LastDevStatusRequested = zeroTime, LastDownlinkTX = zeroTime, BeaconLocked = False,
      PingSlotNb = 0, PingSlotDR = 0, PingSlotFrequency = 0, RejoinRequestEnabled = False,
      RejoinRequestMaxCountN = 0, RejoinRequestMaxTimeN = 0, RejoinCount0 = 0,
      ReferenceAltitude = 0, UplinkDwellTime400ms = False, DownlinkDwellTime400ms = False,
      UplinkMaxEIRPIndex = 0\<rparr>"

definition zeroDeviceSession :: DeviceSession where
  "zeroDeviceSession = DeviceSession zeroSessionData None"

section \<open>The session codec\<close>

text \<open>
  \<open>for k, v := range m { out[kf(k)] = vf(v) }\<close> into an empty map \<open>out\<close>. Go
  leaves the order of the iteration open; the model visits the keys in ascending
  order. The order matters only when \<open>kf\<close> sends two keys of \<open>m\<close> to the same key.
\<close>

definition range_assign :: "('k::linorder \<Rightarrow> 'j) \<Rightarrow> ('v \<Rightarrow> 'w) \<Rightarrow> ('k, 'v) fmap \<Rightarrow> ('j, 'w) fmap" where
  "range_assign kf vf m =
     foldl (\<lambda>out (k, v). fmupd (kf k) (vf v) out) fmempty (sorted_list_of_fmap m)"

text \<open>
  \<open>func deviceSessionToPB(d DeviceSession) DeviceSessionPB\<close>. The conversion
  \<open>float32(h.MaxSNR)\<close> rounds to the nearest single-precision value; it is a
  primitive of the language and the first argument here. The two fields \<open>RXWindow\<close>
  and \<open>EnabledChannels\<close> of the session are not read. An error of \<open>proto.Marshal\<close>
  for the pending session is logged and the bytes it returned are stored.
\<close>

fun deviceSessionToPB :: "(float64 \<Rightarrow> float32) \<Rightarrow> DeviceSession \<Rightarrow> DeviceSessionPB" where
  "deviceSessionToPB float32 (DeviceSession d pending) =
     DeviceSessionPB
       \<lparr>MacVersion = MACVersion d,
        DeviceProfileId = uuid_String (DeviceProfileID d),
        ServiceProfileId = uuid_String (ServiceProfileID d),
        RoutingProfileId = uuid_String (RoutingProfileID d),
        PBData.DevAddr = array_bytes 4 (SessionData.DevAddr d),
        DevEui = array_bytes 8 (DevEUI d),
        JoinEui = array_bytes 8 (JoinEUI d),
        PBData.FNwkSIntKey = array_bytes 16 (SessionData.FNwkSIntKey d),
        PBData.SNwkSIntKey = array_bytes 16 (SessionData.SNwkSIntKey d),
        PBData.NwkSEncKey = array_bytes 16 (SessionData.NwkSEncKey d),
        PBData.FCntUp = SessionData.FCntUp d,
        PBData.NFCntDown = SessionData.NFCntDown d,
        PBData.AFCntDown = SessionData.AFCntDown d,
        PBData.ConfFCnt = SessionData.ConfFCnt d,
        SkipFCntCheck = SkipFCntValidation d,
        RxDelay = ucast (RXDelay d),
        Rx1DrOffset = ucast (RX1DROffset d),
        Rx2Dr = ucast (RX2DR d),
        Rx2Frequency = ucast (RX2Frequency d),
        PBData.TxPowerIndex = ucast (SessionData.TXPowerIndex d),
        Dr = ucast (DR d),
        Adr = ADR d,
        MinSupportedTxPowerIndex = ucast (MinSupportedTXPowerIndex d),
        MaxSupportedTxPowerIndex = ucast (MaxSupportedTXPowerIndex d),
        NbTrans = ucast (SessionData.NbTrans d),
        PBData.ExtraUplinkChannels =
          range_assign ucast
            (\<lambda>c. \<lparr>DeviceSessionPBChannel.Frequency = ucast (Channel.Frequency c),
                  MinDr = ucast (MinDR c), MaxDr = ucast (MaxDR c)\<rparr>)
            (SessionData.ExtraUplinkChannels d),
        LastDeviceStatusRequestTimeUnixNs = time_UnixNano (LastDevStatusRequested d),
        LastDownlinkTxTimestampUnixNs = time_UnixNano (LastDownlinkTX d),
        PBData.BeaconLocked = SessionData.BeaconLocked d,
        PBData.PingSlotNb = ucast (SessionData.PingSlotNb d),
        PingSlotDr = ucast (PingSlotDR d),
        PBData.PingSlotFrequency = ucast (SessionData.PingSlotFrequency d),
        PBData.RejoinRequestEnabled = SessionData.RejoinRequestEnabled d,
        PBData.RejoinRequestMaxCountN = ucast (SessionData.RejoinRequestMaxCountN d),
        PBData.RejoinRequestMaxTimeN = ucast (SessionData.RejoinRequestMaxTimeN d),
        RejoinCount_0 = ucast (RejoinCount0 d),
        PBData.ReferenceAltitude = SessionData.ReferenceAltitude d,
        UplinkDwellTime_400Ms = UplinkDwellTime400ms d,
        DownlinkDwellTime_400Ms = DownlinkDwellTime400ms d,
        UplinkMaxEirpIndex = ucast (UplinkMaxEIRPIndex d),
        AppSKeyEnvelope =
          (case AppSKeyEvelope d of
             None \<Rightarrow> None
           | Some e \<Rightarrow> Some \<lparr>KekLabel = KEKLabel e, AesKey = AESKey e\<rparr>),
        PBData.EnabledUplinkChannels = map ucast (SessionData.EnabledUplinkChannels d),
        PBData.ChannelFrequencies = map ucast (SessionData.ChannelFrequencies d),
        UplinkAdrHistory =
          map (\<lambda>h. \<lparr>DeviceSessionPBUplinkADRHistory.FCnt = UplinkHistory.FCnt h,
                     MaxSnr = float32 (MaxSNR h),
                     DeviceSessionPBUplinkADRHistory.TxPowerIndex = ucast (UplinkHistory.TXPowerIndex h),
                     DeviceSessionPBUplinkADRHistory.GatewayCount = ucast (UplinkHistory.GatewayCount h)\<rparr>)
              (UplinkHistory d)\<rparr>
       (case pending of
          None \<Rightarrow> WEmpty
        | Some p \<Rightarrow> fst (proto_Marshal (deviceSessionToPB float32 p)))"

text \<open>
  \<open>func deviceSessionFromPB(d DeviceSessionPB) DeviceSession\<close>. The errors of
  \<open>uuid.FromString\<close> are dropped, as in the source. \<open>float64(h.MaxSnr)\<close> is exact.
  \<open>RXWindow\<close> and \<open>EnabledChannels\<close> are left at their zero values. When the pending
  session does not unmarshal, the source logs the error and leaves the field nil.
\<close>

function deviceSessionFromPB :: "DeviceSessionPB \<Rightarrow> DeviceSession" where
  "deviceSessionFromPB (DeviceSessionPB d pending) =
     DeviceSession
       \<lparr>MACVersion = MacVersion d,
        DeviceProfileID = fst (uuid_FromString (DeviceProfileId d)),
        ServiceProfileID = fst (uuid_FromString (ServiceProfileId d)),
        RoutingProfileID = fst (uuid_FromString (RoutingProfileId d)),
        SessionData.DevAddr = copy_to_array 4 (PBData.DevAddr d),
        DevEUI = copy_to_array 8 (DevEui d),
        JoinEUI = copy_to_array 8 (JoinEui d),
        SessionData.FNwkSIntKey = copy_to_array 16 (PBData.FNwkSIntKey d),
        SessionData.SNwkSIntKey = copy_to_array 16 (PBData.SNwkSIntKey d),
        SessionData.NwkSEncKey = copy_to_array 16 (PBData.NwkSEncKey d),
        AppSKeyEvelope =
          (case AppSKeyEnvelope d of
             None \<Rightarrow> None
           | Some e \<Rightarrow> Some \<lparr>KEKLabel = KekLabel e, AESKey = AesKey e\<rparr>),
        SessionData.FCntUp = PBData.FCntUp d,
        SessionData.NFCntDown = PBData.NFCntDown d,
        SessionData.AFCntDown = PBData.AFCntDown d,
        SessionData.ConfFCnt = PBData.ConfFCnt d,
        SkipFCntValidation = SkipFCntCheck d,
        RXWindow = 0,
        RXDelay = ucast (RxDelay d),
        RX1DROffset = ucast (Rx1DrOffset d),
        RX2DR = ucast (Rx2Dr d),
        RX2Frequency = ucast (Rx2Frequency d),
        SessionData.TXPowerIndex = ucast (PBData.TxPowerIndex d),
        DR = ucast (Dr d),
        ADR = Adr d,
        MinSupportedTXPowerIndex = ucast (MinSupportedTxPowerIndex d),
        MaxSupportedTXPowerIndex = ucast (MaxSupportedTxPowerIndex d),
        SessionData.NbTrans = ucast (PBData.NbTrans d),
        EnabledChannels = [],
        SessionData.EnabledUplinkChannels = map ucast (PBData.EnabledUplinkChannels d),
        SessionData.ExtraUplinkChannels =
          range_assign ucast
            (\<lambda>c. \<lparr>Channel.Frequency = ucast (DeviceSessionPBChannel.Frequency c),
                  MinDR = ucast (MinDr c), MaxDR = ucast (MaxDr c)\<rparr>)
            (PBData.ExtraUplinkChannels d),
        SessionData.ChannelFrequencies = map ucast (PBData.ChannelFrequencies d),
        UplinkHistory =
          map (\<lambda>h. \<lparr>UplinkHistory.FCnt = DeviceSessionPBUplinkADRHistory.FCnt h,
                     MaxSNR = MaxSnr h,
                     UplinkHistory.TXPowerIndex = ucast (DeviceSessionPBUplinkADRHistory.TxPowerIndex h),
                     UplinkHistory.GatewayCount = ucast (DeviceSessionPBUplinkADRHistory.GatewayCount h)\<rparr>)
              (UplinkAdrHistory d),
        LastDevStatusRequested =
          (if sint (LastDeviceStatusRequestTimeUnixNs d) > 0
           then time_Unix 0 (LastDeviceStatusRequestTimeUnixNs d) else zeroTime),
        LastDownlinkTX =
          (if sint (LastDownlinkTxTimestampUnixNs d) > 0
           then time_Unix 0 (LastDownlinkTxTimestampUnixNs d) else zeroTime),
        SessionData.BeaconLocked = PBData.BeaconLocked d,
        SessionData.PingSlotNb = ucast (PBData.PingSlotNb d),
        PingSlotDR = ucast (PingSlotDr d),
        SessionData.PingSlotFrequency = ucast (PBData.PingSlotFrequency d),
        SessionData.RejoinRequestEnabled = PBData.RejoinRequestEnabled d,
        SessionData.RejoinRequestMaxCountN = ucast (PBData.RejoinRequestMaxCountN d),
        SessionData.RejoinRequestMaxTimeN = ucast (PBData.RejoinRequestMaxTimeN d),
        RejoinCount0 = ucast (RejoinCount_0 d),
        SessionData.ReferenceAltitude = PBData.ReferenceAltitude d,
        UplinkDwellTime400ms = UplinkDwellTime_400Ms d,
        DownlinkDwellTime400ms = DownlinkDwellTime_400Ms d,
        UplinkMaxEIRPIndex = ucast (UplinkMaxEirpIndex d)\<rparr>
       (if \<not> wire_empty pending
        then (case proto_Unmarshal pending of
                None \<Rightarrow> None
              | Some dsPB \<Rightarrow> Some (deviceSessionFromPB dsPB))
        else None)"
  by pat_completeness auto
termination
  by (relation "measure size")
     (auto simp: proto_Unmarshal_def wire_empty_def split: wire.splits if_splits)

section \<open>Sessions that the wire message represents exactly\<close>

text \<open>
  An \<open>int\<close> that survives \<open>int(uint32(x))\<close>: it lies in \<open>[0, 2^32)\<close>.
\<close>

definition fits_uint32 :: "go_int \<Rightarrow> bool" where
  "fits_uint32 x \<longleftrightarrow> 0 \<le> sint x \<and> sint x < 4294967296"

text \<open>
  A time that survives \<open>time.Unix(0, t.UnixNano())\<close> under the guard
  \<open>UnixNano > 0\<close>: its nanoseconds are in \<open>[0, 1e9)\<close> and it lies after the Unix
  epoch and within the \<open>int64\<close> range of nanoseconds since the epoch.
\<close>

definition unix_representable :: "Time \<Rightarrow> bool" where
  "unix_representable t \<longleftrightarrow>
     0 \<le> sint (nsec t) \<and> sint (nsec t) < 1000000000
     \<and> 0 < (sint (sec t) - 62135596800) * 1000000000 + sint (nsec t)
     \<and> (sint (sec t) - 62135596800) * 1000000000 + sint (nsec t) < 9223372036854775808"

definition time_ok :: "Time \<Rightarrow> bool" where
  "time_ok t \<longleftrightarrow> t = zeroTime \<or> unix_representable t"

definition channel_ok :: "go_int \<Rightarrow> Channel \<Rightarrow> bool" where
  "channel_ok i c \<longleftrightarrow>
     fits_uint32 i \<and> fits_uint32 (Channel.Frequency c) \<and> fits_uint32 (MinDR c) \<and> fits_uint32 (MaxDR c)"

definition history_ok :: "(float64 \<Rightarrow> float32) \<Rightarrow> UplinkHistory \<Rightarrow> bool" where
  "history_ok float32 h \<longleftrightarrow>
     float32 (MaxSNR h) = MaxSNR h \<and> fits_uint32 (UplinkHistory.TXPowerIndex h)
     \<and> fits_uint32 (UplinkHistory.GatewayCount h)"

text \<open>
  The fields of a session that the message does not carry are at their zero values,
  every \<open>int\<close> is in the \<open>uint32\<close> range, every \<open>MaxSNR\<close> is a single-precision
  value, and the two timestamps are the zero time or representable.
\<close>

definition data_ok :: "(float64 \<Rightarrow> float32) \<Rightarrow> SessionData \<Rightarrow> bool" where
  "data_ok float32 d \<longleftrightarrow>
     RXWindow d = 0 \<and> EnabledChannels d = []
     \<and> fits_uint32 (RX2Frequency d) \<and> fits_uint32 (SessionData.TXPowerIndex d) \<and> fits_uint32 (DR d)
     \<and> fits_uint32 (MinSupportedTXPowerIndex d) \<and> fits_uint32 (MaxSupportedTXPowerIndex d)
     \<and> fits_uint32 (SessionData.PingSlotNb d) \<and> fits_uint32 (PingSlotDR d)
     \<and> fits_uint32 (SessionData.PingSlotFrequency d)
     \<and> fits_uint32 (SessionData.RejoinRequestMaxCountN d)
     \<and> fits_uint32 (SessionData.RejoinRequestMaxTimeN d)
     \<and> list_all fits_uint32 (SessionData.EnabledUplinkChannels d)
     \<and> list_all fits_uint32 (SessionData.ChannelFrequencies d)
     \<and> fmpred channel_ok (SessionData.ExtraUplinkChannels d)
     \<and> list_all (history_ok float32) (UplinkHistory d)
     \<and> time_ok (LastDevStatusRequested d) \<and> time_ok (LastDownlinkTX d)"

text \<open>
  The strings of a session that \<open>proto.Marshal\<close> checks: the MAC version and the
  label of the key envelope. (The three profile identifiers are written as canonical
  UUID text, which is ASCII.)
\<close>

definition strings_ok :: "SessionData \<Rightarrow> bool" where
  "strings_ok d \<longleftrightarrow>
     utf8_ValidString (MACVersion d)
     \<and> (case AppSKeyEvelope d of None \<Rightarrow> True | Some e \<Rightarrow> utf8_ValidString (KEKLabel e))"

text \<open>
  The same for the pending rejoin session, at every depth; a pending session is
  marshalled, so its strings have to be valid UTF-8 as well.
\<close>

fun encodable :: "(float64 \<Rightarrow> float32) \<Rightarrow> DeviceSession \<Rightarrow> bool" where
  "encodable float32 (DeviceSession d pending) \<longleftrightarrow>
     data_ok float32 d
     \<and> (case pending of None \<Rightarrow> True | Some p \<Rightarrow> strings_ok (data p) \<and> encodable float32 p)"

section \<open>Uplink history\<close>

text \<open>
  \<open>func (s *DeviceSession) AppendUplinkHistory(up UplinkHistory)\<close>: the receiver is
  mutated, so the model returns the session after the call. The index
  \<open>count - 1\<close> is read only under the guard \<open>count > 0\<close>, as in the source.
\<close>

definition AppendUplinkHistory :: "DeviceSession \<Rightarrow> UplinkHistory \<Rightarrow> DeviceSession" where
  "AppendUplinkHistory s up =
     (let count = length (UplinkHistory (data s)) in
      if count > 0 \<and> UplinkHistory.FCnt (UplinkHistory (data s) ! (count - 1)) = UplinkHistory.FCnt up
      then s
      else
        let s1 = upd (UplinkHistory_update (\<lambda>h. h @ [up])) s;
            count1 = length (UplinkHistory (data s1))
        in if count1 > UplinkHistorySize
           then upd (UplinkHistory_update (\<lambda>h. slice h (count1 - UplinkHistorySize) count1)) s1
           else s1)"

text \<open>
  The loop of \<open>GetPacketLossPercentage\<close>: \<open>i\<close> is the index of the record being
  visited, the pair is \<open>(lostPackets, previousFCnt)\<close>, both \<open>uint32\<close>, so the
  subtraction and the sum wrap around.
\<close>

fun lostPackets_loop :: "nat \<Rightarrow> UplinkHistory list \<Rightarrow> uint32 \<times> uint32 \<Rightarrow> uint32 \<times> uint32" where
  "lostPackets_loop i [] acc = acc"
| "lostPackets_loop i (uh # rest) (lostPackets, previousFCnt) =
     (if i = 0 then lostPackets_loop (Suc i) rest (lostPackets, UplinkHistory.FCnt uh)
      else lostPackets_loop (Suc i) rest
             (lostPackets + (UplinkHistory.FCnt uh - previousFCnt - 1), UplinkHistory.FCnt uh))"

text \<open>
  \<open>func (s DeviceSession) GetPacketLossPercentage() float64\<close>. The conversion of the
  \<open>uint32\<close> count and of the length to \<open>float64\<close> is exact; the quotient and the
  product are taken over the reals.
\<close>

definition GetPacketLossPercentage :: "DeviceSession \<Rightarrow> float64" where
  "GetPacketLossPercentage s =
     (if length (UplinkHistory (data s)) < UplinkHistorySize then 0
      else real (unat (fst (lostPackets_loop 0 (UplinkHistory (data s)) (0, 0))))
             / real (length (UplinkHistory (data s))) * 100)"

section \<open>Frame-counter validation\<close>

text \<open>
  \<open>func ValidateAndGetFullFCntUp(s DeviceSession, fCntUp uint32) (uint32, bool)\<close>.
  \<open>band.Band().GetDefaults().MaxFCntGap\<close> is a \<open>uint32\<close> of the band configuration,
  which is not part of the storage package: it is the first argument.
\<close>

definition ValidateAndGetFullFCntUp :: "uint32 \<Rightarrow> DeviceSession \<Rightarrow> uint32 \<Rightarrow> uint32 \<times> bool" where
  "ValidateAndGetFullFCntUp maxFCntGap s fCntUp =
     (let gap = (ucast ((ucast fCntUp :: uint16) - (ucast (FCntUp (data s) mod 65536) :: uint16)) :: uint32)
      in if gap < maxFCntGap then (FCntUp (data s) + gap, True) else (0, False))"

section \<open>The session store (storage/device\_session.go)\<close>

subsection \<open>The Redis store\<close>

text \<open>
  The three key templates \<open>lora:ns:devaddr:%s\<close>, \<open>lora:ns:device:%s\<close> and
  \<open>lora:ns:device:%s:gwrx\<close> give distinct keys for distinct arguments; a key is
  modelled by its template and argument.
\<close>

datatype redis_key =
  devAddrKey DevAddr
  | deviceSessionKey EUI64
  | deviceGatewayRXInfoSetKey EUI64

text \<open>
  The state of the store: the byte strings, the sets (their members in the order
  \<open>SMEMBERS\<close> lists them), and the outcomes of the connections still to be taken
  from the pool. Every function of the package takes a connection of its own with
  \<open>p.Get()\<close> and runs one command (or one \<open>MULTI\<close>/\<open>EXEC\<close> block) on it; a
  connection that could not be established, or that breaks, makes that command fail
  with its error. \<open>faults\<close> lists, for the connections to come, the error (\<open>None\<close>
  for a connection that works); past the end of the list every connection works. The
  expiry of keys is not modelled.
\<close>

record redis =
  strings :: "redis_key \<rightharpoonup> wire"
  sets :: "redis_key \<rightharpoonup> byte list list"
  faults :: "error option list"

datatype redis_cmd =
  PSETEX redis_key int64 wire
  | SADD redis_key "byte list"
  | PEXPIRE redis_key int64

text \<open>\<open>c := p.Get()\<close>: the outcome of the connection, and the store after taking it.\<close>

definition pool_Get :: "redis \<Rightarrow> error option \<times> redis" where
  "pool_Get r = (case faults r of [] \<Rightarrow> (None, r) | c # cs \<Rightarrow> (c, r\<lparr>faults := cs\<rparr>))"

text \<open>\<open>redis.Bytes(c.Do("GET", key))\<close>: \<open>redis.ErrNil\<close> when the key is absent.\<close>

definition redis_GET :: "error option \<Rightarrow> redis \<Rightarrow> redis_key \<Rightarrow> wire \<times> error option" where
  "redis_GET c r k =
     (case c of
        Some e \<Rightarrow> (WEmpty, Some e)
      | None \<Rightarrow> (case strings r k of None \<Rightarrow> (WEmpty, Some ErrNil) | Some v \<Rightarrow> (v, None)))"

text \<open>\<open>redis.ByteSlices(c.Do("SMEMBERS", key))\<close>: an absent key is the empty set.\<close>

definition redis_SMEMBERS :: "error option \<Rightarrow> redis \<Rightarrow> redis_key \<Rightarrow> byte list list \<times> error option" where
  "redis_SMEMBERS c r k =
     (case c of
        Some e \<Rightarrow> ([], Some e)
      | None \<Rightarrow> (case sets r k of None \<Rightarrow> ([], None) | Some ms \<Rightarrow> (ms, None)))"

fun redis_apply :: "redis \<Rightarrow> redis_cmd \<Rightarrow> redis" where
  "redis_apply r (PSETEX k ms v) = r\<lparr>strings := (strings r)(k \<mapsto> v)\<rparr>"
| "redis_apply r (SADD k m) =
     (case sets r k of
        None \<Rightarrow> r\<lparr>sets := (sets r)(k \<mapsto> [m])\<rparr>
      | Some ms \<Rightarrow> if m \<in> set ms then r else r\<lparr>sets := (sets r)(k \<mapsto> ms @ [m])\<rparr>)"
| "redis_apply r (PEXPIRE k ms) = r"

text \<open>
  \<open>c.Do("EXEC")\<close> after \<open>c.Send("MULTI")\<close> and the queued commands: they take
  effect together, or the call fails and none of them does.
\<close>

definition redis_EXEC :: "error option \<Rightarrow> redis \<Rightarrow> redis_cmd list \<Rightarrow> error option \<times> redis" where
  "redis_EXEC c r cmds =
     (case c of
        Some e \<Rightarrow> (Some e, r)
      | None \<Rightarrow> (None, foldl redis_apply r cmds))"

subsection \<open>The received frame (github.com/brocaar/lorawan)\<close>

text \<open>
  Of a \<open>lorawan.PHYPayload\<close> the store reads and writes the device address and the
  frame counter of the frame header; the rest of the frame is carried as bytes.
  \<open>phy.MACPayload\<close> is an interface value: a pointer to a \<open>lorawan.MACPayload\<close>, or a
  payload of another type, of which only the type name is kept.
\<close>

datatype MACVersion = LoRaWAN1_0 | LoRaWAN1_1

record FHDR =
  DevAddr :: DevAddr
  FCnt :: uint32

record MACPayload =
  FHDR :: FHDR
  frame :: "byte list"

datatype Payload = MACPayload_ptr MACPayload | Other_ptr string

record PHYPayload =
  MHDR :: byte
  MACPayload :: Payload
  MIC :: "32 word"

text \<open>\<open>macPL.FHDR.FCnt = x\<close>, through the pointer held by the payload.\<close>

definition set_FCnt :: "PHYPayload \<Rightarrow> uint32 \<Rightarrow> PHYPayload" where
  "set_FCnt phy x =
     (case MACPayload phy of
        MACPayload_ptr macPL \<Rightarrow>
          phy\<lparr>MACPayload := MACPayload_ptr (macPL\<lparr>FHDR := (FHDR macPL)\<lparr>FHDR.FCnt := x\<rparr>\<rparr>)\<rparr>
      | Other_ptr ty \<Rightarrow> phy)"

subsection \<open>Parameters of the store\<close>

text \<open>
  What the functions below use from outside the sources: the band's \<open>MaxFCntGap\<close>,
  the conversion \<open>float32(x)\<close>, the configured \<open>deviceSessionTTL\<close> (nanoseconds),
  the legacy decoding (gob decoding of a \<open>DeviceSessionOld\<close> followed by
  \<open>migrateDeviceSessionOld\<close>), and \<open>phy.ValidateUplinkDataMIC\<close> of the lorawan
  library, which returns a boolean and an error.
\<close>

record storeenv =
  MaxFCntGap :: uint32
  toFloat32 :: "float64 \<Rightarrow> float32"
  deviceSessionTTL :: int64
  legacyDecode :: "wire \<Rightarrow> DeviceSession \<times> error option"
  ValidateUplinkDataMIC ::
    "PHYPayload \<Rightarrow> MACVersion \<Rightarrow> uint32 \<Rightarrow> uint8 \<Rightarrow> uint8 \<Rightarrow> AES128Key \<Rightarrow> AES128Key
       \<Rightarrow> bool \<times> error option"

subsection \<open>Functions\<close>

text \<open>\<open>func (s DeviceSession) GetMACVersion() lorawan.MACVersion\<close>\<close>

definition GetMACVersion :: "DeviceSession \<Rightarrow> MACVersion" where
  "GetMACVersion s = (if take 3 (MACVersion (data s)) = ''1.1'' then LoRaWAN1_1 else LoRaWAN1_0)"

text \<open>
  \<open>func SaveDeviceSession(ctx, p, s) error\<close>: the error and the store after the call.
  When the session does not marshal the function returns before it takes a connection.
  \<open>exp\<close> is \<open>int64(deviceSessionTTL) / int64(time.Millisecond)\<close>.
\<close>

definition SaveDeviceSession :: "storeenv \<Rightarrow> redis \<Rightarrow> DeviceSession \<Rightarrow> error option \<times> redis" where
  "SaveDeviceSession env r s =
     (let dsPB = deviceSessionToPB (toFloat32 env) s in
      case proto_Marshal dsPB of
        (b, Some err) \<Rightarrow> (errors_Wrap (Some err) ''protobuf encode error'', r)
      | (b, None) \<Rightarrow>
          (let (c, r1) = pool_Get r;
               exp = (word_of_int (tdiv (sint (deviceSessionTTL env)) 1000000) :: int64);
               cmds =
                 [PSETEX (deviceSessionKey (SessionData.DevEUI (data s))) exp b,
                  SADD (devAddrKey (SessionData.DevAddr (data s))) (array_bytes 8 (SessionData.DevEUI (data s))),
                  PEXPIRE (devAddrKey (SessionData.DevAddr (data s))) exp]
                 @ (case PendingRejoinDeviceSession s of
                      None \<Rightarrow> []
                    | Some pending \<Rightarrow>
                        [SADD (devAddrKey (SessionData.DevAddr (data pending)))
                           (array_bytes 8 (SessionData.DevEUI (data s))),
                         PEXPIRE (devAddrKey (SessionData.DevAddr (data pending))) exp])
           in case redis_EXEC c r1 cmds of
                (Some err, r2) \<Rightarrow> (errors_Wrap (Some err) ''exec error'', r2)
              | (None, r2) \<Rightarrow> (None, r2)))"

text \<open>
  \<open>func GetDeviceSession(ctx, p, devEUI) (DeviceSession, error)\<close>: the returned pair
  and the store after the call (a connection was taken). With an error the session
  returned is the zero value.
\<close>

definition GetDeviceSession ::
  "storeenv \<Rightarrow> redis \<Rightarrow> EUI64 \<Rightarrow> (DeviceSession \<times> error option) \<times> redis" where
  "GetDeviceSession env r devEUI =
     (let (c, r1) = pool_Get r in
      case redis_GET c r1 (deviceSessionKey devEUI) of
        (val, Some err) \<Rightarrow>
          if err = ErrNil then ((zeroDeviceSession, Some ErrDoesNotExist), r1)
          else ((zeroDeviceSession, errors_Wrap (Some err) ''get error''), r1)
      | (val, None) \<Rightarrow>
          (case proto_Unmarshal val of
             None \<Rightarrow>
               (case legacyDecode env val of
                  (dsOld, Some err) \<Rightarrow> ((zeroDeviceSession, errors_Wrap (Some err) ''gob decode error''), r1)
                | (dsOld, None) \<Rightarrow> ((dsOld, None), r1))
           | Some dsPB \<Rightarrow> ((deviceSessionFromPB dsPB, None), r1)))"

text \<open>
  The body of the loop of \<open>GetDeviceSessionsForDevAddr\<close> for one member \<open>b\<close> of the
  set, on the items collected so far and the store. An error of \<open>GetDeviceSession\<close>
  is logged, and the session it returned is still compared.
\<close>

definition sessions_for_member ::
  "storeenv \<Rightarrow> DevAddr \<Rightarrow> DeviceSession list \<times> redis \<Rightarrow> byte list \<Rightarrow> DeviceSession list \<times> redis" where
  "sessions_for_member env devAddr acc b =
     (let (items, r) = acc;
          devEUI = (copy_to_array 8 b :: EUI64);
          ((s, err), r1) = GetDeviceSession env r devEUI;
          items1 = (if SessionData.DevAddr (data s) = devAddr then items @ [s] else items)
      in case PendingRejoinDeviceSession s of
           None \<Rightarrow> (items1, r1)
         | Some pending \<Rightarrow>
             if SessionData.DevAddr (data pending) = devAddr then (items1 @ [pending], r1)
             else (items1, r1))"

text \<open>\<open>func GetDeviceSessionsForDevAddr(ctx, p, devAddr) ([]DeviceSession, error)\<close>\<close>

definition GetDeviceSessionsForDevAddr ::
  "storeenv \<Rightarrow> redis \<Rightarrow> DevAddr \<Rightarrow> (DeviceSession list \<times> error option) \<times> redis" where
  "GetDeviceSessionsForDevAddr env r devAddr =
     (let (c, r1) = pool_Get r in
      case redis_SMEMBERS c r1 (devAddrKey devAddr) of
        (devEUIs, Some err) \<Rightarrow>
          if err = ErrNil then (([], None), r1)
          else (([], errors_Wrap (Some err) ''get members error''), r1)
      | (devEUIs, None) \<Rightarrow>
          (case foldl (sessions_for_member env devAddr) ([], r1) devEUIs of
             (items, r2) \<Rightarrow> ((items, None), r2)))"

text \<open>
  The two assignments of the \<open>SkipFCntValidation\<close> branch,
  \<open>s.FCntUp = macPL.FHDR.FCnt\<close> and \<open>s.UplinkHistory = []UplinkHistory{}\<close>.
\<close>

definition reset_FCntUp :: "uint32 \<Rightarrow> DeviceSession \<Rightarrow> DeviceSession" where
  "reset_FCntUp fCnt s =
     upd (UplinkHistory_update (\<lambda>_. [])) (upd (SessionData.FCntUp_update (\<lambda>_. fCnt)) s)"

text \<open>
  The loop \<open>for _, s := range sessions\<close> of \<open>GetDeviceSessionForPHYPayload\<close> and the
  return after it. The result is the returned pair, the store after the call and the
  payload after the call (its frame counter is assigned through \<open>macPL\<close>). The MIC is
  validated by \<open>phy.ValidateUplinkDataMIC(s.GetMACVersion(), s.ConfFCnt, uint8(txDR),
  uint8(txCh), s.FNwkSIntKey, s.SNwkSIntKey)\<close>.
\<close>

fun sessions_loop ::
  "storeenv \<Rightarrow> go_int \<Rightarrow> go_int \<Rightarrow> uint32 \<Rightarrow> DeviceSession list \<Rightarrow> redis \<Rightarrow> PHYPayload
     \<Rightarrow> (DeviceSession \<times> error option) \<times> redis \<times> PHYPayload" where
  "sessions_loop env txDR txCh originalFCnt [] r phy =
     ((zeroDeviceSession, Some ErrDoesNotExistOrFCntOrMICInvalid), r, phy)"
| "sessions_loop env txDR txCh originalFCnt (s # rest) r phy =
     (let phy1 = set_FCnt phy originalFCnt;
          (fullFCnt, ok) = ValidateAndGetFullFCntUp (MaxFCntGap env) s originalFCnt
      in if \<not> ok then
           (if SkipFCntValidation (data s) then
              (let s1 = reset_FCntUp originalFCnt s in
               case ValidateUplinkDataMIC env phy1 (GetMACVersion s1) (SessionData.ConfFCnt (data s1))
                      (ucast txDR) (ucast txCh) (SessionData.FNwkSIntKey (data s1))
                      (SessionData.SNwkSIntKey (data s1)) of
                 (micOK, Some err) \<Rightarrow>
                   ((zeroDeviceSession, errors_Wrap (Some err) ''validate mic error''), r, phy1)
               | (micOK, None) \<Rightarrow>
                   if micOK then
                     (case SaveDeviceSession env r s1 of
                        (Some err, r') \<Rightarrow> ((zeroDeviceSession, Some err), r', phy1)
                      | (None, r') \<Rightarrow> ((s1, None), r', phy1))
                   else sessions_loop env txDR txCh originalFCnt rest r phy1)
            else sessions_loop env txDR txCh originalFCnt rest r phy1)
         else
           (let phy2 = set_FCnt phy1 fullFCnt in
            case ValidateUplinkDataMIC env phy2 (GetMACVersion s) (SessionData.ConfFCnt (data s))
                   (ucast txDR) (ucast txCh) (SessionData.FNwkSIntKey (data s))
                   (SessionData.SNwkSIntKey (data s)) of
              (micOK, Some err) \<Rightarrow>
                ((zeroDeviceSession, errors_Wrap (Some err) ''validate mic error''), r, phy2)
            | (micOK, None) \<Rightarrow>
                if micOK then ((s, None), r, phy2)
                else sessions_loop env txDR txCh originalFCnt rest r phy2))"

text \<open>
  \<open>func GetDeviceSessionForPHYPayload(ctx, p, phy, txDR, txCh) (DeviceSession, error)\<close>
\<close>

definition GetDeviceSessionForPHYPayload ::
  "storeenv \<Rightarrow> redis \<Rightarrow> PHYPayload \<Rightarrow> go_int \<Rightarrow> go_int
     \<Rightarrow> (DeviceSession \<times> error option) \<times> redis \<times> PHYPayload" where
  "GetDeviceSessionForPHYPayload env r phy txDR txCh =
     (case MACPayload phy of
        Other_ptr ty \<Rightarrow>
          ((zeroDeviceSession, Some (Errorf (''expected *lorawan.MACPayload, got: '' @ ty))), r, phy)
      | MACPayload_ptr macPL \<Rightarrow>
          (let originalFCnt = FHDR.FCnt (FHDR macPL) in
           case GetDeviceSessionsForDevAddr env r (FHDR.DevAddr (FHDR macPL)) of
             ((sessions, Some err), r1) \<Rightarrow> ((zeroDeviceSession, Some err), r1, phy)
           | ((sessions, None), r1) \<Rightarrow> sessions_loop env txDR txCh originalFCnt sessions r1 phy))"

text \<open>
  The condition under which the loop goes on to the next candidate: the frame counter
  is accepted and the MIC is not valid, or it is not accepted and either
  \<open>SkipFCntValidation\<close> is off or the MIC over the frame's own counter is not valid.
\<close>

definition passed_over :: "storeenv \<Rightarrow> go_int \<Rightarrow> go_int \<Rightarrow> uint32 \<Rightarrow> PHYPayload \<Rightarrow> DeviceSession \<Rightarrow> bool" where
  "passed_over env txDR txCh originalFCnt phy s =
     (case ValidateAndGetFullFCntUp (MaxFCntGap env) s originalFCnt of
        (fullFCnt, ok) \<Rightarrow>
          if ok then
            ValidateUplinkDataMIC env (set_FCnt phy fullFCnt) (GetMACVersion s)
              (SessionData.ConfFCnt (data s)) (ucast txDR) (ucast txCh)
              (SessionData.FNwkSIntKey (data s)) (SessionData.SNwkSIntKey (data s)) = (False, None)
          else \<not> SkipFCntValidation (data s)
               \<or> ValidateUplinkDataMIC env (set_FCnt phy originalFCnt) (GetMACVersion s)
                   (SessionData.ConfFCnt (data s)) (ucast txDR) (ucast txCh)
                   (SessionData.FNwkSIntKey (data s)) (SessionData.SNwkSIntKey (data s)) = (False, None))"

section \<open>Application-server client pool (internal/api/client/asclient/pool.go)\<close>

text \<open>
  What \<open>createClient\<close> calls outside the package is a parameter: the record
  \<open>asenv\<close> holds \<open>tls.X509KeyPair\<close> (it returns a certificate and an error, as in
  Go), \<open>(*x509.CertPool).AppendCertsFromPEM\<close> on a new pool, \<open>grpc.DialContext\<close>
  with the 500 ms timeout context, and the clock. A connection is named by the host
  and the dial options it was made with; \<open>as.NewApplicationServerClient\<close> is a
  constructor. A nil \<open>as.ApplicationServerClient\<close> is \<open>None\<close>.
\<close>

datatype Certificate = Certificate "byte list" "byte list"

datatype DialOption =
  WithBlock
  | WithInsecure
  | WithTransportCredentials "Certificate list" "byte list"

datatype ClientConn = ClientConn string "DialOption list"

datatype ApplicationServerClient = NewApplicationServerClient ClientConn

record asenv =
  X509KeyPair :: "byte list \<Rightarrow> byte list \<Rightarrow> Certificate \<times> error option"
  AppendCertsFromPEM :: "byte list \<Rightarrow> bool"
  DialContext :: "string \<Rightarrow> DialOption list \<Rightarrow> ClientConn option \<times> error option"
  timeNow :: Time

record client =
  lastUsed :: Time
  client :: "ApplicationServerClient option"

record pool =
  clients :: "string \<rightharpoonup> client"

text \<open>\<open>NewPool\<close>: the pool with an empty map.\<close>

definition NewPool :: pool where
  "NewPool = \<lparr>clients = Map.empty\<rparr>"

text \<open>The tail of \<open>createClient\<close>, from \<open>context.WithTimeout\<close> on.\<close>

definition dial :: "asenv \<Rightarrow> string \<Rightarrow> DialOption list \<Rightarrow> ApplicationServerClient option \<times> error option" where
  "dial env hostname asOpts =
     (case DialContext env hostname asOpts of
        (asClient, err) \<Rightarrow>
          if err \<noteq> None then (None, errors_Wrap err ''dial application-server api error'')
          else (map_option NewApplicationServerClient asClient, None))"

text \<open>
  \<open>func (p *pool) createClient(hostname, caCert, tlsCert, tlsKey)\<close> returns the pair
  \<open>(as.ApplicationServerClient, error)\<close>. In the branch where the CA certificate is
  refused, the \<open>err\<close> that is wrapped is the variable assigned by \<open>tls.X509KeyPair\<close>
  two statements before.
\<close>

definition createClient ::
  "asenv \<Rightarrow> string \<Rightarrow> byte list \<Rightarrow> byte list \<Rightarrow> byte list \<Rightarrow> ApplicationServerClient option \<times> error option" where
  "createClient env hostname caCert tlsCert tlsKey =
     (let asOpts = [WithBlock] in
      if length tlsCert = 0 \<and> length tlsKey = 0 \<and> length caCert = 0
      then dial env hostname (asOpts @ [WithInsecure])
      else
        case X509KeyPair env tlsCert tlsKey of
          (cert, err) \<Rightarrow>
            if err \<noteq> None then (None, errors_Wrap err ''load x509 keypair error'')
            else if \<not> AppendCertsFromPEM env caCert
            then (None, errors_Wrap err ''append ca cert to pool error'')
            else dial env hostname (asOpts @ [WithTransportCredentials [cert] caCert]))"

text \<open>
  \<open>func (p *pool) Get(hostname, caCert, tlsCert, tlsKey)\<close>: the result pair and the
  pool after the call. The mutex is held for the whole call and is not modelled.
\<close>

definition Get ::
  "asenv \<Rightarrow> pool \<Rightarrow> string \<Rightarrow> byte list \<Rightarrow> byte list \<Rightarrow> byte list
     \<Rightarrow> (ApplicationServerClient option \<times> error option) \<times> pool" where
  "Get env p hostname caCert tlsCert tlsKey =
     (case clients p hostname of
        Some c \<Rightarrow> ((client c, None), p)
      | None \<Rightarrow>
          (case createClient env hostname caCert tlsCert tlsKey of
             (asClient, err) \<Rightarrow>
               if err \<noteq> None
               then ((None, errors_Wrap err ''create application-server api client error''), p)
               else
                 let c = \<lparr>lastUsed = timeNow env, client = asClient\<rparr>
                 in ((client c, None), p\<lparr>clients := (clients p)(hostname \<mapsto> c)\<rparr>)))"

text \<open>
  An environment in which every key pair parses, no CA certificate is accepted and
  every dial succeeds.
\<close>

definition env_bad_ca :: asenv where
  "env_bad_ca =
     \<lparr>X509KeyPair = (\<lambda>c k. (Certificate c k, None)),
      AppendCertsFromPEM = (\<lambda>_. False),
      DialContext = (\<lambda>h opts. (Some (ClientConn h opts), None)),
      timeNow = zeroTime\<rparr>"

section \<open>Downlink device-queue (storage/device\_queue.go)\<close>

text \<open>
  Only the tests of the device-queue are among the sources (they name the fields of
  \<open>DeviceQueueItem\<close>, the requests sent to the application server and the expected
  results); the functions are modelled from sections 3.2 and 4.C of the specification.
  The \<open>device_queue\<close> table is the list of its rows, in insertion order, and the
  wall clock is a parameter \<open>now\<close>.
\<close>

record DeviceQueueItem =
  ID :: int64
  CreatedAt :: Time
  UpdatedAt :: Time
  DevAddr :: DevAddr
  DevEUI :: EUI64
  FRMPayload :: "byte list"
  FCnt :: uint32
  FPort :: uint8
  Confirmed :: bool
  IsPending :: bool
  EmitAtTimeSinceGPSEpoch :: "int64 option"
  TimeoutAfter :: "Time option"

text \<open>
  The requests of the application-server client contract, as the tests build them:
  \<open>as.HandleErrorRequest{DevEui, Type, Error, FCnt}\<close> and
  \<open>as.HandleDownlinkACKRequest{DevEui, FCnt, Acknowledged}\<close>. A notification is the
  request together with the routing profile whose application server receives it.
\<close>

datatype ErrorType = DEVICE_QUEUE_ITEM_SIZE | DEVICE_QUEUE_ITEM_FCNT | OTHER_ERROR

datatype ASRequest =
  HandleErrorRequest EUI64 ErrorType string uint32
  | HandleDownlinkACKRequest EUI64 uint32 bool

type_synonym notification = "UUID \<times> ASRequest"

fun is_HandleError :: "notification \<Rightarrow> bool" where
  "is_HandleError (rp, HandleErrorRequest d t e f) = True"
| "is_HandleError (rp, HandleDownlinkACKRequest d f a) = False"

fun is_HandleDownlinkACK :: "notification \<Rightarrow> bool" where
  "is_HandleDownlinkACK (rp, HandleErrorRequest d t e f) = False"
| "is_HandleDownlinkACK (rp, HandleDownlinkACKRequest d f a) = True"

text \<open>
  Modelled from the spec: \<open>GetQueueItemsForDevEUI(eui)\<close>, "all items for a device,
  ordered by ascending FCnt". The sort is stable: rows with the same \<open>FCnt\<close> stay in
  table order.
\<close>

definition GetDeviceQueueItemsForDevEUI :: "DeviceQueueItem list \<Rightarrow> EUI64 \<Rightarrow> DeviceQueueItem list" where
  "GetDeviceQueueItemsForDevEUI db devEUI =
     sort_key DeviceQueueItem.FCnt (filter (\<lambda>q. DeviceQueueItem.DevEUI q = devEUI) db)"

text \<open>Modelled from the spec: \<open>DeleteQueueItem(id)\<close>, the table without the rows of that id.\<close>

definition DeleteDeviceQueueItem :: "DeviceQueueItem list \<Rightarrow> int64 \<Rightarrow> DeviceQueueItem list" where
  "DeleteDeviceQueueItem db i = filter (\<lambda>q. ID q \<noteq> i) db"

text \<open>
  Modelled from the spec: the two timeout conditions of section 4.C, "\<open>h.IsPending &&
  h.TimeoutAfter \<le> now\<close>" and "pending and \<open>TimeoutAfter\<close> is in the future". An item
  without a \<open>TimeoutAfter\<close> satisfies neither.
\<close>

definition pending_timed_out :: "Time \<Rightarrow> DeviceQueueItem \<Rightarrow> bool" where
  "pending_timed_out now h \<longleftrightarrow>
     IsPending h \<and> (case TimeoutAfter h of None \<Rightarrow> False | Some t \<Rightarrow> \<not> time_After t now)"

definition pending_awaiting_ack :: "Time \<Rightarrow> DeviceQueueItem \<Rightarrow> bool" where
  "pending_awaiting_ack now h \<longleftrightarrow>
     IsPending h \<and> (case TimeoutAfter h of None \<Rightarrow> False | Some t \<Rightarrow> time_After t now)"

text \<open>
  Modelled from the spec: \<open>GetNextQueueItemForDevEUI(eui)\<close>, "first item in ascending
  FCnt order unless the head is pending and TimeoutAfter is in the future -- in that
  case fail with not-found". An empty queue is not-found as well.
\<close>

definition GetNextDeviceQueueItemForDevEUI ::
  "Time \<Rightarrow> DeviceQueueItem list \<Rightarrow> EUI64 \<Rightarrow> error + DeviceQueueItem" where
  "GetNextDeviceQueueItemForDevEUI now db devEUI =
     (case GetDeviceQueueItemsForDevEUI db devEUI of
        [] \<Rightarrow> Inl ErrDoesNotExist
      | h # rest \<Rightarrow> if pending_awaiting_ack now h then Inl ErrDoesNotExist else Inr h)"

text \<open>
  Modelled from the spec: step 2 of the scheduling primitive (section 4.C.1), the loop
  over the loaded items. The cases are tried in the order of the specification. The
  result is what the call returns, the table after the discards, and the notifications
  in the order they were produced.
\<close>

fun discard_loop ::
  "Time \<Rightarrow> go_int \<Rightarrow> uint32 \<Rightarrow> EUI64 \<Rightarrow> UUID \<Rightarrow> DeviceQueueItem list \<Rightarrow> DeviceQueueItem list
     \<Rightarrow> (error + DeviceQueueItem) \<times> DeviceQueueItem list \<times> notification list" where
  "discard_loop now maxFRMPayload expectedFCnt devEUI routingProfileID [] db =
     (Inl ErrDoesNotExist, db, [])"
| "discard_loop now maxFRMPayload expectedFCnt devEUI routingProfileID (h # rest) db =
     (if pending_timed_out now h then
        (case discard_loop now maxFRMPayload expectedFCnt devEUI routingProfileID rest
                (DeleteDeviceQueueItem db (ID h)) of
           (r, db', sent) \<Rightarrow>
             (r, db', (routingProfileID,
                       HandleDownlinkACKRequest devEUI (DeviceQueueItem.FCnt h) False) # sent))
      else if pending_awaiting_ack now h then (Inl ErrDoesNotExist, db, [])
      else if DeviceQueueItem.FCnt h < expectedFCnt then
        (case discard_loop now maxFRMPayload expectedFCnt devEUI routingProfileID rest
                (DeleteDeviceQueueItem db (ID h)) of
           (r, db', sent) \<Rightarrow>
             (r, db', (routingProfileID,
                       HandleErrorRequest devEUI DEVICE_QUEUE_ITEM_FCNT ''invalid frame-counter''
                         (DeviceQueueItem.FCnt h)) # sent))
      else if int (length (FRMPayload h)) > sint maxFRMPayload then
        (case discard_loop now maxFRMPayload expectedFCnt devEUI routingProfileID rest
                (DeleteDeviceQueueItem db (ID h)) of
           (r, db', sent) \<Rightarrow>
             (r, db', (routingProfileID,
                       HandleErrorRequest devEUI DEVICE_QUEUE_ITEM_SIZE ''payload exceeds max payload size''
                         (DeviceQueueItem.FCnt h)) # sent))
      else (Inr h, db, []))"

text \<open>
  Modelled from the spec: \<open>GetNextForDevEUIWithMaxPayloadAndFCnt(eui, maxFRMPayload,
  expectedFCnt, routingProfileID)\<close>: load the device's items in ascending \<open>FCnt\<close>, then
  run the loop.
\<close>

definition GetNextDeviceQueueItemForDevEUIMaxPayloadSizeAndFCnt ::
  "Time \<Rightarrow> DeviceQueueItem list \<Rightarrow> EUI64 \<Rightarrow> go_int \<Rightarrow> uint32 \<Rightarrow> UUID
     \<Rightarrow> (error + DeviceQueueItem) \<times> DeviceQueueItem list \<times> notification list" where
  "GetNextDeviceQueueItemForDevEUIMaxPayloadSizeAndFCnt now db devEUI maxPayloadSize fCnt routingProfileID =
     discard_loop now maxPayloadSize fCnt devEUI routingProfileID
       (GetDeviceQueueItemsForDevEUI db devEUI) db"

text \<open>
  The invariant of section 3.2 on a device's queue in emission order: "at most one
  item per device may have \<open>IsPending = true\<close> at any moment; it is the head".
\<close>

definition only_head_pending :: "DeviceQueueItem list \<Rightarrow> bool" where
  "only_head_pending items = list_all (\<lambda>q. \<not> IsPending q) (tl items)"

text \<open>
  The queue of the test "When testing GetNextDeviceQueueItemForDevEUIMaxPayloadSizeAndFCnt":
  five items for one device with the frame counters 100 to 104 and payloads of 7, 7, 6,
  5 and 4 bytes, the first one pending with a timeout one minute before \<open>test_now\<close>.
\<close>

definition test_now :: Time where
  "test_now = \<lparr>sec = 1000, nsec = 0\<rparr>"

definition test_item :: "int64 \<Rightarrow> uint32 \<Rightarrow> nat \<Rightarrow> DeviceQueueItem" where
  "test_item i f n =
     \<lparr>ID = i, CreatedAt = zeroTime, UpdatedAt = zeroTime, DevAddr = 0x01020304,
      DevEUI = 0x0102030405060708, FRMPayload = replicate n 1, FCnt = f, FPort = 1,
      Confirmed = False, IsPending = False, EmitAtTimeSinceGPSEpoch = None, TimeoutAfter = None\<rparr>"

definition test_queue :: "DeviceQueueItem list" where
  "test_queue =
     [(test_item 1 100 7)\<lparr>IsPending := True, TimeoutAfter := Some \<lparr>sec = 940, nsec = 0\<rparr>\<rparr>,
      test_item 2 101 7, test_item 3 102 6, test_item 4 103 5, test_item 5 104 4]"

section \<open>Class-B/C dispatcher helper (storage/device\_queue.go)\<close>

text \<open>
  \<open>GetDevicesWithClassBOrClassCDeviceQueueItems\<close> is called by the tests, inside
  transactions they open with \<open>DB().Beginx()\<close> and roll back at the end; the function
  itself is modelled from section 4.C.2 of the specification. The tests name the fields
  of the rows they create: a \<open>DeviceProfile\<close> with \<open>SupportsClassB\<close> or
  \<open>SupportsClassC\<close>, and \<open>Device\<close> rows with their profiles, \<open>DevEUI\<close> and
  \<open>Mode\<close>.
\<close>

datatype DeviceMode = DeviceModeA | DeviceModeB | DeviceModeC

record DeviceProfile =
  ID :: UUID
  SupportsClassB :: bool
  SupportsClassC :: bool

record Device =
  DevEUI :: EUI64
  DeviceProfileID :: UUID
  ServiceProfileID :: UUID
  RoutingProfileID :: UUID
  Mode :: DeviceMode

text \<open>
  The relational store: the three tables, and the row locks on \<open>device\<close> rows that
  open transactions hold (the device's \<open>DevEUI\<close>, which is the key of the table,
  with the transaction that holds the lock). A transaction is identified by a number.
\<close>

record pgstore =
  device_profile :: "DeviceProfile list"
  device :: "Device list"
  device_queue :: "DeviceQueueItem list"
  row_locks :: "(EUI64 \<times> nat) list"

text \<open>
  Modelled from the spec: "for class-B items (\<open>EmitAtTimeSinceGPSEpoch\<close> set), the emit
  time must fall within the current scheduler tick: \<open>emitTime \<le> now_since_gps_epoch +
  schedulerInterval\<close>. Later items are excluded." Durations are nanoseconds.
\<close>

definition schedulable_item :: "int64 \<Rightarrow> int64 \<Rightarrow> DeviceQueueItem \<Rightarrow> bool" where
  "schedulable_item nowSinceGPSEpoch schedulerInterval q \<longleftrightarrow>
     (case EmitAtTimeSinceGPSEpoch q of
        None \<Rightarrow> True
      | Some emitTime \<Rightarrow> sint emitTime \<le> sint nowSinceGPSEpoch + sint schedulerInterval)"

text \<open>
  Modelled from the spec: "selection requires a device-profile \<open>SupportsClassB ||
  SupportsClassC\<close> and matching device \<open>Mode\<close> (B or C)", read as: the profile of the
  device supports the class the device is in.
\<close>

definition supports_mode :: "pgstore \<Rightarrow> Device \<Rightarrow> bool" where
  "supports_mode st d \<longleftrightarrow>
     list_ex (\<lambda>dp. DeviceProfile.ID dp = DeviceProfileID d
                \<and> (SupportsClassB dp \<and> Mode d = DeviceModeB \<or> SupportsClassC dp \<and> Mode d = DeviceModeC))
       (device_profile st)"

text \<open>
  Modelled from the spec: a device "which has a schedulable downlink right now" -- one
  of its queue items can be scheduled -- and "must skip any device whose head item is
  pending with \<open>TimeoutAfter > now\<close>".
\<close>

definition eligible :: "Time \<Rightarrow> int64 \<Rightarrow> int64 \<Rightarrow> pgstore \<Rightarrow> Device \<Rightarrow> bool" where
  "eligible now nowSinceGPSEpoch schedulerInterval st d \<longleftrightarrow>
     supports_mode st d
     \<and> (case GetDeviceQueueItemsForDevEUI (device_queue st) (DevEUI d) of
          [] \<Rightarrow> False
        | h # rest \<Rightarrow>
            list_ex (schedulable_item nowSinceGPSEpoch schedulerInterval) (h # rest)
            \<and> \<not> pending_awaiting_ack now h)"

text \<open>
  Modelled from the spec: "the row selection must lock-skip (\<open>FOR UPDATE SKIP
  LOCKED\<close>)": a row locked by another transaction is passed over.
\<close>

definition locked_by_other :: "pgstore \<Rightarrow> nat \<Rightarrow> Device \<Rightarrow> bool" where
  "locked_by_other st tx d \<longleftrightarrow> list_ex (\<lambda>l. fst l = DevEUI d \<and> snd l \<noteq> tx) (row_locks st)"

text \<open>
  Modelled from the spec: \<open>GetDevicesWithClassBOrClassCQueueItems(tx, limit)\<close> "returns
  up to \<open>limit\<close> distinct devices which have a schedulable downlink right now", and
  locks the rows it returns for the transaction. The specification leaves the order of
  the selection open; the rows are taken in ascending \<open>DevEUI\<close>, which is the order the
  tests expect. The result is the devices and the store after the call.
\<close>

definition GetDevicesWithClassBOrClassCDeviceQueueItems ::
  "Time \<Rightarrow> int64 \<Rightarrow> int64 \<Rightarrow> pgstore \<Rightarrow> nat \<Rightarrow> go_int \<Rightarrow> Device list \<times> pgstore" where
  "GetDevicesWithClassBOrClassCDeviceQueueItems now nowSinceGPSEpoch schedulerInterval st tx limit =
     (let devs =
            take (nat (sint limit))
              (filter (\<lambda>d. eligible now nowSinceGPSEpoch schedulerInterval st d \<and> \<not> locked_by_other st tx d)
                 (sort_key DevEUI (device st)))
      in (devs, st\<lparr>row_locks := row_locks st @ map (\<lambda>d. (DevEUI d, tx)) devs\<rparr>))"

text \<open>
  Modelled from the spec: "rollback of a transaction must release the reserved rows".
  The selection writes nothing else, so the tables are as before.
\<close>

definition Rollback :: "pgstore \<Rightarrow> nat \<Rightarrow> pgstore" where
  "Rollback st tx = st\<lparr>row_locks := filter (\<lambda>l. snd l \<noteq> tx) (row_locks st)\<rparr>"

section \<open>Concrete inputs\<close>

text \<open>
  An uplink-history record with the given frame counter and SNR, a session holding a
  given history, and the history of \<open>n\<close> uplinks with the even frame counters
  \<open>0, 2, 4, \<dots>\<close> (one frame lost between any two of them).
\<close>

definition uplink :: "uint32 \<Rightarrow> float64 \<Rightarrow> UplinkHistory" where
  "uplink f snr = \<lparr>UplinkHistory.FCnt = f, MaxSNR = snr, TXPowerIndex = 0, GatewayCount = 1\<rparr>"

definition session_with_history :: "UplinkHistory list \<Rightarrow> DeviceSession" where
  "session_with_history h = upd (UplinkHistory_update (\<lambda>_. h)) zeroDeviceSession"

definition history_upto :: "nat \<Rightarrow> UplinkHistory list" where
  "history_upto n = map (\<lambda>k. uplink (2 * of_nat k) 0) [0..<n]"

text \<open>
  A session with a stored uplink, an extra channel, a last-downlink time in 2019 and a
  pending rejoin session, all within what the wire message carries.
\<close>

definition sample_session :: DeviceSession where
  "sample_session =
     DeviceSession
       (zeroSessionData
          \<lparr>MACVersion := ''1.0.3'', SessionData.DevAddr := 0x01020304,
           SessionData.DevEUI := 0x0102030405060708, SessionData.FCntUp := 10,
           RX2Frequency := 869525000,
           SessionData.ExtraUplinkChannels :=
             fmupd 3 \<lparr>Channel.Frequency = 867100000, MinDR = 0, MaxDR = 5\<rparr> fmempty,
           UplinkHistory := [uplink 9 5],
           LastDownlinkTX := \<lparr>sec = 63700000000, nsec = 5\<rparr>\<rparr>)
       (Some zeroDeviceSession)"

text \<open>
  A store that holds one ABP session with \<open>SkipFCntValidation\<close> on and an uplink
  counter of 20000, an environment in which the MIC of every frame is valid, and a
  frame from that device address whose frame counter is 1 (the device was reset).
\<close>

definition abp_session :: DeviceSession where
  "abp_session =
     DeviceSession
       (zeroSessionData
          \<lparr>MACVersion := ''1.0.2'', SessionData.DevAddr := 0x01020304,
           SessionData.DevEUI := 0x0102030405060708, SessionData.FCntUp := 20000,
           SessionData.NFCntDown := 7, SessionData.AFCntDown := 3, SkipFCntValidation := True,
           UplinkHistory := [uplink 19998 5, uplink 19999 6]\<rparr>)
       None"

definition env_mic_valid :: storeenv where
  "env_mic_valid =
     \<lparr>MaxFCntGap = 16384, toFloat32 = (\<lambda>x. x), deviceSessionTTL = 2678400000000000,
      legacyDecode = (\<lambda>b. (zeroDeviceSession, Some (LibError ''gob: decode error''))),
      ValidateUplinkDataMIC = (\<lambda>phy v c dr ch k1 k2. (True, None))\<rparr>"

definition abp_store :: redis where
  "abp_store =
     \<lparr>strings = [deviceSessionKey 0x0102030405060708 \<mapsto>
                   fst (proto_Marshal (deviceSessionToPB (\<lambda>x. x) abp_session))],
      sets = [devAddrKey 0x01020304 \<mapsto> [array_bytes 8 (0x0102030405060708 :: EUI64)]],
      faults = []\<rparr>"

definition reset_frame :: PHYPayload where
  "reset_frame =
     \<lparr>MHDR = 0x40,
      MACPayload = MACPayload_ptr \<lparr>FHDR = \<lparr>FHDR.DevAddr = 0x01020304, FHDR.FCnt = 1\<rparr>, frame = [1, 2, 3]\<rparr>,
      MIC = 0x01020304\<rparr>"

text \<open>
  The same store when the third connection taken from the pool is broken: the first two
  (for \<open>SMEMBERS\<close> and \<open>GET\<close>) work, the one \<open>SaveDeviceSession\<close> takes does not.
\<close>

definition abp_store_exec_fails :: redis where
  "abp_store_exec_fails = abp_store\<lparr>faults := [None, None, Some (LibError ''connection refused'')]\<rparr>"

text \<open>
  A session whose pending rejoin session has a MAC version that is not valid UTF-8 (the
  two bytes \<open>0xFF 0xFE\<close>).
\<close>

definition bad_utf8_pending :: DeviceSession where
  "bad_utf8_pending =
     DeviceSession zeroSessionData
       (Some (DeviceSession (zeroSessionData\<lparr>MACVersion := [char_of (255 :: nat), char_of (254 :: nat)]\<rparr>) None))"

text \<open>
  Two queues that break the invariant of section 3.2: one with two pending items that
  have both timed out, and one with an item of 7 bytes in front of a pending item that
  has timed out.
\<close>

definition two_pending_queue :: "DeviceQueueItem list" where
  "two_pending_queue =
     [(test_item 1 100 7)\<lparr>IsPending := True, TimeoutAfter := Some \<lparr>sec = 940, nsec = 0\<rparr>\<rparr>,
      (test_item 2 101 7)\<lparr>IsPending := True, TimeoutAfter := Some \<lparr>sec = 940, nsec = 0\<rparr>\<rparr>,
      test_item 3 102 6]"

definition pending_second_queue :: "DeviceQueueItem list" where
  "pending_second_queue =
     [test_item 1 100 7,
      (test_item 2 101 6)\<lparr>IsPending := True, TimeoutAfter := Some \<lparr>sec = 940, nsec = 0\<rparr>\<rparr>,
      test_item 3 102 6]"

text \<open>
  The store of the test "two pingslot queue items for two devices (limit 1)": a class-B
  device profile, two class-B devices with the \<open>DevEUI\<close>s \<open>0101010101010101\<close> and
  \<open>0202020202020202\<close>, and one queue item for each with an emit time one second
  after \<open>test_gps_now\<close>; the scheduler interval is two seconds.
\<close>

definition test_gps_now :: int64 where
  "test_gps_now = 1000000000000"

definition class_b_device :: "EUI64 \<Rightarrow> Device" where
  "class_b_device e =
     \<lparr>DevEUI = e, DeviceProfileID = 7, ServiceProfileID = 8, RoutingProfileID = 9, Mode = DeviceModeB\<rparr>"

definition pingslot_item :: "int64 \<Rightarrow> EUI64 \<Rightarrow> DeviceQueueItem" where
  "pingslot_item i e =
     \<lparr>DeviceQueueItem.ID = i, CreatedAt = zeroTime, UpdatedAt = zeroTime, DeviceQueueItem.DevAddr = 0,
      DeviceQueueItem.DevEUI = e, FRMPayload = [1, 2, 3], DeviceQueueItem.FCnt = 1, FPort = 1,
      Confirmed = False, IsPending = False, EmitAtTimeSinceGPSEpoch = Some 1001000000000,
      TimeoutAfter = None\<rparr>"

definition two_devices_store :: pgstore where
  "two_devices_store =
     \<lparr>device_profile = [\<lparr>DeviceProfile.ID = 7, SupportsClassB = True, SupportsClassC = False\<rparr>],
      device = [class_b_device 0x0202020202020202, class_b_device 0x0101010101010101],
      device_queue = [pingslot_item 1 0x0101010101010101, pingslot_item 2 0x0202020202020202],
      row_locks = []\<rparr>"

section \<open>Properties\<close>

lemma ucast_mod_65536: "(ucast ((w :: uint32) mod 65536) :: uint16) = ucast w"
  by (simp add: word_eq_iff_unsigned [where ?'a = nat] unsigned_ucast_eq unat_mod take_bit_eq_mod)

lemma unat_ucast_16_32: "unat (ucast (x :: uint16) :: uint32) = unat x"
proof -
  have "unat x < 2 ^ 16"
    using unsigned_less [of x, where ?'a = nat] by simp
  then show ?thesis
    by (simp add: unsigned_ucast_eq take_bit_eq_mod)
qed

lemma unat_gap16:
  "unat ((ucast (f :: uint32) :: uint16) - ucast (g :: uint32)) =
     (unat f mod 65536 + 65536 - unat g mod 65536) mod 65536"
  apply (simp add: unat_sub_if' unsigned_ucast_eq take_bit_eq_mod)
  apply (intro conjI impI)
  apply (metis (no_types, lifting) Nat.add_diff_assoc2 mod_add_self2 mod_less
      less_imp_diff_less mod_less_divisor zero_less_numeral)
  done

text \<open>
  Claim C5. The full uplink frame counter is \<open>s.FCntUp + gap\<close>, where \<open>gap\<close> is the
  wrapping 16-bit difference \<open>uint32(uint16(frameFCnt) - uint16(s.FCntUp))\<close>; the frame
  counter is accepted exactly when \<open>gap < maxFCntGap\<close>, and the function returns
  \<open>(s.FCntUp + gap, true)\<close> then and \<open>(0, false)\<close> otherwise. As a number, the gap is
  the difference of the two low 16-bit halves modulo 65536.
\<close>

theorem C5_full_fcnt_up:
  "ValidateAndGetFullFCntUp maxFCntGap s fCntUp =
     (if (ucast ((ucast fCntUp :: uint16) - (ucast (FCntUp (data s)) :: uint16)) :: uint32) < maxFCntGap
      then (FCntUp (data s) + ucast ((ucast fCntUp :: uint16) - (ucast (FCntUp (data s)) :: uint16)), True)
      else (0, False))
   \<and> (snd (ValidateAndGetFullFCntUp maxFCntGap s fCntUp) \<longleftrightarrow>
        (ucast ((ucast fCntUp :: uint16) - (ucast (FCntUp (data s)) :: uint16)) :: uint32) < maxFCntGap)
   \<and> unat (ucast ((ucast fCntUp :: uint16) - (ucast (FCntUp (data s)) :: uint16)) :: uint32) =
        (unat fCntUp mod 65536 + 65536 - unat (FCntUp (data s)) mod 65536) mod 65536"
proof -
  define gap :: uint32
    where "gap = ucast ((ucast fCntUp :: uint16) - (ucast (FCntUp (data s)) :: uint16))"
  have 1: "ValidateAndGetFullFCntUp maxFCntGap s fCntUp =
           (if gap < maxFCntGap then (FCntUp (data s) + gap, True) else (0, False))"
    by (simp add: ValidateAndGetFullFCntUp_def gap_def ucast_mod_65536 Let_def)
  have 2: "snd (ValidateAndGetFullFCntUp maxFCntGap s fCntUp) \<longleftrightarrow> gap < maxFCntGap"
    by (simp add: 1)
  have "unat gap = unat ((ucast fCntUp :: uint16) - (ucast (FCntUp (data s)) :: uint16))"
    by (simp add: gap_def unat_ucast_16_32)
  also have "\<dots> = (unat fCntUp mod 65536 + 65536 - unat (FCntUp (data s)) mod 65536) mod 65536"
    by (rule unat_gap16)
  finally have 3: "unat gap = (unat fCntUp mod 65536 + 65536 - unat (FCntUp (data s)) mod 65536) mod 65536" .
  from 1 2 3 show ?thesis
    unfolding gap_def by blast
qed

subsection \<open>Byte arrays, UUID text and time\<close>

lemma foldl_digits:
  "foldl (\<lambda>acc d. acc * b + d) a (map (\<lambda>i. n div b ^ i mod b) (rev [0..<k]))
     = a * b ^ k + (n :: nat) mod b ^ k"
proof (induction k arbitrary: a)
  case 0
  show ?case by simp
next
  case (Suc k)
  have "n mod (b ^ k * b) = b ^ k * (n div b ^ k mod b) + n mod b ^ k"
    by (rule mod_mult2_eq)
  then have "(a * b + n div b ^ k mod b) * b ^ k + n mod b ^ k = a * b ^ Suc k + n mod b ^ Suc k"
    by (simp add: algebra_simps)
  with Suc show ?case by simp
qed

lemma length_array_bytes [simp]: "length (array_bytes n a) = n"
  by (simp add: array_bytes_def)

lemma copy_to_array_array_bytes:
  fixes a :: "'a::len word"
  assumes "LENGTH('a) = 8 * n"
  shows "copy_to_array n (array_bytes n a) = a"
proof -
  have u: "unat (word_of_nat (d mod 256) :: byte) = d mod 256" for d :: nat
    by (simp add: unat_of_nat)
  have "foldl (\<lambda>acc b. acc * 256 + unat b) 0 (array_bytes n a)
      = foldl (\<lambda>acc d. acc * 256 + d) 0 (map (\<lambda>i. unat a div 256 ^ i mod 256) (rev [0..<n]))"
    by (simp add: array_bytes_def foldl_map u)
  also have "\<dots> = unat a mod 256 ^ n"
    by (simp add: foldl_digits)
  also have "\<dots> = unat a"
  proof -
    have "unat a < 2 ^ LENGTH('a)" by (rule unsigned_less)
    also have "(2::nat) ^ LENGTH('a) = 256 ^ n"
      by (simp add: assms power_mult)
    finally show ?thesis by simp
  qed
  finally show ?thesis
    by (simp add: copy_to_array_def)
qed

lemma fromHexChar_hexdigit_all:
  "list_all (\<lambda>n. fromHexChar (hexdigit n) = Some n) [0..<16]"
  by (simp add: upt_rec fromHexChar_def hexdigit_def)

lemma fromHexChar_hexdigit: "n < 16 \<Longrightarrow> fromHexChar (hexdigit n) = Some n"
  using fromHexChar_hexdigit_all by (simp add: list_all_iff)

lemma hex_decode_map_hexdigit:
  "list_all (\<lambda>d. d < 16) ds \<Longrightarrow> hex_decode (map hexdigit ds) = Some ds"
  by (induction ds) (simp_all add: fromHexChar_hexdigit)

lemma length_uuid_String [simp]: "length (uuid_String u) = 36"
  by (simp add: uuid_String_def Let_def)

lemma uuid_FromString_String: "uuid_FromString (uuid_String u) = (u, None)"
proof -
  define ds where "ds = map (\<lambda>i. unat u div 16 ^ i mod 16) (rev [0..<32])"
  define h where "h = map hexdigit ds"
  have len: "length h = 32" by (simp add: h_def ds_def)
  have str: "uuid_String u = take 8 h @ ''-'' @ take 4 (drop 8 h) @ ''-'' @ take 4 (drop 12 h) @ ''-''
           @ take 4 (drop 16 h) @ ''-'' @ drop 20 h"
    by (simp add: uuid_String_def h_def ds_def Let_def)
  have parts: "take 8 (uuid_String u) @ take 4 (drop 9 (uuid_String u)) @ take 4 (drop 14 (uuid_String u))
      @ take 4 (drop 19 (uuid_String u)) @ drop 24 (uuid_String u) = h"
  proof -
    have "take 8 h @ take 4 (drop 8 h) @ take 4 (drop 12 h) @ take 4 (drop 16 h) @ drop 20 h = h"
      by (metis (no_types, opaque_lifting) add_numeral_left append_take_drop_id take_add
          numeral_plus_numeral semiring_norm(2,3,4,5,6) append.assoc)
    then show ?thesis
      by (simp add: str len)
  qed
  have all: "list_all (\<lambda>d. d < 16) ds"
    by (simp add: ds_def list_all_iff)
  have dashes: "uuid_String u ! 8 = CHR ''-'' \<and> uuid_String u ! 13 = CHR ''-''
      \<and> uuid_String u ! 18 = CHR ''-'' \<and> uuid_String u ! 23 = CHR ''-''"
    by (simp add: str nth_append len)
  have "foldl (\<lambda>acc d. acc * 16 + d) 0 ds = unat u mod 16 ^ 32"
    unfolding ds_def by (simp add: foldl_digits)
  also have "\<dots> = unat u"
  proof -
    have "unat u < 2 ^ 128" using unsigned_less [of u, where ?'a = nat] by simp
    then show ?thesis by simp
  qed
  finally have val: "foldl (\<lambda>acc d. acc * 16 + d) 0 ds = unat u" .
  show ?thesis
    unfolding uuid_FromString_def parts
    using dashes by (simp add: h_def hex_decode_map_hexdigit [OF all] val)
qed

lemma sint_word_of_int_64:
  "- (2 ^ 63) \<le> x \<Longrightarrow> x < 2 ^ 63 \<Longrightarrow> sint (word_of_int x :: int64) = x"
  by (simp add: sint_sbintrunc' signed_take_bit_int_eq_self)

lemma UnixNano_zeroTime: "sint (time_UnixNano zeroTime) \<le> 0"
  by (simp add: time_UnixNano_def zeroTime_def)

lemma time_Unix_UnixNano:
  assumes "unix_representable t"
  shows "sint (time_UnixNano t) > 0 \<and> time_Unix 0 (time_UnixNano t) = t"
proof -
  define k where "k = sint (sec t) - 62135596800"
  define r where "r = sint (nsec t)"
  define U where "U = k * 1000000000 + r"
  from assms have r: "0 \<le> r" "r < 1000000000" and U: "0 < U" "U < 2 ^ 63"
    by (simp_all add: unix_representable_def k_def r_def U_def)
  have k0: "0 \<le> k"
  proof (rule ccontr)
    assume "\<not> 0 \<le> k"
    then have "k \<le> -1" by simp
    then have "k * 1000000000 \<le> -1000000000" by simp
    with r U show False by (simp add: U_def)
  qed
  have "time_UnixNano t = word_of_int U"
    by (simp only: time_UnixNano_def U_def k_def r_def)
  moreover have "sint (word_of_int U :: int64) = U"
    using U by (intro sint_word_of_int_64) simp_all
  ultimately have sU: "sint (time_UnixNano t) = U"
    by simp
  have "unix_norm 0 U = (k, r)"
  proof (cases "U \<ge> 1000000000")
    case True
    have "U div 1000000000 = k"
      using r by (simp add: U_def)
    with U have "tdiv U 1000000000 = k"
      by (simp add: tdiv_def)
    with True show ?thesis
      using r by (simp add: unix_norm_def Let_def) (simp add: U_def)
  next
    case False
    with U r k0 have "k = 0"
      by (auto simp: U_def intro: ccontr)
    with False U show ?thesis
      by (simp add: unix_norm_def U_def)
  qed
  moreover have "word_of_int (k + 62135596800) = sec t" "word_of_int r = nsec t"
    by (simp_all add: k_def r_def)
  ultimately have "time_Unix 0 (time_UnixNano t) = t"
    using sU by (simp add: time_Unix_def)
  with sU U show ?thesis by simp
qed

lemma time_roundtrip:
  assumes "time_ok t"
  shows "(if sint (time_UnixNano t) > 0 then time_Unix 0 (time_UnixNano t) else zeroTime) = t"
proof (cases "t = zeroTime")
  case True
  then show ?thesis using UnixNano_zeroTime by simp
next
  case False
  with assms have "unix_representable t" by (simp add: time_ok_def)
  then show ?thesis using time_Unix_UnixNano by simp
qed

lemma utf8_valid_ascii: "list_all (\<lambda>a. a < (128 :: nat)) xs \<Longrightarrow> utf8_valid xs"
  by (induction xs) simp_all

lemma hexdigit_ascii_all: "list_all (\<lambda>n. (of_char (hexdigit n) :: nat) < 128) [0..<16]"
  by (simp add: upt_rec hexdigit_def)

lemma hexdigit_ascii: "n < 16 \<Longrightarrow> (of_char (hexdigit n) :: nat) < 128"
  using hexdigit_ascii_all by (simp add: list_all_iff)

lemma utf8_ValidString_uuid_String: "utf8_ValidString (uuid_String u)"
proof -
  define h where "h = map hexdigit (map (\<lambda>i. unat u div 16 ^ i mod 16) (rev [0..<32]))"
  have h: "(of_char c :: nat) < 128" if "c \<in> set h" for c
    using that by (auto simp: h_def hexdigit_ascii)
  have str: "uuid_String u = take 8 h @ ''-'' @ take 4 (drop 8 h) @ ''-'' @ take 4 (drop 12 h) @ ''-''
           @ take 4 (drop 16 h) @ ''-'' @ drop 20 h"
    by (simp add: uuid_String_def h_def Let_def)
  have "(of_char c :: nat) < 128" if "c \<in> set (uuid_String u)" for c
  proof -
    from that have "c = CHR ''-'' \<or> c \<in> set h"
      unfolding str by (auto dest: in_set_takeD in_set_dropD)
    then show ?thesis
      using h by auto
  qed
  then have "list_all (\<lambda>a. a < (128 :: nat)) (map of_char (uuid_String u))"
    by (simp add: list_all_iff)
  then show ?thesis
    unfolding utf8_ValidString_def by (rule utf8_valid_ascii)
qed

subsection \<open>Uplink history and packet loss\<close>

lemma UplinkHistory_upd [simp]:
  "UplinkHistory (data (upd (UplinkHistory_update f) s)) = f (UplinkHistory (data s))"
  by (simp add: upd_def)

lemma UplinkHistory_session_with_history [simp]:
  "UplinkHistory (data (session_with_history h)) = h"
  by (simp add: session_with_history_def)

lemma UplinkHistory_AppendUplinkHistory:
  "UplinkHistory (data (AppendUplinkHistory s up)) =
     (if UplinkHistory (data s) \<noteq> [] \<and> UplinkHistory.FCnt (last (UplinkHistory (data s))) = UplinkHistory.FCnt up
      then UplinkHistory (data s)
      else drop (Suc (length (UplinkHistory (data s))) - UplinkHistorySize) (UplinkHistory (data s) @ [up]))"
  by (auto simp: AppendUplinkHistory_def Let_def slice_def last_conv_nth)

lemma length_AppendUplinkHistory:
  "length (UplinkHistory (data s)) \<le> UplinkHistorySize \<Longrightarrow>
   length (UplinkHistory (data (AppendUplinkHistory s up))) \<le> UplinkHistorySize"
  by (auto simp: UplinkHistory_AppendUplinkHistory UplinkHistorySize_def)

lemma length_foldl_AppendUplinkHistory:
  "length (UplinkHistory (data s)) \<le> UplinkHistorySize \<Longrightarrow>
   length (UplinkHistory (data (foldl AppendUplinkHistory s ups))) \<le> UplinkHistorySize"
  by (induction ups arbitrary: s) (simp_all add: length_AppendUplinkHistory)

lemma AppendUplinkHistory_retransmission:
  "UplinkHistory (data s) \<noteq> [] \<Longrightarrow>
   UplinkHistory.FCnt (last (UplinkHistory (data s))) = UplinkHistory.FCnt up \<Longrightarrow>
   AppendUplinkHistory s up = s"
  by (simp add: AppendUplinkHistory_def Let_def last_conv_nth)

text \<open>
  Claim C3, amended. When the appended record has the frame counter of the last stored
  record, \<open>AppendUplinkHistory\<close> returns at once (the source ignores a
  re-transmission, since its origin is unknown): the history is left as it is and the
  stored record is kept whatever the two \<open>MaxSNR\<close> values are. The kept record is
  therefore the one with the higher \<open>MaxSNR\<close> exactly when the stored one's is not
  below the new one's.
\<close>

theorem C3_retransmission_keeps_stored_record:
  assumes "UplinkHistory (data s) \<noteq> []"
    and "UplinkHistory.FCnt (last (UplinkHistory (data s))) = UplinkHistory.FCnt up"
  shows "UplinkHistory (data (AppendUplinkHistory s up)) = UplinkHistory (data s)
       \<and> last (UplinkHistory (data (AppendUplinkHistory s up))) = last (UplinkHistory (data s))
       \<and> (MaxSNR (last (UplinkHistory (data (AppendUplinkHistory s up)))) =
             max (MaxSNR (last (UplinkHistory (data s)))) (MaxSNR up)
           \<longleftrightarrow> MaxSNR up \<le> MaxSNR (last (UplinkHistory (data s))))"
  using assms by (auto simp: AppendUplinkHistory_retransmission)

text \<open>The theorem at a history of one record and a re-transmission with a lower SNR.\<close>

theorem C3_retransmission_witness:
  "UplinkHistory (data (session_with_history [uplink 7 5])) \<noteq> []
   \<and> UplinkHistory.FCnt (last (UplinkHistory (data (session_with_history [uplink 7 5])))) = UplinkHistory.FCnt (uplink 7 1)
   \<and> UplinkHistory (data (AppendUplinkHistory (session_with_history [uplink 7 5]) (uplink 7 1))) = [uplink 7 5]
   \<and> MaxSNR (last (UplinkHistory (data (AppendUplinkHistory (session_with_history [uplink 7 5]) (uplink 7 1))))) = 5"
  using C3_retransmission_keeps_stored_record [of "session_with_history [uplink 7 5]" "uplink 7 1"]
  by (simp add: uplink_def)

text \<open>
  Claim C3 as stated fails: the stored record for frame counter 7 has \<open>MaxSNR = 1\<close>,
  the re-transmission has \<open>MaxSNR = 5\<close>, and the history after the call still holds
  the record with \<open>MaxSNR = 1\<close>.
\<close>

theorem C3_higher_snr_counterexample:
  "UplinkHistory.FCnt (last (UplinkHistory (data (session_with_history [uplink 7 1])))) = UplinkHistory.FCnt (uplink 7 5)
   \<and> MaxSNR (last (UplinkHistory (data (session_with_history [uplink 7 1])))) < MaxSNR (uplink 7 5)
   \<and> UplinkHistory (data (AppendUplinkHistory (session_with_history [uplink 7 1]) (uplink 7 5))) = [uplink 7 1]
   \<and> MaxSNR (last (UplinkHistory (data (AppendUplinkHistory (session_with_history [uplink 7 1]) (uplink 7 5)))))
        \<noteq> max (MaxSNR (last (UplinkHistory (data (session_with_history [uplink 7 1]))))) (MaxSNR (uplink 7 5))"
  by (simp add: UplinkHistory_AppendUplinkHistory uplink_def)

text \<open>
  Claim C4. The bound \<open>|UplinkHistory| \<le> 20\<close> is kept by every sequence of
  \<open>AppendUplinkHistory\<close> calls; a call that does append leaves the last 20 records
  of the extended history, the new record last; and appending a record whose frame
  counter is that of the last stored record leaves the session unchanged.
\<close>

theorem C4_uplink_history_bounded:
  "(length (UplinkHistory (data s)) \<le> UplinkHistorySize \<longrightarrow>
      length (UplinkHistory (data (foldl AppendUplinkHistory s ups))) \<le> UplinkHistorySize)
   \<and> UplinkHistory (data (AppendUplinkHistory s up)) =
       (if UplinkHistory (data s) \<noteq> [] \<and> UplinkHistory.FCnt (last (UplinkHistory (data s))) = UplinkHistory.FCnt up
        then UplinkHistory (data s)
        else drop (Suc (length (UplinkHistory (data s))) - UplinkHistorySize) (UplinkHistory (data s) @ [up]))
   \<and> (UplinkHistory (data s) \<noteq> [] \<and> UplinkHistory.FCnt (last (UplinkHistory (data s))) = UplinkHistory.FCnt up \<longrightarrow>
        AppendUplinkHistory s up = s)
   \<and> (UplinkHistory (data s) = [] \<or> UplinkHistory.FCnt (last (UplinkHistory (data s))) \<noteq> UplinkHistory.FCnt up \<longrightarrow>
        length (UplinkHistory (data (AppendUplinkHistory s up))) \<le> UplinkHistorySize
        \<and> last (UplinkHistory (data (AppendUplinkHistory s up))) = up)"
proof (intro conjI impI)
  show "length (UplinkHistory (data (foldl AppendUplinkHistory s ups))) \<le> UplinkHistorySize"
    if "length (UplinkHistory (data s)) \<le> UplinkHistorySize"
    using that by (rule length_foldl_AppendUplinkHistory)
  show "UplinkHistory (data (AppendUplinkHistory s up)) =
       (if UplinkHistory (data s) \<noteq> [] \<and> UplinkHistory.FCnt (last (UplinkHistory (data s))) = UplinkHistory.FCnt up
        then UplinkHistory (data s)
        else drop (Suc (length (UplinkHistory (data s))) - UplinkHistorySize) (UplinkHistory (data s) @ [up]))"
    by (rule UplinkHistory_AppendUplinkHistory)
  show "AppendUplinkHistory s up = s"
    if "UplinkHistory (data s) \<noteq> [] \<and> UplinkHistory.FCnt (last (UplinkHistory (data s))) = UplinkHistory.FCnt up"
    using that by (simp add: AppendUplinkHistory_retransmission)
  assume new: "UplinkHistory (data s) = [] \<or> UplinkHistory.FCnt (last (UplinkHistory (data s))) \<noteq> UplinkHistory.FCnt up"
  then have eq: "UplinkHistory (data (AppendUplinkHistory s up)) =
      drop (Suc (length (UplinkHistory (data s))) - UplinkHistorySize) (UplinkHistory (data s) @ [up])"
    by (auto simp: UplinkHistory_AppendUplinkHistory)
  show "length (UplinkHistory (data (AppendUplinkHistory s up))) \<le> UplinkHistorySize"
    by (simp add: eq UplinkHistorySize_def)
  show "last (UplinkHistory (data (AppendUplinkHistory s up))) = up"
    by (simp add: eq UplinkHistorySize_def)
qed

text \<open>
  The theorem at a history of one record: a sequence of three appends (one of them a
  re-transmission), a re-transmission, and a new frame counter.
\<close>

theorem C4_uplink_history_witness:
  "length (UplinkHistory (data (session_with_history [uplink 1 3]))) \<le> UplinkHistorySize
   \<and> length (UplinkHistory (data (foldl AppendUplinkHistory (session_with_history [uplink 1 3])
          [uplink 2 4, uplink 2 9, uplink 3 1]))) \<le> UplinkHistorySize
   \<and> UplinkHistory.FCnt (last (UplinkHistory (data (session_with_history [uplink 1 3])))) = UplinkHistory.FCnt (uplink 1 8)
   \<and> AppendUplinkHistory (session_with_history [uplink 1 3]) (uplink 1 8) = session_with_history [uplink 1 3]
   \<and> UplinkHistory.FCnt (last (UplinkHistory (data (session_with_history [uplink 1 3])))) \<noteq> UplinkHistory.FCnt (uplink 2 4)
   \<and> UplinkHistory (data (AppendUplinkHistory (session_with_history [uplink 1 3]) (uplink 2 4))) = [uplink 1 3, uplink 2 4]"
  using C4_uplink_history_bounded [of "session_with_history [uplink 1 3]" "[uplink 2 4, uplink 2 9, uplink 3 1]" "uplink 1 8"]
    C4_uplink_history_bounded [of "session_with_history [uplink 1 3]" "[]" "uplink 2 4"]
  by (simp add: uplink_def UplinkHistorySize_def)

lemma lostPackets_loop_Suc:
  "lostPackets_loop (Suc i) xs (l, p) =
     (l + sum_list (map (\<lambda>(a, b). b - a - 1) (zip (p # map UplinkHistory.FCnt xs) (map UplinkHistory.FCnt xs))),
      last (p # map UplinkHistory.FCnt xs))"
  by (induction xs arbitrary: i l p) (simp_all add: add.assoc)

lemma lostPackets_loop_0:
  "lostPackets_loop 0 xs (0, 0) =
     (sum_list (map (\<lambda>(a, b). b - a - 1) (zip (map UplinkHistory.FCnt xs) (tl (map UplinkHistory.FCnt xs)))),
      last (0 # map UplinkHistory.FCnt xs))"
  by (cases xs) (simp_all add: lostPackets_loop_Suc)

text \<open>
  Claim C7. \<open>GetPacketLossPercentage\<close> is 0 for every session with fewer than 20
  uplink-history records; with 20 records or more it is the number of lost frames (the
  sum, in \<open>uint32\<close> arithmetic, of the gaps between consecutive frame counters minus
  one) over the number of records, times 100.
\<close>

theorem C7_packet_loss_needs_full_history:
  "(length (UplinkHistory (data s)) < 20 \<longrightarrow> GetPacketLossPercentage s = 0)
   \<and> (20 \<le> length (UplinkHistory (data s)) \<longrightarrow>
        GetPacketLossPercentage s =
          real (unat (sum_list (map (\<lambda>(a, b). b - a - 1)
                 (zip (map UplinkHistory.FCnt (UplinkHistory (data s)))
                      (tl (map UplinkHistory.FCnt (UplinkHistory (data s))))))))
            / real (length (UplinkHistory (data s))) * 100)"
  by (simp add: GetPacketLossPercentage_def UplinkHistorySize_def lostPackets_loop_0)

text \<open>
  The theorem at 19 and at 20 records with the frame counters \<open>0, 2, 4, \<dots>\<close>: no
  loss is reported for 19 records, and 19 lost frames over 20 records are 95 percent.
\<close>

theorem C7_packet_loss_witness:
  "length (UplinkHistory (data (session_with_history (history_upto 19)))) < 20
   \<and> GetPacketLossPercentage (session_with_history (history_upto 19)) = 0
   \<and> 20 \<le> length (UplinkHistory (data (session_with_history (history_upto 20))))
   \<and> GetPacketLossPercentage (session_with_history (history_upto 20)) = 95"
  using C7_packet_loss_needs_full_history [of "session_with_history (history_upto 19)"]
    C7_packet_loss_needs_full_history [of "session_with_history (history_upto 20)"]
  apply (simp add: history_upto_def)
  apply (simp add: upt_rec uplink_def)
  done

subsection \<open>The session codec\<close>

lemma ucast_8_32_8: "ucast (ucast (x :: uint8) :: uint32) = x"
  by (simp add: ucast_up_ucast_id is_up)

lemma ucast_16_32_16: "ucast (ucast (x :: uint16) :: uint32) = x"
  by (simp add: ucast_up_ucast_id is_up)

lemma ucast_32_64_32: "ucast (ucast (x :: uint32) :: go_int) = x"
  by (simp add: ucast_up_ucast_id is_up)

lemma fits_uint32_unat:
  assumes "fits_uint32 x"
  shows "unat x < 4294967296"
proof -
  from assms have b: "0 \<le> sint x" "sint x < 4294967296"
    by (simp_all add: fits_uint32_def)
  have "uint x = uint (word_of_int (sint x) :: go_int)"
    by simp
  also have "\<dots> = take_bit 64 (sint x)"
    by (simp only: unsigned_of_int) simp
  also have "\<dots> = sint x"
    using b by (simp add: take_bit_int_eq_self)
  finally have "uint x = sint x" .
  with b have "uint x < 4294967296" by simp
  moreover have "int (unat x) = uint x"
    by simp
  ultimately show ?thesis
    by linarith
qed

lemma ucast_64_32_64: "fits_uint32 x \<Longrightarrow> ucast (ucast x :: uint32) = x"
  using fits_uint32_unat [of x]
  by (simp add: word_eq_iff_unsigned [where ?'a = nat] unsigned_ucast_eq take_bit_eq_mod unat_mod)

lemma map_ucast_64_32_64: "list_all fits_uint32 xs \<Longrightarrow> map (ucast :: uint32 \<Rightarrow> go_int) (map ucast xs) = xs"
  by (induction xs) (simp_all add: ucast_64_32_64)

lemma fold_assign_lookup:
  "fmlookup (foldl (\<lambda>out (k, v). fmupd (kf k) (vf v) out) init xs) j =
     (case map_of (rev (map (\<lambda>(k, v). (kf k, vf v)) xs)) j of
        Some w \<Rightarrow> Some w
      | None \<Rightarrow> fmlookup init j)"
proof (induction xs arbitrary: init)
  case Nil
  show ?case by simp
next
  case (Cons p xs)
  obtain k v where p: "p = (k, v)" by (cases p)
  show ?case
    by (simp add: p Cons.IH map_add_def split: option.splits)
qed

lemma distinct_sorted_list_of_fmap: "distinct (map fst (sorted_list_of_fmap m))"
  by (simp add: sorted_list_of_fmap_def comp_def sorted_list_of_fset.rep_eq)

lemma set_sorted_list_of_fmap:
  "(k, v) \<in> set (sorted_list_of_fmap m) \<longleftrightarrow> fmlookup m k = Some v"
  using map_of_eq_Some_iff [OF distinct_sorted_list_of_fmap, of m k v]
  by simp

lemma range_assign_lookup:
  assumes "inj_on kf (fmdom' m)"
  shows "fmlookup (range_assign kf vf m) j = Some w \<longleftrightarrow>
           (\<exists>k v. fmlookup m k = Some v \<and> j = kf k \<and> w = vf v)"
proof -
  let ?ys = "map (\<lambda>(k, v). (kf k, vf v)) (sorted_list_of_fmap m)"
  have keys: "map fst ?ys = map kf (map fst (sorted_list_of_fmap m))"
    by (simp add: comp_def case_prod_unfold)
  have "set (map fst (sorted_list_of_fmap m)) \<subseteq> fmdom' m"
    by (auto simp: set_sorted_list_of_fmap intro: fmdom'I)
  with assms have "inj_on kf (set (map fst (sorted_list_of_fmap m)))"
    by (rule inj_on_subset)
  with distinct_sorted_list_of_fmap [of m] have "distinct (map kf (map fst (sorted_list_of_fmap m)))"
    using distinct_map [of kf "map fst (sorted_list_of_fmap m)"] by blast
  then have "distinct (map fst ?ys)"
    by (simp only: keys)
  then have d: "distinct (map fst (rev ?ys))"
    by (simp add: rev_map [symmetric])
  have "fmlookup (range_assign kf vf m) j = map_of (rev ?ys) j"
    by (simp add: range_assign_def fold_assign_lookup split: option.splits)
  also have "\<dots> = Some w \<longleftrightarrow> (j, w) \<in> set ?ys"
    using map_of_eq_Some_iff [OF d, of j w] by simp
  also have "\<dots> \<longleftrightarrow> (\<exists>k v. (k, v) \<in> set (sorted_list_of_fmap m) \<and> j = kf k \<and> w = vf v)"
    by (simp add: image_iff Bex_def case_prod_unfold)
  also have "\<dots> \<longleftrightarrow> (\<exists>k v. fmlookup m k = Some v \<and> j = kf k \<and> w = vf v)"
    by (simp only: set_sorted_list_of_fmap)
  finally show ?thesis .
qed

lemma range_assign_inverse:
  assumes k: "\<And>k. k \<in> fmdom' m \<Longrightarrow> kb (kf k) = k"
    and v: "\<And>k x. fmlookup m k = Some x \<Longrightarrow> vb (vf x) = x"
    and inj: "inj kb"
  shows "range_assign kb vb (range_assign kf vf m) = m"
proof (rule fmap_ext)
  fix x
  have injf: "inj_on kf (fmdom' m)"
    by (rule inj_on_inverseI [where g = kb]) (rule k)
  have injb: "inj_on kb (fmdom' (range_assign kf vf m))"
    using inj by (rule inj_on_subset) simp
  have "fmlookup (range_assign kb vb (range_assign kf vf m)) x = Some w \<longleftrightarrow> fmlookup m x = Some w" for w
  proof -
    have "fmlookup (range_assign kb vb (range_assign kf vf m)) x = Some w \<longleftrightarrow>
        (\<exists>j u. fmlookup (range_assign kf vf m) j = Some u \<and> x = kb j \<and> w = vb u)"
      by (rule range_assign_lookup [OF injb])
    also have "\<dots> \<longleftrightarrow> (\<exists>k y. fmlookup m k = Some y \<and> x = kb (kf k) \<and> w = vb (vf y))"
      by (simp only: range_assign_lookup [OF injf]) blast
    also have "\<dots> \<longleftrightarrow> fmlookup m x = Some w"
    proof
      assume "\<exists>k y. fmlookup m k = Some y \<and> x = kb (kf k) \<and> w = vb (vf y)"
      then obtain k' y where *: "fmlookup m k' = Some y" "x = kb (kf k')" "w = vb (vf y)"
        by blast
      from *(1) have "k' \<in> fmdom' m" by (rule fmdom'I)
      with * k v show "fmlookup m x = Some w" by simp
    next
      assume *: "fmlookup m x = Some w"
      then have "x \<in> fmdom' m" by (rule fmdom'I)
      with * k v have "fmlookup m x = Some w \<and> x = kb (kf x) \<and> w = vb (vf w)" by simp
      then show "\<exists>k y. fmlookup m k = Some y \<and> x = kb (kf k) \<and> w = vb (vf y)" by blast
    qed
    finally show ?thesis .
  qed
  then show "fmlookup (range_assign kb vb (range_assign kf vf m)) x = fmlookup m x"
    by (cases "fmlookup m x"; cases "fmlookup (range_assign kb vb (range_assign kf vf m)) x") auto
qed

lemma inj_ucast_32_64: "inj (ucast :: uint32 \<Rightarrow> go_int)"
  by (rule inj_on_inverseI [where g = ucast]) (rule ucast_32_64_32)

lemma channels_roundtrip:
  assumes "fmpred channel_ok m"
  shows "range_assign ucast
           (\<lambda>c. \<lparr>Channel.Frequency = ucast (DeviceSessionPBChannel.Frequency c),
                 MinDR = ucast (MinDr c), MaxDR = ucast (MaxDr c)\<rparr>)
           (range_assign (ucast :: go_int \<Rightarrow> uint32)
              (\<lambda>c. \<lparr>DeviceSessionPBChannel.Frequency = ucast (Channel.Frequency c),
                    MinDr = ucast (MinDR c), MaxDr = ucast (MaxDR c)\<rparr>) m) = m"
proof (rule range_assign_inverse)
  fix k
  assume "k \<in> fmdom' m"
  then obtain c where "fmlookup m k = Some c"
    by (auto simp: fmlookup_dom'_iff)
  with assms have "channel_ok k c" by (rule fmpredD)
  then show "ucast (ucast k :: uint32) = k"
    by (simp add: channel_ok_def ucast_64_32_64)
next
  fix k c
  assume "fmlookup m k = Some c"
  with assms have "channel_ok k c" by (rule fmpredD)
  then show "\<lparr>Channel.Frequency = ucast (DeviceSessionPBChannel.Frequency
               \<lparr>DeviceSessionPBChannel.Frequency = ucast (Channel.Frequency c),
                MinDr = ucast (MinDR c), MaxDr = ucast (MaxDR c)\<rparr>),
             MinDR = ucast (MinDr \<lparr>DeviceSessionPBChannel.Frequency = ucast (Channel.Frequency c),
                MinDr = ucast (MinDR c), MaxDr = ucast (MaxDR c)\<rparr>),
             MaxDR = ucast (MaxDr \<lparr>DeviceSessionPBChannel.Frequency = ucast (Channel.Frequency c),
                MinDr = ucast (MinDR c), MaxDr = ucast (MaxDR c)\<rparr>)\<rparr> = c"
    by (simp add: channel_ok_def ucast_64_32_64)
next
  show "inj (ucast :: uint32 \<Rightarrow> go_int)" by (rule inj_ucast_32_64)
qed

lemma history_roundtrip:
  "list_all (history_ok float32) hs \<Longrightarrow>
   map (\<lambda>h. \<lparr>UplinkHistory.FCnt = DeviceSessionPBUplinkADRHistory.FCnt h,
              MaxSNR = MaxSnr h,
              UplinkHistory.TXPowerIndex = ucast (DeviceSessionPBUplinkADRHistory.TxPowerIndex h),
              UplinkHistory.GatewayCount = ucast (DeviceSessionPBUplinkADRHistory.GatewayCount h)\<rparr>)
     (map (\<lambda>h. \<lparr>DeviceSessionPBUplinkADRHistory.FCnt = UplinkHistory.FCnt h,
                MaxSnr = float32 (MaxSNR h),
                DeviceSessionPBUplinkADRHistory.TxPowerIndex = ucast (UplinkHistory.TXPowerIndex h),
                DeviceSessionPBUplinkADRHistory.GatewayCount = ucast (UplinkHistory.GatewayCount h)\<rparr>) hs)
   = hs"
  by (induction hs) (simp_all add: history_ok_def ucast_64_32_64)

lemma envelope_roundtrip:
  "(case (case e of None \<Rightarrow> None | Some x \<Rightarrow> Some \<lparr>KekLabel = KEKLabel x, AesKey = AESKey x\<rparr>) of
      None \<Rightarrow> None
    | Some y \<Rightarrow> Some \<lparr>KEKLabel = KekLabel y, AESKey = AesKey y\<rparr>) = e"
  by (cases e) simp_all

lemma data_roundtrip:
  assumes "data_ok float32 d"
  shows "data (deviceSessionFromPB (deviceSessionToPB float32 (DeviceSession d p))) = d"
  apply (rule SessionData.equality)
  using assms
  apply (simp_all add: data_ok_def uuid_FromString_String copy_to_array_array_bytes
      ucast_8_32_8 ucast_16_32_16 ucast_64_32_64 map_ucast_64_32_64 channels_roundtrip
      history_roundtrip envelope_roundtrip time_roundtrip del: map_map split del: if_split cong del: if_weak_cong)
  done

lemma deviceSessionToPB_not_default: "deviceSessionToPB float32 s \<noteq> defaultPB"
proof
  assume eq: "deviceSessionToPB float32 s = defaultPB"
  obtain d p where s: "s = DeviceSession d p" by (cases s)
  from eq have "DeviceProfileId (pb (deviceSessionToPB float32 s)) = DeviceProfileId (pb defaultPB)"
    by simp
  then have "uuid_String (SessionData.DeviceProfileID d) = []"
    by (simp add: s defaultPB_def)
  then have "length (uuid_String (SessionData.DeviceProfileID d)) = 0"
    by simp
  then show False by simp
qed

lemma proto_valid_deviceSessionToPB:
  "proto_valid (deviceSessionToPB float32 p) \<longleftrightarrow> strings_ok (data p)"
  by (cases p)
     (simp add: proto_valid_def strings_ok_def utf8_ValidString_uuid_String split: option.splits)

lemma pending_roundtrip:
  "PendingRejoinDeviceSession (deviceSessionFromPB (deviceSessionToPB float32 (DeviceSession d pending)))
     = (case pending of
          None \<Rightarrow> None
        | Some p \<Rightarrow>
            if strings_ok (data p) then Some (deviceSessionFromPB (deviceSessionToPB float32 p)) else None)"
proof (cases pending)
  case None
  have "wire_empty WEmpty" by (simp add: wire_empty_def)
  with None show ?thesis by simp
next
  case (Some p)
  have "fst (proto_Marshal (deviceSessionToPB float32 p)) = WMsg (deviceSessionToPB float32 p)"
    by (simp add: proto_Marshal_def deviceSessionToPB_not_default)
  moreover have "\<not> wire_empty (WMsg (deviceSessionToPB float32 p))"
    by (simp add: wire_empty_def)
  moreover have "proto_Unmarshal (WMsg (deviceSessionToPB float32 p))
      = (if strings_ok (data p) then Some (deviceSessionToPB float32 p) else None)"
    by (simp add: proto_Unmarshal_def proto_valid_deviceSessionToPB)
  ultimately show ?thesis
    using Some by simp
qed

lemma deviceSession_roundtrip:
  assumes "encodable float32 s"
  shows "deviceSessionFromPB (deviceSessionToPB float32 s) = s"
  using assms
proof (induction float32 s rule: encodable.induct)
  case (1 float32 d pending)
  from "1.prems" have d: "data_ok float32 d"
    by simp
  have "PendingRejoinDeviceSession
          (deviceSessionFromPB (deviceSessionToPB float32 (DeviceSession d pending))) = pending"
  proof (cases pending)
    case None
    then show ?thesis unfolding pending_roundtrip by simp
  next
    case (Some p)
    with "1.prems" have ok: "strings_ok (data p)" and "encodable float32 p" by simp_all
    with Some "1.IH" have "deviceSessionFromPB (deviceSessionToPB float32 p) = p" by blast
    with Some ok show ?thesis unfolding pending_roundtrip by simp
  qed
  moreover have "data (deviceSessionFromPB (deviceSessionToPB float32 (DeviceSession d pending))) = d"
    using d by (rule data_roundtrip)
  ultimately show ?case
    by (simp add: DeviceSession.expand)
qed

text \<open>
  The conditions are also necessary: a field that comes back unchanged from the
  \<open>uint32\<close> conversion is in range, a time that comes back from
  \<open>time.Unix(0, ns)\<close> with \<open>ns > 0\<close> is representable.
\<close>

lemma fits_uint32_ucast: "fits_uint32 (ucast (y :: uint32))"
proof -
  have b: "0 \<le> uint y" "uint y < 4294967296"
    using uint_bounded [of y] by simp_all
  have "(ucast y :: go_int) = word_of_int (uint y)"
    by (simp only: of_int_uint)
  moreover have "sint (word_of_int (uint y) :: go_int) = uint y"
  proof (rule sint_word_of_int_64)
    have "(2::int) ^ 63 = 9223372036854775808" by simp
    with b show "- (2 ^ 63) \<le> uint y" "uint y < 2 ^ 63" by linarith+
  qed
  ultimately have "sint (ucast y :: go_int) = uint y"
    by simp
  with b show ?thesis
    by (simp add: fits_uint32_def)
qed

lemma fits_uint32_if_ucast: "ucast (ucast x :: uint32) = x \<Longrightarrow> fits_uint32 x"
  using fits_uint32_ucast [of "ucast x"] by simp

lemma list_all_fits_if_map:
  assumes "map (ucast :: uint32 \<Rightarrow> go_int) (map ucast xs) = xs"
  shows "list_all fits_uint32 xs"
proof -
  have "\<forall>x \<in> set xs. fits_uint32 x"
  proof
    fix x
    assume "x \<in> set xs"
    with assms have "x \<in> set (map (ucast :: uint32 \<Rightarrow> go_int) (map ucast xs))"
      by simp
    then show "fits_uint32 x"
      by (auto simp: fits_uint32_ucast)
  qed
  then show ?thesis by (simp add: list_all_iff)
qed

lemma channels_ok_if_roundtrip:
  assumes "range_assign ucast
           (\<lambda>c. \<lparr>Channel.Frequency = ucast (DeviceSessionPBChannel.Frequency c),
                 MinDR = ucast (MinDr c), MaxDR = ucast (MaxDr c)\<rparr>)
           (m' :: (uint32, DeviceSessionPBChannel) fmap) = m"
  shows "fmpred channel_ok m"
proof (rule fmpredI)
  fix k c
  assume "fmlookup m k = Some c"
  with assms have "fmlookup (range_assign ucast
           (\<lambda>c. \<lparr>Channel.Frequency = ucast (DeviceSessionPBChannel.Frequency c),
                 MinDR = ucast (MinDr c), MaxDR = ucast (MaxDr c)\<rparr>) m') k = Some c"
    by simp
  moreover have "inj_on (ucast :: uint32 \<Rightarrow> go_int) (fmdom' m')"
    using inj_ucast_32_64 by (rule inj_on_subset) simp
  ultimately have "\<exists>j u. fmlookup m' j = Some u \<and> k = ucast j
    \<and> c = \<lparr>Channel.Frequency = ucast (DeviceSessionPBChannel.Frequency u),
              MinDR = ucast (MinDr u), MaxDR = ucast (MaxDr u)\<rparr>"
    by (simp only: range_assign_lookup)
  then obtain j :: uint32 and u :: DeviceSessionPBChannel where "k = ucast j"
    and "c = \<lparr>Channel.Frequency = ucast (DeviceSessionPBChannel.Frequency u),
              MinDR = ucast (MinDr u), MaxDR = ucast (MaxDr u)\<rparr>"
    by blast
  then show "channel_ok k c"
    by (simp add: channel_ok_def fits_uint32_ucast)
qed

lemma history_ok_if_roundtrip:
  assumes "map (\<lambda>h. \<lparr>UplinkHistory.FCnt = DeviceSessionPBUplinkADRHistory.FCnt h,
              MaxSNR = MaxSnr h,
              UplinkHistory.TXPowerIndex = ucast (DeviceSessionPBUplinkADRHistory.TxPowerIndex h),
              UplinkHistory.GatewayCount = ucast (DeviceSessionPBUplinkADRHistory.GatewayCount h)\<rparr>)
     (map (\<lambda>h. \<lparr>DeviceSessionPBUplinkADRHistory.FCnt = UplinkHistory.FCnt h,
                MaxSnr = float32 (MaxSNR h),
                DeviceSessionPBUplinkADRHistory.TxPowerIndex = ucast (UplinkHistory.TXPowerIndex h),
                DeviceSessionPBUplinkADRHistory.GatewayCount = ucast (UplinkHistory.GatewayCount h)\<rparr>) hs)
   = hs"
  shows "list_all (history_ok float32) hs"
  using assms
proof (induction hs)
  case Nil
  show ?case by simp
next
  case (Cons h hs)
  from Cons.prems have hd: "\<lparr>UplinkHistory.FCnt = UplinkHistory.FCnt h, MaxSNR = float32 (MaxSNR h),
      UplinkHistory.TXPowerIndex = ucast (ucast (UplinkHistory.TXPowerIndex h) :: uint32),
      UplinkHistory.GatewayCount = ucast (ucast (UplinkHistory.GatewayCount h) :: uint32)\<rparr> = h"
    and tl: "list_all (history_ok float32) hs"
    using Cons.IH by simp_all
  from hd have "float32 (MaxSNR h) = MaxSNR h"
    and "ucast (ucast (UplinkHistory.TXPowerIndex h) :: uint32) = UplinkHistory.TXPowerIndex h"
    and "ucast (ucast (UplinkHistory.GatewayCount h) :: uint32) = UplinkHistory.GatewayCount h"
    by (metis UplinkHistory.select_convs(2), metis UplinkHistory.select_convs(3),
        metis UplinkHistory.select_convs(4))
  then have "history_ok float32 h"
    by (simp add: history_ok_def fits_uint32_if_ucast)
  with tl show ?case
    by simp
qed

lemma unix_norm_positive:
  assumes "0 < n"
  shows "unix_norm 0 n = (n div 1000000000, n mod 1000000000)"
proof (cases "n \<ge> 1000000000")
  case True
  with assms have "tdiv n 1000000000 = n div 1000000000"
    by (simp add: tdiv_def)
  moreover have "n - n div 1000000000 * 1000000000 = n mod 1000000000"
    by (simp add: minus_div_mult_eq_mod)
  moreover have "0 \<le> n mod 1000000000"
    by simp
  ultimately show ?thesis
    using True by (simp add: unix_norm_def Let_def)
next
  case False
  with assms show ?thesis
    by (simp add: unix_norm_def)
qed

lemma unix_representable_time_Unix:
  assumes "0 < sint n"
  shows "unix_representable (time_Unix 0 n)"
proof -
  define N where "N = sint n"
  define q where "q = N div 1000000000"
  define r where "r = N mod 1000000000"
  have N: "0 < N" "N < 2 ^ 63"
    using assms sint_lt [of n] by (simp_all add: N_def)
  have r: "0 \<le> r" "r < 1000000000"
    by (simp_all add: r_def)
  have q: "0 \<le> q" "q < 2 ^ 63"
    using N by (simp_all add: q_def pos_imp_zdiv_nonneg_iff)
  have qr: "q * 1000000000 + r = N"
    by (simp add: q_def r_def)
  have t: "time_Unix 0 n = \<lparr>sec = word_of_int (q + 62135596800), nsec = word_of_int r\<rparr>"
    using unix_norm_positive [OF N(1)] by (simp add: time_Unix_def N_def q_def r_def)
  have q2: "q < 9223372037"
  proof (rule ccontr)
    assume "\<not> q < 9223372037"
    then have "9223372037 * 1000000000 \<le> q * 1000000000"
      by simp
    with qr r N show False by simp
  qed
  have s: "sint (word_of_int (q + 62135596800) :: int64) = q + 62135596800"
    using q q2 by (intro sint_word_of_int_64) simp_all
  have ns: "sint (word_of_int r :: 32 word) = r"
    using r by (simp add: sint_sbintrunc' signed_take_bit_int_eq_self)
  show ?thesis
    unfolding unix_representable_def t Time.select_convs s ns
    using r N qr by simp
qed

lemma time_ok_if_roundtrip:
  assumes "(if sint (time_UnixNano t) > 0 then time_Unix 0 (time_UnixNano t) else zeroTime) = t"
  shows "time_ok t"
proof (cases "sint (time_UnixNano t) > 0")
  case True
  with assms have "time_Unix 0 (time_UnixNano t) = t" by simp
  with unix_representable_time_Unix [OF True] show ?thesis
    by (simp add: time_ok_def)
next
  case False
  with assms show ?thesis by (simp add: time_ok_def)
qed

lemma data_ok_if_roundtrip:
  assumes eq: "data (deviceSessionFromPB (deviceSessionToPB float32 (DeviceSession d p))) = d"
  shows "data_ok float32 d"
proof -
  let ?d = "data (deviceSessionFromPB (deviceSessionToPB float32 (DeviceSession d p)))"
  have sel: "g ?d = g d" for g :: "SessionData \<Rightarrow> 'a"
    using eq by simp
  have "RXWindow d = 0"
    using sel [of RXWindow] by simp
  moreover have "EnabledChannels d = []"
    using sel [of EnabledChannels] by simp
  moreover have "fits_uint32 (RX2Frequency d)"
    using sel [of RX2Frequency] by (simp add: fits_uint32_if_ucast)
  moreover have "fits_uint32 (SessionData.TXPowerIndex d)"
    using sel [of SessionData.TXPowerIndex] by (simp add: fits_uint32_if_ucast)
  moreover have "fits_uint32 (DR d)"
    using sel [of DR] by (simp add: fits_uint32_if_ucast)
  moreover have "fits_uint32 (MinSupportedTXPowerIndex d)"
    using sel [of MinSupportedTXPowerIndex] by (simp add: fits_uint32_if_ucast)
  moreover have "fits_uint32 (MaxSupportedTXPowerIndex d)"
    using sel [of MaxSupportedTXPowerIndex] by (simp add: fits_uint32_if_ucast)
  moreover have "fits_uint32 (SessionData.PingSlotNb d)"
    using sel [of SessionData.PingSlotNb] by (simp add: fits_uint32_if_ucast)
  moreover have "fits_uint32 (PingSlotDR d)"
    using sel [of PingSlotDR] by (simp add: fits_uint32_if_ucast)
  moreover have "fits_uint32 (SessionData.PingSlotFrequency d)"
    using sel [of SessionData.PingSlotFrequency] by (simp add: fits_uint32_if_ucast)
  moreover have "fits_uint32 (SessionData.RejoinRequestMaxCountN d)"
    using sel [of SessionData.RejoinRequestMaxCountN] by (simp add: fits_uint32_if_ucast)
  moreover have "fits_uint32 (SessionData.RejoinRequestMaxTimeN d)"
    using sel [of SessionData.RejoinRequestMaxTimeN] by (simp add: fits_uint32_if_ucast)
  moreover have "list_all fits_uint32 (SessionData.EnabledUplinkChannels d)"
    using sel [of SessionData.EnabledUplinkChannels]
    by (intro list_all_fits_if_map) (simp del: map_map)
  moreover have "list_all fits_uint32 (SessionData.ChannelFrequencies d)"
    using sel [of SessionData.ChannelFrequencies]
    by (intro list_all_fits_if_map) (simp del: map_map)
  moreover have "fmpred channel_ok (SessionData.ExtraUplinkChannels d)"
    using sel [of SessionData.ExtraUplinkChannels]
    by (intro channels_ok_if_roundtrip) simp
  moreover have "list_all (history_ok float32) (UplinkHistory d)"
    using sel [of UplinkHistory]
    by (intro history_ok_if_roundtrip) (simp del: map_map)
  moreover have "time_ok (LastDevStatusRequested d)"
    using sel [of LastDevStatusRequested]
    by (intro time_ok_if_roundtrip) (simp split del: if_split cong del: if_weak_cong)
  moreover have "time_ok (LastDownlinkTX d)"
    using sel [of LastDownlinkTX]
    by (intro time_ok_if_roundtrip) (simp split del: if_split cong del: if_weak_cong)
  ultimately show ?thesis
    unfolding data_ok_def by blast
qed

lemma encodable_if_roundtrip:
  "deviceSessionFromPB (deviceSessionToPB float32 s) = s \<Longrightarrow> encodable float32 s"
proof (induction float32 s rule: encodable.induct)
  case (1 float32 d pending)
  let ?s = "deviceSessionFromPB (deviceSessionToPB float32 (DeviceSession d pending))"
  from "1.prems" have "data ?s = data (DeviceSession d pending)"
    by (rule arg_cong)
  then have d: "data_ok float32 d"
    by (intro data_ok_if_roundtrip [where p = pending]) simp
  from "1.prems" have "PendingRejoinDeviceSession ?s = PendingRejoinDeviceSession (DeviceSession d pending)"
    by (rule arg_cong)
  then have p: "(case pending of
          None \<Rightarrow> None
        | Some p \<Rightarrow>
            if strings_ok (data p) then Some (deviceSessionFromPB (deviceSessionToPB float32 p)) else None)
      = pending"
    unfolding pending_roundtrip by simp
  show ?case
  proof (cases pending)
    case None
    with d show ?thesis by simp
  next
    case (Some q)
    with p have ok: "strings_ok (data q)" and "deviceSessionFromPB (deviceSessionToPB float32 q) = q"
      by (simp_all split: if_splits)
    with Some "1.IH" have "encodable float32 q" by blast
    with d Some ok show ?thesis by simp
  qed
qed

text \<open>
  Claim C2, amended. Decoding the encoding of a session \<open>s\<close> yields \<open>s\<close> again
  exactly for the sessions that the wire message represents: \<open>RXWindow\<close> and
  \<open>EnabledChannels\<close> (which are not encoded) are at their zero values, every \<open>int\<close>
  field, channel index and list element is in \<open>[0, 2^32)\<close>, every \<open>MaxSNR\<close> is a
  single-precision value, each of the two timestamps is the zero time or lies after the
  Unix epoch within the \<open>int64\<close> nanosecond range, and the embedded
  \<open>PendingRejoinDeviceSession\<close>, if there is one, has a MAC version and a key-envelope
  label that are valid UTF-8 (otherwise it does not unmarshal and is dropped) and
  satisfies the same conditions, recursively. For every other session the decoded value
  differs from \<open>s\<close>. The remaining fields of the session itself (identifiers, keys,
  frame counters, flags, 8- and 16-bit values, the strings, the key envelope, the
  reference altitude) round-trip without condition.
\<close>

theorem C2_codec_roundtrip:
  "deviceSessionFromPB (deviceSessionToPB float32 s) = s \<longleftrightarrow> encodable float32 s"
  by (rule iffI [OF encodable_if_roundtrip deviceSession_roundtrip])

lemma fits_uint32_numeral:
  "fits_uint32 0" "fits_uint32 5" "fits_uint32 1" "fits_uint32 867100000" "fits_uint32 869525000"
  by (simp_all add: fits_uint32_def)

lemma data_ok_zero: "data_ok (\<lambda>x. x) zeroSessionData"
  by (simp add: data_ok_def zeroSessionData_def fits_uint32_numeral time_ok_def)

text \<open>
  The theorem at a session with an uplink record, an extra channel, a last-downlink
  time and a pending rejoin session.
\<close>

theorem C2_codec_roundtrip_witness:
  "encodable (\<lambda>x. x) sample_session
   \<and> deviceSessionFromPB (deviceSessionToPB (\<lambda>x. x) sample_session) = sample_session"
proof -
  have "fmpred channel_ok (fmupd 3 \<lparr>Channel.Frequency = 867100000, MinDR = 0, MaxDR = 5\<rparr> fmempty)"
    by (intro fmpred_upd fmpred_empty) (simp add: channel_ok_def fits_uint32_def)
  then have "data_ok (\<lambda>x. x) (data sample_session)"
    using data_ok_zero
    by (simp add: sample_session_def data_ok_def fits_uint32_numeral channel_ok_def history_ok_def
        uplink_def time_ok_def unix_representable_def)
  moreover have "strings_ok zeroSessionData"
    by (simp add: strings_ok_def zeroSessionData_def utf8_ValidString_def)
  ultimately have "encodable (\<lambda>x. x) sample_session"
    using data_ok_zero by (simp add: sample_session_def zeroDeviceSession_def)
  with C2_codec_roundtrip [of "\<lambda>x. x" sample_session] show ?thesis
    by simp
qed

text \<open>
  Claim C2 as stated fails. A session with \<open>RXWindow = RX2\<close> decodes to a session
  with \<open>RXWindow = RX1\<close>; a non-empty \<open>EnabledChannels\<close> decodes to the empty list;
  \<open>RX2Frequency = 2^32 + 868100000\<close> decodes to \<open>868100000\<close>; a last-downlink
  time one second before the Unix epoch decodes to the zero time; and a pending rejoin
  session whose MAC version is not valid UTF-8 is lost.
\<close>

theorem C2_codec_roundtrip_counterexample:
  "deviceSessionFromPB (deviceSessionToPB (\<lambda>x. x) (upd (RXWindow_update (\<lambda>_. 1)) zeroDeviceSession))
     \<noteq> upd (RXWindow_update (\<lambda>_. 1)) zeroDeviceSession
   \<and> RXWindow (data (deviceSessionFromPB (deviceSessionToPB (\<lambda>x. x)
        (upd (RXWindow_update (\<lambda>_. 1)) zeroDeviceSession)))) = 0
   \<and> EnabledChannels (data (deviceSessionFromPB (deviceSessionToPB (\<lambda>x. x)
        (upd (EnabledChannels_update (\<lambda>_. [0, 1, 2])) zeroDeviceSession)))) = []
   \<and> RX2Frequency (data (deviceSessionFromPB (deviceSessionToPB (\<lambda>x. x)
        (upd (RX2Frequency_update (\<lambda>_. 5163067296)) zeroDeviceSession)))) = 868100000
   \<and> LastDownlinkTX (data (deviceSessionFromPB (deviceSessionToPB (\<lambda>x. x)
        (upd (LastDownlinkTX_update (\<lambda>_. \<lparr>sec = 62135596799, nsec = 0\<rparr>)) zeroDeviceSession)))) = zeroTime
   \<and> PendingRejoinDeviceSession bad_utf8_pending \<noteq> None
   \<and> PendingRejoinDeviceSession (deviceSessionFromPB (deviceSessionToPB (\<lambda>x. x) bad_utf8_pending)) = None"
proof -
  have 1: "RXWindow (data (deviceSessionFromPB (deviceSessionToPB (\<lambda>x. x)
        (upd (RXWindow_update (\<lambda>_. 1)) zeroDeviceSession)))) = 0"
    by (simp add: upd_def zeroDeviceSession_def)
  have "RXWindow (data (upd (RXWindow_update (\<lambda>_. 1)) zeroDeviceSession)) = 1"
    by (simp add: upd_def zeroDeviceSession_def)
  with 1 have 0: "deviceSessionFromPB (deviceSessionToPB (\<lambda>x. x) (upd (RXWindow_update (\<lambda>_. 1)) zeroDeviceSession))
     \<noteq> upd (RXWindow_update (\<lambda>_. 1)) zeroDeviceSession"
    by (metis zero_neq_one)
  have 2: "EnabledChannels (data (deviceSessionFromPB (deviceSessionToPB (\<lambda>x. x)
        (upd (EnabledChannels_update (\<lambda>_. [0, 1, 2])) zeroDeviceSession)))) = []"
    by (simp add: upd_def zeroDeviceSession_def)
  have 3: "RX2Frequency (data (deviceSessionFromPB (deviceSessionToPB (\<lambda>x. x)
        (upd (RX2Frequency_update (\<lambda>_. 5163067296)) zeroDeviceSession)))) = 868100000"
    by (simp add: upd_def zeroDeviceSession_def)
  have 4: "LastDownlinkTX (data (deviceSessionFromPB (deviceSessionToPB (\<lambda>x. x)
        (upd (LastDownlinkTX_update (\<lambda>_. \<lparr>sec = 62135596799, nsec = 0\<rparr>)) zeroDeviceSession)))) = zeroTime"
    by (simp add: upd_def zeroDeviceSession_def time_UnixNano_def)
  have 5: "PendingRejoinDeviceSession bad_utf8_pending \<noteq> None"
    by (simp add: bad_utf8_pending_def)
  have "\<not> strings_ok (zeroSessionData\<lparr>MACVersion := [char_of (255 :: nat), char_of (254 :: nat)]\<rparr>)"
    by (simp add: strings_ok_def utf8_ValidString_def)
  then have 6: "PendingRejoinDeviceSession (deviceSessionFromPB (deviceSessionToPB (\<lambda>x. x) bad_utf8_pending)) = None"
    unfolding bad_utf8_pending_def pending_roundtrip by simp
  from 0 1 2 3 4 5 6 show ?thesis by blast
qed

subsection \<open>The session store\<close>

lemma set_FCnt_set_FCnt [simp]: "set_FCnt (set_FCnt phy a) b = set_FCnt phy b"
  by (simp add: set_FCnt_def split: Payload.splits)

lemma reset_FCntUp_eq:
  "reset_FCntUp f s =
     DeviceSession ((data s)\<lparr>SessionData.FCntUp := f, UplinkHistory := []\<rparr>) (PendingRejoinDeviceSession s)"
  by (simp add: reset_FCntUp_def upd_def)

lemma reset_FCntUp_mic_arguments:
  "GetMACVersion (reset_FCntUp f s) = GetMACVersion s"
  "SessionData.ConfFCnt (data (reset_FCntUp f s)) = SessionData.ConfFCnt (data s)"
  "SessionData.FNwkSIntKey (data (reset_FCntUp f s)) = SessionData.FNwkSIntKey (data s)"
  "SessionData.SNwkSIntKey (data (reset_FCntUp f s)) = SessionData.SNwkSIntKey (data s)"
  by (simp_all add: reset_FCntUp_eq GetMACVersion_def)

lemma sessions_loop_passed_over:
  assumes "\<And>x. set_FCnt phy' x = set_FCnt phy x"
    and "list_all (passed_over env txDR txCh f phy) pre"
  shows "sessions_loop env txDR txCh f (pre @ s # rest) r phy'
       = sessions_loop env txDR txCh f (s # rest) r phy"
  using assms
proof (induction pre arbitrary: phy')
  case Nil
  then show ?case by (simp add: Let_def)
next
  case (Cons c pre)
  from Cons.prems(2) have c: "passed_over env txDR txCh f phy c"
    and pre: "list_all (passed_over env txDR txCh f phy) pre"
    by simp_all
  have eq: "set_FCnt phy' x = set_FCnt phy x" for x
    by (rule Cons.prems(1))
  have step: "sessions_loop env txDR txCh f (pre @ s # rest) r (set_FCnt phy y)
      = sessions_loop env txDR txCh f (s # rest) r phy" for y
    by (rule Cons.IH) (simp_all add: pre)
  obtain full ok where v: "ValidateAndGetFullFCntUp (MaxFCntGap env) c f = (full, ok)"
    by (cases "ValidateAndGetFullFCntUp (MaxFCntGap env) c f")
  show ?case
  proof (cases ok)
    case True
    with c v have "ValidateUplinkDataMIC env (set_FCnt phy full) (GetMACVersion c)
        (SessionData.ConfFCnt (data c)) (ucast txDR) (ucast txCh)
        (SessionData.FNwkSIntKey (data c)) (SessionData.SNwkSIntKey (data c)) = (False, None)"
      by (simp add: passed_over_def)
    with True v show ?thesis
      by (simp add: eq step Let_def)
  next
    case False
    with c v have "\<not> SkipFCntValidation (data c)
        \<or> ValidateUplinkDataMIC env (set_FCnt phy f) (GetMACVersion c)
            (SessionData.ConfFCnt (data c)) (ucast txDR) (ucast txCh)
            (SessionData.FNwkSIntKey (data c)) (SessionData.SNwkSIntKey (data c)) = (False, None)"
      by (simp add: passed_over_def)
    with False v show ?thesis
      by (auto simp: eq step Let_def reset_FCntUp_mic_arguments)
  qed
qed

lemma sessions_loop_skip:
  assumes "\<not> snd (ValidateAndGetFullFCntUp (MaxFCntGap env) s f)"
    and "SkipFCntValidation (data s)"
  shows "sessions_loop env txDR txCh f (s # rest) r phy =
     (case ValidateUplinkDataMIC env (set_FCnt phy f) (GetMACVersion s)
             (SessionData.ConfFCnt (data s)) (ucast txDR) (ucast txCh)
             (SessionData.FNwkSIntKey (data s)) (SessionData.SNwkSIntKey (data s)) of
        (micOK, Some err) \<Rightarrow>
          ((zeroDeviceSession, Some (Wrapped err ''validate mic error'')), r, set_FCnt phy f)
      | (micOK, None) \<Rightarrow>
          if micOK then
            (case SaveDeviceSession env r (reset_FCntUp f s) of
               (Some err, r') \<Rightarrow> ((zeroDeviceSession, Some err), r', set_FCnt phy f)
             | (None, r') \<Rightarrow> ((reset_FCntUp f s, None), r', set_FCnt phy f))
          else sessions_loop env txDR txCh f rest r (set_FCnt phy f))"
  using assms
  by (cases "ValidateAndGetFullFCntUp (MaxFCntGap env) s f")
     (simp add: Let_def reset_FCntUp_mic_arguments errors_Wrap_def)

text \<open>
  The call at a candidate \<open>s\<close> that the loop reaches, whose gap check fails and whose
  \<open>SkipFCntValidation\<close> is on.
\<close>

lemma skip_branch_call:
  assumes phy: "MACPayload phy = MACPayload_ptr macPL"
    and sessions: "GetDeviceSessionsForDevAddr env r (FHDR.DevAddr (FHDR macPL)) = ((pre @ s # rest, None), r1)"
    and pre: "list_all (passed_over env txDR txCh (FHDR.FCnt (FHDR macPL)) phy) pre"
    and gap: "\<not> snd (ValidateAndGetFullFCntUp (MaxFCntGap env) s (FHDR.FCnt (FHDR macPL)))"
    and skip: "SkipFCntValidation (data s)"
  shows "GetDeviceSessionForPHYPayload env r phy txDR txCh =
     (case ValidateUplinkDataMIC env phy (GetMACVersion s)
             (SessionData.ConfFCnt (data s)) (ucast txDR) (ucast txCh)
             (SessionData.FNwkSIntKey (data s)) (SessionData.SNwkSIntKey (data s)) of
        (micOK, Some err) \<Rightarrow>
          ((zeroDeviceSession, Some (Wrapped err ''validate mic error'')), r1, phy)
      | (micOK, None) \<Rightarrow>
          if micOK then
            (case SaveDeviceSession env r1 (reset_FCntUp (FHDR.FCnt (FHDR macPL)) s) of
               (Some err, r') \<Rightarrow> ((zeroDeviceSession, Some err), r', phy)
             | (None, r') \<Rightarrow> ((reset_FCntUp (FHDR.FCnt (FHDR macPL)) s, None), r', phy))
          else sessions_loop env txDR txCh (FHDR.FCnt (FHDR macPL)) rest r1 phy)"
proof -
  define f where "f = FHDR.FCnt (FHDR macPL)"
  have same: "set_FCnt phy f = phy"
    using phy by (simp add: set_FCnt_def f_def)
  have "GetDeviceSessionForPHYPayload env r phy txDR txCh
      = sessions_loop env txDR txCh f (pre @ s # rest) r1 phy"
    using phy sessions by (simp add: GetDeviceSessionForPHYPayload_def f_def)
  also have "\<dots> = sessions_loop env txDR txCh f (s # rest) r1 phy"
    using pre unfolding f_def [symmetric] by (intro sessions_loop_passed_over) simp_all
  also have "\<dots> =
     (case ValidateUplinkDataMIC env phy (GetMACVersion s)
             (SessionData.ConfFCnt (data s)) (ucast txDR) (ucast txCh)
             (SessionData.FNwkSIntKey (data s)) (SessionData.SNwkSIntKey (data s)) of
        (micOK, Some err) \<Rightarrow>
          ((zeroDeviceSession, Some (Wrapped err ''validate mic error'')), r1, phy)
      | (micOK, None) \<Rightarrow>
          if micOK then
            (case SaveDeviceSession env r1 (reset_FCntUp f s) of
               (Some err, r') \<Rightarrow> ((zeroDeviceSession, Some err), r', phy)
             | (None, r') \<Rightarrow> ((reset_FCntUp f s, None), r', phy))
          else sessions_loop env txDR txCh f rest r1 phy)"
    using sessions_loop_skip [OF gap [folded f_def] skip, of txDR txCh rest r1 phy]
    unfolding same .
  finally show ?thesis
    unfolding f_def .
qed

subsubsection \<open>What \<open>SaveDeviceSession\<close> does\<close>

lemma pool_Get_contents:
  "strings (snd (pool_Get r)) = strings r" "sets (snd (pool_Get r)) = sets r"
  by (simp_all add: pool_Get_def split: list.splits)

lemma foldl_redis_apply_strings:
  "\<forall>c \<in> set cmds. \<forall>k' ms v. c \<noteq> PSETEX k' ms v \<Longrightarrow>
   strings (foldl redis_apply r cmds) = strings r"
proof (induction cmds arbitrary: r)
  case Nil
  show ?case by simp
next
  case (Cons c cmds)
  then have "strings (redis_apply r c) = strings r"
    by (cases c) (auto split: option.splits)
  with Cons show ?case by simp
qed

lemma redis_apply_member:
  assumes "sets r k = Some ms" "m \<in> set ms"
  shows "\<exists>ms'. sets (redis_apply r c) k = Some ms' \<and> m \<in> set ms'"
  using assms by (cases c) (auto split: option.splits)

lemma foldl_redis_apply_member:
  assumes "sets r k = Some ms" "m \<in> set ms"
  shows "\<exists>ms'. sets (foldl redis_apply r cmds) k = Some ms' \<and> m \<in> set ms'"
  using assms
proof (induction cmds arbitrary: r ms)
  case Nil
  then show ?case by simp
next
  case (Cons c cmds)
  from redis_apply_member [OF Cons.prems, of c] obtain ms'
    where "sets (redis_apply r c) k = Some ms'" "m \<in> set ms'"
    by blast
  then show ?case
    using Cons.IH by simp
qed

lemma redis_apply_SADD_member:
  "\<exists>ms. sets (redis_apply r (SADD k m)) k = Some ms \<and> m \<in> set ms"
  by (auto split: option.splits)

lemma SaveDeviceSession_marshal_error:
  assumes "snd (proto_Marshal (deviceSessionToPB (toFloat32 env) s)) = Some e"
  shows "SaveDeviceSession env r s = (Some (Wrapped e ''protobuf encode error''), r)"
  using assms
  by (cases "proto_Marshal (deviceSessionToPB (toFloat32 env) s)")
     (simp add: SaveDeviceSession_def Let_def errors_Wrap_def)

lemma SaveDeviceSession_exec_error:
  assumes "snd (proto_Marshal (deviceSessionToPB (toFloat32 env) s)) = None"
    and "fst (pool_Get r) = Some e"
  shows "SaveDeviceSession env r s = (Some (Wrapped e ''exec error''), snd (pool_Get r))"
  using assms
  by (cases "proto_Marshal (deviceSessionToPB (toFloat32 env) s)"; cases "pool_Get r")
     (simp add: SaveDeviceSession_def Let_def errors_Wrap_def redis_EXEC_def)

lemma SaveDeviceSession_ok:
  assumes m: "snd (proto_Marshal (deviceSessionToPB (toFloat32 env) s)) = None"
    and c: "fst (pool_Get r) = None"
  shows "fst (SaveDeviceSession env r s) = None"
    and "strings (snd (SaveDeviceSession env r s)) (deviceSessionKey (SessionData.DevEUI (data s)))
           = Some (fst (proto_Marshal (deviceSessionToPB (toFloat32 env) s)))"
    and "\<exists>ms. sets (snd (SaveDeviceSession env r s)) (devAddrKey (SessionData.DevAddr (data s))) = Some ms
           \<and> array_bytes 8 (SessionData.DevEUI (data s)) \<in> set ms"
proof -
  obtain b where b: "proto_Marshal (deviceSessionToPB (toFloat32 env) s) = (b, None)"
    using m by (cases "proto_Marshal (deviceSessionToPB (toFloat32 env) s)") simp
  obtain r1 where r1: "pool_Get r = (None, r1)"
    using c by (cases "pool_Get r") simp
  define exp where "exp = (word_of_int (tdiv (sint (deviceSessionTTL env)) 1000000) :: int64)"
  define tail where "tail =
     PEXPIRE (devAddrKey (SessionData.DevAddr (data s))) exp
     # (case PendingRejoinDeviceSession s of
          None \<Rightarrow> []
        | Some pending \<Rightarrow>
            [SADD (devAddrKey (SessionData.DevAddr (data pending)))
               (array_bytes 8 (SessionData.DevEUI (data s))),
             PEXPIRE (devAddrKey (SessionData.DevAddr (data pending))) exp])"
  define r2 where "r2 = redis_apply r1 (PSETEX (deviceSessionKey (SessionData.DevEUI (data s))) exp b)"
  define r3 where "r3 = redis_apply r2
     (SADD (devAddrKey (SessionData.DevAddr (data s))) (array_bytes 8 (SessionData.DevEUI (data s))))"
  have save: "SaveDeviceSession env r s = (None, foldl redis_apply r3 tail)"
    by (simp add: SaveDeviceSession_def Let_def b r1 redis_EXEC_def exp_def tail_def r2_def r3_def
        del: redis_apply.simps cong del: option.case_cong_weak)
  show "fst (SaveDeviceSession env r s) = None"
    by (simp add: save)
  have "\<forall>c \<in> set (SADD (devAddrKey (SessionData.DevAddr (data s)))
                     (array_bytes 8 (SessionData.DevEUI (data s))) # tail).
          \<forall>k' ms v. c \<noteq> PSETEX k' ms v"
    by (auto simp: tail_def split: option.splits)
  then have "strings (foldl redis_apply r2
        (SADD (devAddrKey (SessionData.DevAddr (data s))) (array_bytes 8 (SessionData.DevEUI (data s))) # tail))
      = strings r2"
    by (rule foldl_redis_apply_strings)
  then show "strings (snd (SaveDeviceSession env r s)) (deviceSessionKey (SessionData.DevEUI (data s)))
           = Some (fst (proto_Marshal (deviceSessionToPB (toFloat32 env) s)))"
    by (simp add: save r3_def r2_def b)
  obtain ms where "sets r3 (devAddrKey (SessionData.DevAddr (data s))) = Some ms"
    and "array_bytes 8 (SessionData.DevEUI (data s)) \<in> set ms"
    unfolding r3_def using redis_apply_SADD_member by blast
  then show "\<exists>ms. sets (snd (SaveDeviceSession env r s)) (devAddrKey (SessionData.DevAddr (data s))) = Some ms
           \<and> array_bytes 8 (SessionData.DevEUI (data s)) \<in> set ms"
    unfolding save snd_conv by (rule foldl_redis_apply_member)
qed

text \<open>
  Claim C6, amended. Let \<open>s\<close> be a candidate of \<open>GetDeviceSessionForPHYPayload\<close> that
  the loop reaches (every candidate before it is passed over), whose frame-counter gap
  check fails and whose \<open>SkipFCntValidation\<close> is true; let \<open>s'\<close> be \<open>s\<close> with
  \<open>FCntUp\<close> set to the frame counter of the frame and \<open>UplinkHistory\<close> cleared, every
  other field (the downlink counters among them) as in \<open>s\<close>; and let \<open>mic\<close> be the
  result of \<open>phy.ValidateUplinkDataMIC\<close> on the frame with its own counter, with the
  MAC version, \<open>ConfFCnt\<close> and the two integrity keys of \<open>s'\<close>. Then:

  \<^item> when the validation returns an error, the call returns the zero session with that
    error wrapped, and nothing is written;
  \<^item> when the MIC is not valid, nothing is written and the loop goes on with the
    remaining candidates;
  \<^item> when the MIC is valid, \<open>s'\<close> is saved. If \<open>s'\<close> does not marshal, or if the
    \<open>EXEC\<close> of the save fails, the call returns the zero session with the error of the
    save and the keys of the store are as before. Otherwise the call returns \<open>s'\<close>
    without an error, and the store after the call holds the encoding of \<open>s'\<close> under
    the key of the device and the \<open>DevEUI\<close> in the set of the device address.
\<close>

theorem C6_skip_fcnt_validation_reset:
  fixes env :: storeenv and r r1 :: redis and phy :: PHYPayload and macPL :: MACPayload
    and txDR txCh :: go_int and s s' :: DeviceSession and pre rest :: "DeviceSession list"
    and f :: uint32 and mic :: "bool \<times> error option"
    and call :: "(DeviceSession \<times> error option) \<times> redis \<times> PHYPayload"
  defines "f \<equiv> FHDR.FCnt (FHDR macPL)"
  defines "s' \<equiv> DeviceSession ((data s)\<lparr>SessionData.FCntUp := FHDR.FCnt (FHDR macPL), UplinkHistory := []\<rparr>)
                   (PendingRejoinDeviceSession s)"
  defines "mic \<equiv> ValidateUplinkDataMIC env phy (GetMACVersion s') (SessionData.ConfFCnt (data s'))
                    (ucast txDR) (ucast txCh) (SessionData.FNwkSIntKey (data s'))
                    (SessionData.SNwkSIntKey (data s'))"
  defines "call \<equiv> GetDeviceSessionForPHYPayload env r phy txDR txCh"
  assumes phy: "MACPayload phy = MACPayload_ptr macPL"
    and sessions: "GetDeviceSessionsForDevAddr env r (FHDR.DevAddr (FHDR macPL)) = ((pre @ s # rest, None), r1)"
    and pre: "list_all (passed_over env txDR txCh f phy) pre"
    and gap: "\<not> snd (ValidateAndGetFullFCntUp (MaxFCntGap env) s f)"
    and skip: "SkipFCntValidation (data s)"
  shows "(\<forall>b err. mic = (b, Some err) \<longrightarrow>
            call = ((zeroDeviceSession, Some (Wrapped err ''validate mic error'')), r1, phy))
       \<and> (mic = (False, None) \<longrightarrow> call = sessions_loop env txDR txCh f rest r1 phy)
       \<and> (mic = (True, None) \<longrightarrow>
            (case snd (proto_Marshal (deviceSessionToPB (toFloat32 env) s')) of
               Some e \<Rightarrow> call = ((zeroDeviceSession, Some (Wrapped e ''protobuf encode error'')), r1, phy)
             | None \<Rightarrow>
                 (case fst (pool_Get r1) of
                    Some e \<Rightarrow>
                      call = ((zeroDeviceSession, Some (Wrapped e ''exec error'')), snd (pool_Get r1), phy)
                  | None \<Rightarrow>
                      fst call = (s', None) \<and> snd (snd call) = phy
                      \<and> strings (fst (snd call)) (deviceSessionKey (SessionData.DevEUI (data s)))
                          = Some (fst (proto_Marshal (deviceSessionToPB (toFloat32 env) s')))
                      \<and> (\<exists>ms. sets (fst (snd call)) (devAddrKey (SessionData.DevAddr (data s))) = Some ms
                               \<and> array_bytes 8 (SessionData.DevEUI (data s)) \<in> set ms))))
       \<and> SessionData.NFCntDown (data s') = SessionData.NFCntDown (data s)
       \<and> SessionData.AFCntDown (data s') = SessionData.AFCntDown (data s)"
proof -
  have s': "s' = reset_FCntUp (FHDR.FCnt (FHDR macPL)) s"
    by (simp add: s'_def reset_FCntUp_eq)
  have mic: "mic = ValidateUplinkDataMIC env phy (GetMACVersion s) (SessionData.ConfFCnt (data s))
                    (ucast txDR) (ucast txCh) (SessionData.FNwkSIntKey (data s))
                    (SessionData.SNwkSIntKey (data s))"
    by (simp add: mic_def s' reset_FCntUp_mic_arguments)
  have loop: "call =
     (case mic of
        (micOK, Some err) \<Rightarrow>
          ((zeroDeviceSession, Some (Wrapped err ''validate mic error'')), r1, phy)
      | (micOK, None) \<Rightarrow>
          if micOK then
            (case SaveDeviceSession env r1 s' of
               (Some err, r') \<Rightarrow> ((zeroDeviceSession, Some err), r', phy)
             | (None, r') \<Rightarrow> ((s', None), r', phy))
          else sessions_loop env txDR txCh f rest r1 phy)"
    unfolding call_def mic s' f_def
    using phy sessions pre [unfolded f_def] gap [unfolded f_def] skip
    by (rule skip_branch_call)
  have 1: "call = ((zeroDeviceSession, Some (Wrapped err ''validate mic error'')), r1, phy)"
    if "mic = (b, Some err)" for b err
    using that by (simp add: loop)
  have 2: "call = sessions_loop env txDR txCh f rest r1 phy" if "mic = (False, None)"
    using that by (simp add: loop)
  have save: "call =
      (case SaveDeviceSession env r1 s' of
         (Some err, r') \<Rightarrow> ((zeroDeviceSession, Some err), r', phy)
       | (None, r') \<Rightarrow> ((s', None), r', phy))"
    if "mic = (True, None)"
    using that by (simp add: loop)
  have 3: "call = ((zeroDeviceSession, Some (Wrapped e ''protobuf encode error'')), r1, phy)"
    if "mic = (True, None)" "snd (proto_Marshal (deviceSessionToPB (toFloat32 env) s')) = Some e" for e
    using save [OF that(1)] SaveDeviceSession_marshal_error [OF that(2), of r1] by simp
  have 4: "call = ((zeroDeviceSession, Some (Wrapped e ''exec error'')), snd (pool_Get r1), phy)"
    if "mic = (True, None)" "snd (proto_Marshal (deviceSessionToPB (toFloat32 env) s')) = None"
      "fst (pool_Get r1) = Some e" for e
    using save [OF that(1)] SaveDeviceSession_exec_error [OF that(2,3)] by simp
  have 5: "fst call = (s', None) \<and> snd (snd call) = phy
      \<and> strings (fst (snd call)) (deviceSessionKey (SessionData.DevEUI (data s)))
          = Some (fst (proto_Marshal (deviceSessionToPB (toFloat32 env) s')))
      \<and> (\<exists>ms. sets (fst (snd call)) (devAddrKey (SessionData.DevAddr (data s))) = Some ms
               \<and> array_bytes 8 (SessionData.DevEUI (data s)) \<in> set ms)"
    if "mic = (True, None)" "snd (proto_Marshal (deviceSessionToPB (toFloat32 env) s')) = None"
      "fst (pool_Get r1) = None"
  proof -
    obtain e r' where sv: "SaveDeviceSession env r1 s' = (e, r')"
      by (cases "SaveDeviceSession env r1 s'")
    from SaveDeviceSession_ok [OF that(2,3)] sv
    have "e = None"
      and "strings r' (deviceSessionKey (SessionData.DevEUI (data s')))
          = Some (fst (proto_Marshal (deviceSessionToPB (toFloat32 env) s')))"
      and "\<exists>ms. sets r' (devAddrKey (SessionData.DevAddr (data s'))) = Some ms
               \<and> array_bytes 8 (SessionData.DevEUI (data s')) \<in> set ms"
      by simp_all
    moreover have "SessionData.DevEUI (data s') = SessionData.DevEUI (data s)"
      and "SessionData.DevAddr (data s') = SessionData.DevAddr (data s)"
      by (simp_all add: s'_def)
    ultimately show ?thesis
      using save [OF that(1)] sv by simp
  qed
  have 6: "SessionData.NFCntDown (data s') = SessionData.NFCntDown (data s)"
    "SessionData.AFCntDown (data s') = SessionData.AFCntDown (data s)"
    by (simp_all add: s'_def)
  show ?thesis
    using 1 2 3 4 5 6 by (auto split: option.splits)
qed

lemma pool_Get_no_faults: "faults r = [] \<Longrightarrow> pool_Get r = (None, r)"
  by (simp add: pool_Get_def)

lemma strings_ok_abp_session: "strings_ok (data abp_session)"
  by (simp add: abp_session_def strings_ok_def utf8_ValidString_def zeroSessionData_def)

lemma encodable_abp_session: "encodable (\<lambda>x. x) abp_session"
  using data_ok_zero
  by (simp add: abp_session_def data_ok_def history_ok_def uplink_def fits_uint32_numeral)

text \<open>
  The candidates for the device address \<open>01020304\<close> in a store with the contents of
  \<open>abp_store\<close> whose next two connections work.
\<close>

lemma abp_store_sessions:
  assumes contents: "strings r = strings abp_store" "sets r = sets abp_store"
    and c1: "pool_Get r = (None, r1)"
    and c2: "pool_Get r1 = (None, r2)"
  shows "GetDeviceSessionsForDevAddr env_mic_valid r 0x01020304 = (([abp_session], None), r2)"
proof -
  have r1: "strings r1 = strings abp_store" "sets r1 = sets abp_store"
    using pool_Get_contents [of r] contents by (simp_all add: c1)
  have r2: "strings r2 = strings abp_store"
    using pool_Get_contents(1) [of r1] r1 by (simp add: c2)
  have eui: "(copy_to_array 8 (array_bytes 8 (0x0102030405060708 :: EUI64)) :: EUI64) = 0x0102030405060708"
    by (rule copy_to_array_array_bytes) simp
  have valid: "proto_valid (deviceSessionToPB (\<lambda>x. x) abp_session)"
    by (simp add: proto_valid_deviceSessionToPB strings_ok_abp_session)
  have get: "GetDeviceSession env_mic_valid r1 0x0102030405060708 = ((abp_session, None), r2)"
    by (simp add: GetDeviceSession_def c2 redis_GET_def r2 abp_store_def proto_Marshal_def
        deviceSessionToPB_not_default proto_Unmarshal_def valid
        deviceSession_roundtrip [OF encodable_abp_session])
  have addr: "SessionData.DevAddr (data abp_session) = 0x01020304"
    and pend: "PendingRejoinDeviceSession abp_session = None"
    by (simp_all add: abp_session_def)
  have "redis_SMEMBERS None r1 (devAddrKey 0x01020304)
      = ([array_bytes 8 (0x0102030405060708 :: EUI64)], None)"
    by (simp add: redis_SMEMBERS_def r1 abp_store_def)
  then show ?thesis
    by (simp add: GetDeviceSessionsForDevAddr_def c1 sessions_for_member_def eui get addr pend)
qed

lemma abp_gap_fails: "\<not> snd (ValidateAndGetFullFCntUp (MaxFCntGap env_mic_valid) abp_session 1)"
  by (simp add: ValidateAndGetFullFCntUp_def env_mic_valid_def abp_session_def Let_def)

text \<open>
  The theorem at a store with one ABP session whose uplink counter is 20000, and a frame
  with counter 1: the gap is 45537, the session is reset to counter 1, saved and
  returned, and its network downlink counter is still 7.
\<close>

theorem C6_skip_fcnt_validation_witness:
  "MACPayload reset_frame = MACPayload_ptr \<lparr>FHDR = \<lparr>FHDR.DevAddr = 0x01020304, FHDR.FCnt = 1\<rparr>, frame = [1, 2, 3]\<rparr>
   \<and> GetDeviceSessionsForDevAddr env_mic_valid abp_store 0x01020304 = (([] @ abp_session # [], None), abp_store)
   \<and> list_all (passed_over env_mic_valid 0 0 1 reset_frame) []
   \<and> \<not> snd (ValidateAndGetFullFCntUp (MaxFCntGap env_mic_valid) abp_session 1)
   \<and> SkipFCntValidation (data abp_session)
   \<and> fst (GetDeviceSessionForPHYPayload env_mic_valid abp_store reset_frame 0 0)
       = (DeviceSession ((data abp_session)\<lparr>SessionData.FCntUp := 1, UplinkHistory := []\<rparr>) None, None)
   \<and> strings (fst (snd (GetDeviceSessionForPHYPayload env_mic_valid abp_store reset_frame 0 0)))
        (deviceSessionKey 0x0102030405060708)
       = Some (fst (proto_Marshal (deviceSessionToPB (\<lambda>x. x)
            (DeviceSession ((data abp_session)\<lparr>SessionData.FCntUp := 1, UplinkHistory := []\<rparr>) None))))
   \<and> SessionData.NFCntDown (data abp_session) = 7"
proof -
  let ?macPL = "\<lparr>FHDR = \<lparr>FHDR.DevAddr = 0x01020304, FHDR.FCnt = 1\<rparr>, frame = [1, 2, 3]\<rparr>"
  let ?s' = "DeviceSession ((data abp_session)\<lparr>SessionData.FCntUp := 1, UplinkHistory := []\<rparr>) None"
  have get: "pool_Get abp_store = (None, abp_store)"
    by (rule pool_Get_no_faults) (simp add: abp_store_def)
  have 1: "MACPayload reset_frame = MACPayload_ptr ?macPL"
    by (simp add: reset_frame_def)
  have cand: "GetDeviceSessionsForDevAddr env_mic_valid abp_store 0x01020304 = (([abp_session], None), abp_store)"
    using get get by (intro abp_store_sessions) simp_all
  then have 2: "GetDeviceSessionsForDevAddr env_mic_valid abp_store (FHDR.DevAddr (FHDR ?macPL))
      = (([] @ abp_session # [], None), abp_store)"
    by simp
  have 3: "list_all (passed_over env_mic_valid 0 0 (FHDR.FCnt (FHDR ?macPL)) reset_frame) []"
    by simp
  have 4: "\<not> snd (ValidateAndGetFullFCntUp (MaxFCntGap env_mic_valid) abp_session (FHDR.FCnt (FHDR ?macPL)))"
    using abp_gap_fails by simp
  have 5: "SkipFCntValidation (data abp_session)"
    and 6: "PendingRejoinDeviceSession abp_session = None"
    and 7: "SessionData.NFCntDown (data abp_session) = 7"
    and 8: "SessionData.DevEUI (data abp_session) = 0x0102030405060708"
    by (simp_all add: abp_session_def)
  have mic: "ValidateUplinkDataMIC env_mic_valid reset_frame v c dr ch k1 k2 = (True, None)" for v c dr ch k1 k2
    by (simp add: env_mic_valid_def)
  have "strings_ok (data ?s')"
    using strings_ok_abp_session by (simp add: strings_ok_def)
  then have "proto_valid (deviceSessionToPB (toFloat32 env_mic_valid) ?s')"
    unfolding proto_valid_deviceSessionToPB .
  then have marshal: "snd (proto_Marshal (deviceSessionToPB (toFloat32 env_mic_valid) ?s')) = None"
    by (simp add: proto_Marshal_def del: deviceSessionToPB.simps)
  have fl: "toFloat32 env_mic_valid = (\<lambda>x. x)"
    by (simp add: env_mic_valid_def)
  from C6_skip_fcnt_validation_reset [OF 1 2 3 4 5]
  have "fst (GetDeviceSessionForPHYPayload env_mic_valid abp_store reset_frame 0 0) = (?s', None)
      \<and> strings (fst (snd (GetDeviceSessionForPHYPayload env_mic_valid abp_store reset_frame 0 0)))
           (deviceSessionKey 0x0102030405060708)
          = Some (fst (proto_Marshal (deviceSessionToPB (\<lambda>x. x) ?s')))"
    unfolding 6 using marshal by (simp add: mic get 8 fl)
  with 1 cand 4 5 7 show ?thesis
    by simp
qed

text \<open>
  Claim C6 as stated fails when the save fails. In the same store, with the connection
  that \<open>SaveDeviceSession\<close> takes broken, the MIC of the frame is valid for the reset
  session, and the call returns the zero session with the error of \<open>EXEC\<close>; the store
  still holds the session with the uplink counter 20000.
\<close>

theorem C6_save_error_counterexample:
  "ValidateUplinkDataMIC env_mic_valid reset_frame (GetMACVersion abp_session)
      (SessionData.ConfFCnt (data abp_session)) 0 0 (SessionData.FNwkSIntKey (data abp_session))
      (SessionData.SNwkSIntKey (data abp_session)) = (True, None)
   \<and> GetDeviceSessionForPHYPayload env_mic_valid abp_store_exec_fails reset_frame 0 0
       = ((zeroDeviceSession, Some (Wrapped (LibError ''connection refused'') ''exec error'')),
          abp_store, reset_frame)
   \<and> strings abp_store (deviceSessionKey 0x0102030405060708)
       = Some (fst (proto_Marshal (deviceSessionToPB (\<lambda>x. x) abp_session)))
   \<and> SessionData.FCntUp (data abp_session) = 20000"
proof -
  let ?macPL = "\<lparr>FHDR = \<lparr>FHDR.DevAddr = 0x01020304, FHDR.FCnt = 1\<rparr>, frame = [1, 2, 3]\<rparr>"
  let ?e = "LibError ''connection refused''"
  define r1 where "r1 = abp_store\<lparr>faults := [None, Some ?e]\<rparr>"
  define r2 where "r2 = abp_store\<lparr>faults := [Some ?e]\<rparr>"
  have g1: "pool_Get abp_store_exec_fails = (None, r1)"
    and g2: "pool_Get r1 = (None, r2)"
    and g3: "pool_Get r2 = (Some ?e, abp_store)"
    by (simp_all add: pool_Get_def abp_store_exec_fails_def r1_def r2_def abp_store_def)
  have 1: "MACPayload reset_frame = MACPayload_ptr ?macPL"
    by (simp add: reset_frame_def)
  have "GetDeviceSessionsForDevAddr env_mic_valid abp_store_exec_fails 0x01020304 = (([abp_session], None), r2)"
    using g1 g2 by (intro abp_store_sessions) (simp_all add: abp_store_exec_fails_def)
  then have 2: "GetDeviceSessionsForDevAddr env_mic_valid abp_store_exec_fails (FHDR.DevAddr (FHDR ?macPL))
      = (([] @ abp_session # [], None), r2)"
    by simp
  have 3: "list_all (passed_over env_mic_valid 0 0 (FHDR.FCnt (FHDR ?macPL)) reset_frame) []"
    by simp
  have 4: "\<not> snd (ValidateAndGetFullFCntUp (MaxFCntGap env_mic_valid) abp_session (FHDR.FCnt (FHDR ?macPL)))"
    using abp_gap_fails by simp
  have 5: "SkipFCntValidation (data abp_session)"
    and 7: "SessionData.FCntUp (data abp_session) = 20000"
    by (simp_all add: abp_session_def)
  have mic: "ValidateUplinkDataMIC env_mic_valid reset_frame v c dr ch k1 k2 = (True, None)" for v c dr ch k1 k2
    by (simp add: env_mic_valid_def)
  have "strings_ok (data (reset_FCntUp 1 abp_session))"
    using strings_ok_abp_session by (simp add: strings_ok_def reset_FCntUp_eq)
  then have "proto_valid (deviceSessionToPB (toFloat32 env_mic_valid) (reset_FCntUp 1 abp_session))"
    unfolding proto_valid_deviceSessionToPB .
  then have "snd (proto_Marshal (deviceSessionToPB (toFloat32 env_mic_valid) (reset_FCntUp 1 abp_session))) = None"
    by (simp add: proto_Marshal_def del: deviceSessionToPB.simps)
  then have save: "SaveDeviceSession env_mic_valid r2 (reset_FCntUp 1 abp_session)
      = (Some (Wrapped ?e ''exec error''), abp_store)"
    using SaveDeviceSession_exec_error [of env_mic_valid "reset_FCntUp 1 abp_session" r2 ?e]
    by (simp add: g3)
  have call: "GetDeviceSessionForPHYPayload env_mic_valid abp_store_exec_fails reset_frame 0 0
      = ((zeroDeviceSession, Some (Wrapped ?e ''exec error'')), abp_store, reset_frame)"
    using skip_branch_call [OF 1 2 3 4 5] by (simp add: mic save)
  have stored: "strings abp_store (deviceSessionKey 0x0102030405060708)
       = Some (fst (proto_Marshal (deviceSessionToPB (\<lambda>x. x) abp_session)))"
    by (simp add: abp_store_def)
  from mic call stored 7 show ?thesis
    by simp
qed

subsection \<open>Application-server client pool\<close>

lemma createClient_bad_ca:
  assumes "\<not> (tlsCert = [] \<and> tlsKey = [] \<and> caCert = [])"
    and "snd (X509KeyPair env tlsCert tlsKey) = None"
    and "\<not> AppendCertsFromPEM env caCert"
  shows "createClient env hostname caCert tlsCert tlsKey = (None, None)"
  using assms
  by (auto simp: createClient_def errors_Wrap_def split: prod.splits)

text \<open>
  Claim C10. For a host that is not in the pool, with TLS parameters that are not all
  empty, a key pair that parses and a CA certificate that \<open>AppendCertsFromPEM\<close>
  refuses, \<open>Get\<close> returns a nil client and a nil error: \<open>errors.Wrap\<close> is applied to
  the nil error of the key-pair parse. The nil client is also stored in the pool under
  the host name.
\<close>

theorem C10_bad_ca_returns_nil_nil:
  assumes "clients p hostname = None"
    and "\<not> (tlsCert = [] \<and> tlsKey = [] \<and> caCert = [])"
    and "snd (X509KeyPair env tlsCert tlsKey) = None"
    and "\<not> AppendCertsFromPEM env caCert"
  shows "fst (Get env p hostname caCert tlsCert tlsKey) = (None, None)
       \<and> createClient env hostname caCert tlsCert tlsKey = (None, errors_Wrap None ''append ca cert to pool error'')
       \<and> clients (snd (Get env p hostname caCert tlsCert tlsKey)) hostname
           = Some \<lparr>lastUsed = timeNow env, client = None\<rparr>"
  using assms createClient_bad_ca [OF assms(2-4), of hostname]
  by (simp add: Get_def errors_Wrap_def)

text \<open>The theorem at an empty pool, the host \<open>as:8001\<close> and one-byte parameters.\<close>

theorem C10_bad_ca_witness:
  "clients NewPool ''as:8001'' = None
   \<and> \<not> ([1 :: byte] = [] \<and> [2 :: byte] = [] \<and> [3 :: byte] = [])
   \<and> snd (X509KeyPair env_bad_ca [1] [2]) = None
   \<and> \<not> AppendCertsFromPEM env_bad_ca [3]
   \<and> fst (Get env_bad_ca NewPool ''as:8001'' [3] [1] [2]) = (None, None)"
  using C10_bad_ca_returns_nil_nil [of NewPool "''as:8001''" "[1]" "[2]" "[3]" env_bad_ca]
  by (simp add: NewPool_def env_bad_ca_def)

subsection \<open>Downlink device-queue\<close>

lemma discard_loop_no_pending:
  "list_all (\<lambda>q. \<not> IsPending q) items \<Longrightarrow>
   list_all is_HandleError (snd (snd (discard_loop now m fc eui rp items db)))"
proof (induction items arbitrary: db)
  case Nil
  show ?case by simp
next
  case (Cons h rest)
  from Cons.prems have "list_all (\<lambda>q. \<not> IsPending q) rest" and np: "\<not> IsPending h"
    by simp_all
  then have "list_all is_HandleError
      (snd (snd (discard_loop now m fc eui rp rest (DeleteDeviceQueueItem db (DeviceQueueItem.ID h)))))"
    using Cons.IH by blast
  with np show ?case
    by (auto simp: pending_timed_out_def pending_awaiting_ack_def split: prod.splits)
qed

lemma not_ack_if_error: "is_HandleError n \<Longrightarrow> \<not> is_HandleDownlinkACK n"
  by (cases n rule: is_HandleError.cases) simp_all

lemma filter_ack_errors: "list_all is_HandleError ns \<Longrightarrow> filter is_HandleDownlinkACK ns = []"
  by (induction ns) (auto simp: not_ack_if_error)

lemma discard_loop_notifications:
  assumes "only_head_pending items"
  shows "\<exists>errs. list_all is_HandleError errs \<and>
           snd (snd (discard_loop now m fc eui rp items db)) =
             (if items \<noteq> [] \<and> pending_timed_out now (hd items)
              then [(rp, HandleDownlinkACKRequest eui (DeviceQueueItem.FCnt (hd items)) False)]
              else []) @ errs"
proof (cases items)
  case Nil
  then show ?thesis by simp
next
  case (Cons h rest)
  with assms have rest: "list_all (\<lambda>q. \<not> IsPending q) rest"
    by (simp add: only_head_pending_def)
  show ?thesis
  proof (cases "pending_timed_out now h")
    case True
    have "list_all is_HandleError
        (snd (snd (discard_loop now m fc eui rp rest (DeleteDeviceQueueItem db (DeviceQueueItem.ID h)))))"
      using rest by (rule discard_loop_no_pending)
    with True Cons show ?thesis
      by (auto split: prod.splits)
  next
    case False
    have "list_all is_HandleError (snd (snd (discard_loop now m fc eui rp (h # rest) db)))"
    proof (cases "IsPending h")
      case True
      with False have "pending_awaiting_ack now h \<or> TimeoutAfter h = None"
        by (auto simp: pending_timed_out_def pending_awaiting_ack_def split: option.splits)
      then show ?thesis
      proof
        assume "pending_awaiting_ack now h"
        with False show ?thesis by simp
      next
        assume none: "TimeoutAfter h = None"
        then have "\<not> pending_awaiting_ack now h"
          by (simp add: pending_awaiting_ack_def)
        moreover have "list_all is_HandleError
            (snd (snd (discard_loop now m fc eui rp rest (DeleteDeviceQueueItem db (DeviceQueueItem.ID h)))))"
          using rest by (rule discard_loop_no_pending)
        ultimately show ?thesis using False
          by (auto split: prod.splits)
      qed
    next
      case np: False
      with rest have "list_all (\<lambda>q. \<not> IsPending q) (h # rest)" by simp
      then show ?thesis by (rule discard_loop_no_pending)
    qed
    with False Cons show ?thesis by auto
  qed
qed

text \<open>
  Claim C1, amended. On a queue that satisfies the invariant of section 3.2 (no item
  behind the head is pending), the notifications of one call of
  \<open>GetNextDeviceQueueItemForDevEUIMaxPayloadSizeAndFCnt\<close> hold at most one
  \<open>HandleDownlinkACK\<close>; it is the one for the timed-out pending head, with the head's
  \<open>FCnt\<close> and \<open>Acknowledged = false\<close>, sent for the routing profile of the call;
  and it comes before every \<open>HandleError\<close> of the call.
\<close>

theorem C1_at_most_one_nack_first:
  assumes "only_head_pending (GetDeviceQueueItemsForDevEUI db devEUI)"
  shows "length (filter is_HandleDownlinkACK
           (snd (snd (GetNextDeviceQueueItemForDevEUIMaxPayloadSizeAndFCnt now db devEUI m fc rp)))) \<le> 1
       \<and> (\<forall>n \<in> set (snd (snd (GetNextDeviceQueueItemForDevEUIMaxPayloadSizeAndFCnt now db devEUI m fc rp))).
            is_HandleDownlinkACK n \<longrightarrow>
              GetDeviceQueueItemsForDevEUI db devEUI \<noteq> []
              \<and> pending_timed_out now (hd (GetDeviceQueueItemsForDevEUI db devEUI))
              \<and> n = (rp, HandleDownlinkACKRequest devEUI
                         (DeviceQueueItem.FCnt (hd (GetDeviceQueueItemsForDevEUI db devEUI))) False))
       \<and> (\<forall>i j. i < length (snd (snd (GetNextDeviceQueueItemForDevEUIMaxPayloadSizeAndFCnt now db devEUI m fc rp)))
              \<longrightarrow> j < length (snd (snd (GetNextDeviceQueueItemForDevEUIMaxPayloadSizeAndFCnt now db devEUI m fc rp)))
              \<longrightarrow> is_HandleDownlinkACK (snd (snd (GetNextDeviceQueueItemForDevEUIMaxPayloadSizeAndFCnt now db devEUI m fc rp)) ! i)
              \<longrightarrow> is_HandleError (snd (snd (GetNextDeviceQueueItemForDevEUIMaxPayloadSizeAndFCnt now db devEUI m fc rp)) ! j)
              \<longrightarrow> i < j)"
proof -
  define items where "items = GetDeviceQueueItemsForDevEUI db devEUI"
  define ns where "ns = snd (snd (GetNextDeviceQueueItemForDevEUIMaxPayloadSizeAndFCnt now db devEUI m fc rp))"
  define nack where "nack =
    (if items \<noteq> [] \<and> pending_timed_out now (hd items)
     then [(rp, HandleDownlinkACKRequest devEUI (DeviceQueueItem.FCnt (hd items)) False)] else [])"
  from assms obtain errs where errs: "list_all is_HandleError errs" and ns: "ns = nack @ errs"
    using discard_loop_notifications [of items now m fc devEUI rp db]
    unfolding items_def ns_def nack_def GetNextDeviceQueueItemForDevEUIMaxPayloadSizeAndFCnt_def
    by blast
  have no_ack: "\<not> is_HandleDownlinkACK e" if "e \<in> set errs" for e
    using that errs by (auto simp: list_all_iff not_ack_if_error)
  have 1: "length (filter is_HandleDownlinkACK ns) \<le> 1"
    by (simp add: ns filter_ack_errors [OF errs] nack_def)
  have 2: "items \<noteq> [] \<and> pending_timed_out now (hd items)
      \<and> n = (rp, HandleDownlinkACKRequest devEUI (DeviceQueueItem.FCnt (hd items)) False)"
    if "n \<in> set ns" "is_HandleDownlinkACK n" for n
  proof -
    from that(1) have "n \<in> set nack \<or> n \<in> set errs"
      by (auto simp: ns)
    with no_ack that(2) have "n \<in> set nack"
      by blast
    then show ?thesis
      by (auto simp: nack_def split: if_splits)
  qed
  have 3: "i < j"
    if "i < length ns" "j < length ns" "is_HandleDownlinkACK (ns ! i)" "is_HandleError (ns ! j)" for i j
  proof -
    have i: "i < length nack"
    proof (rule ccontr)
      assume "\<not> i < length nack"
      with that(1) have "ns ! i \<in> set errs"
        by (simp add: ns nth_append)
      with no_ack that(3) show False by blast
    qed
    then have nack1: "length nack = 1" and i0: "i = 0"
      by (auto simp: nack_def split: if_splits)
    have "j \<noteq> 0"
    proof
      assume "j = 0"
      with i0 that(3,4) show False
        by (auto dest: not_ack_if_error)
    qed
    with i0 show ?thesis by simp
  qed
  from 1 2 3 show ?thesis
    unfolding ns_def items_def by blast
qed

text \<open>
  The theorem at the queue of the test, with \<open>FCnt = 100\<close> and a maximum payload of
  6 bytes: the pending item 100 has timed out and is answered by the one negative
  acknowledgement, item 101 is too large and is reported, item 102 is returned.
\<close>

theorem C1_nack_witness:
  "only_head_pending (GetDeviceQueueItemsForDevEUI test_queue 0x0102030405060708)
   \<and> GetNextDeviceQueueItemForDevEUIMaxPayloadSizeAndFCnt test_now test_queue 0x0102030405060708 6 100 9 =
       (Inr (test_item 3 102 6),
        [test_item 3 102 6, test_item 4 103 5, test_item 5 104 4],
        [(9, HandleDownlinkACKRequest 0x0102030405060708 100 False),
         (9, HandleErrorRequest 0x0102030405060708 DEVICE_QUEUE_ITEM_SIZE ''payload exceeds max payload size'' 101)])
   \<and> length (filter is_HandleDownlinkACK
         (snd (snd (GetNextDeviceQueueItemForDevEUIMaxPayloadSizeAndFCnt test_now test_queue 0x0102030405060708 6 100 9)))) \<le> 1"
  using C1_at_most_one_nack_first [of test_queue "0x0102030405060708" test_now 6 100 9]
  by (simp add: only_head_pending_def GetDeviceQueueItemsForDevEUI_def test_queue_def test_item_def
      GetNextDeviceQueueItemForDevEUIMaxPayloadSizeAndFCnt_def pending_timed_out_def
      pending_awaiting_ack_def time_After_def test_now_def DeleteDeviceQueueItem_def)

text \<open>
  Claim C1 as stated, for every call, fails on queues that break the invariant. With two
  pending items that have both timed out, one call sends two negative acknowledgements.
  With an item that is too large in front of a pending item that has timed out, the
  \<open>HandleError\<close> for the first comes before the \<open>HandleDownlinkACK\<close> for the second.
\<close>

theorem C1_two_nacks_counterexample:
  "snd (snd (GetNextDeviceQueueItemForDevEUIMaxPayloadSizeAndFCnt test_now two_pending_queue
       0x0102030405060708 7 100 9))
     = [(9, HandleDownlinkACKRequest 0x0102030405060708 100 False),
        (9, HandleDownlinkACKRequest 0x0102030405060708 101 False)]
   \<and> length (filter is_HandleDownlinkACK
         (snd (snd (GetNextDeviceQueueItemForDevEUIMaxPayloadSizeAndFCnt test_now two_pending_queue
            0x0102030405060708 7 100 9)))) = 2
   \<and> snd (snd (GetNextDeviceQueueItemForDevEUIMaxPayloadSizeAndFCnt test_now pending_second_queue
       0x0102030405060708 6 100 9))
     = [(9, HandleErrorRequest 0x0102030405060708 DEVICE_QUEUE_ITEM_SIZE ''payload exceeds max payload size'' 100),
        (9, HandleDownlinkACKRequest 0x0102030405060708 101 False)]"
proof -
  have a: "GetDeviceQueueItemsForDevEUI two_pending_queue 0x0102030405060708 = two_pending_queue"
    by (simp add: GetDeviceQueueItemsForDevEUI_def two_pending_queue_def test_item_def word_le_nat_alt)
  have b: "GetDeviceQueueItemsForDevEUI pending_second_queue 0x0102030405060708 = pending_second_queue"
    by (simp add: GetDeviceQueueItemsForDevEUI_def pending_second_queue_def test_item_def word_le_nat_alt)
  have 1: "snd (snd (GetNextDeviceQueueItemForDevEUIMaxPayloadSizeAndFCnt test_now two_pending_queue
       0x0102030405060708 7 100 9))
     = [(9, HandleDownlinkACKRequest 0x0102030405060708 100 False),
        (9, HandleDownlinkACKRequest 0x0102030405060708 101 False)]"
    unfolding GetNextDeviceQueueItemForDevEUIMaxPayloadSizeAndFCnt_def a
    by (simp add: two_pending_queue_def test_item_def pending_timed_out_def pending_awaiting_ack_def
        time_After_def test_now_def DeleteDeviceQueueItem_def word_less_nat_alt)
  have 2: "snd (snd (GetNextDeviceQueueItemForDevEUIMaxPayloadSizeAndFCnt test_now pending_second_queue
       0x0102030405060708 6 100 9))
     = [(9, HandleErrorRequest 0x0102030405060708 DEVICE_QUEUE_ITEM_SIZE ''payload exceeds max payload size'' 100),
        (9, HandleDownlinkACKRequest 0x0102030405060708 101 False)]"
    unfolding GetNextDeviceQueueItemForDevEUIMaxPayloadSizeAndFCnt_def b
    by (simp add: pending_second_queue_def test_item_def pending_timed_out_def pending_awaiting_ack_def
        time_After_def test_now_def DeleteDeviceQueueItem_def word_less_nat_alt)
  from 1 2 show ?thesis
    by simp
qed

lemma hd_sort_key_least:
  assumes "xs \<noteq> []"
  shows "hd (sort_key f xs) \<in> set xs \<and> (\<forall>y \<in> set xs. f (hd (sort_key f xs)) \<le> f y)"
proof -
  from assms have ne: "sort_key f xs \<noteq> []"
    by (metis length_0_conv length_sort)
  then obtain h t where ht: "sort_key f xs = h # t"
    by (cases "sort_key f xs") auto
  have "sorted (map f (sort_key f xs))"
    by (rule sorted_sort_key)
  with ht have "\<forall>y \<in> set t. f h \<le> f y"
    by simp
  moreover have "set xs = insert h (set t)"
    using ht by (metis list.simps(15) set_sort)
  ultimately show ?thesis
    using ht by auto
qed

text \<open>
  Claim C8. For a device whose queue is not empty, \<open>GetNextDeviceQueueItemForDevEUI\<close>
  returns the first item in ascending \<open>FCnt\<close> order (a row of the table for that
  device whose \<open>FCnt\<close> is least among the device's rows), unless that item is pending
  with a \<open>TimeoutAfter\<close> in the future: then the call fails with
  \<open>ErrDoesNotExist\<close>.
\<close>

theorem C8_next_item_is_head_unless_pending:
  assumes "GetDeviceQueueItemsForDevEUI db devEUI \<noteq> []"
  shows "GetNextDeviceQueueItemForDevEUI now db devEUI =
           (if IsPending (hd (GetDeviceQueueItemsForDevEUI db devEUI))
               \<and> (case TimeoutAfter (hd (GetDeviceQueueItemsForDevEUI db devEUI)) of
                     None \<Rightarrow> False | Some t \<Rightarrow> time_After t now)
            then Inl ErrDoesNotExist
            else Inr (hd (GetDeviceQueueItemsForDevEUI db devEUI)))
       \<and> hd (GetDeviceQueueItemsForDevEUI db devEUI) \<in> set db
       \<and> DeviceQueueItem.DevEUI (hd (GetDeviceQueueItemsForDevEUI db devEUI)) = devEUI
       \<and> (\<forall>q \<in> set db. DeviceQueueItem.DevEUI q = devEUI \<longrightarrow>
            DeviceQueueItem.FCnt (hd (GetDeviceQueueItemsForDevEUI db devEUI)) \<le> DeviceQueueItem.FCnt q)"
proof -
  let ?xs = "filter (\<lambda>q. DeviceQueueItem.DevEUI q = devEUI) db"
  from assms have ne: "?xs \<noteq> []"
    by (auto simp: GetDeviceQueueItemsForDevEUI_def)
  from hd_sort_key_least [OF ne, of DeviceQueueItem.FCnt]
  have "hd (GetDeviceQueueItemsForDevEUI db devEUI) \<in> set ?xs"
    and "\<forall>y \<in> set ?xs. DeviceQueueItem.FCnt (hd (GetDeviceQueueItemsForDevEUI db devEUI)) \<le> DeviceQueueItem.FCnt y"
    by (simp_all add: GetDeviceQueueItemsForDevEUI_def)
  moreover have "GetNextDeviceQueueItemForDevEUI now db devEUI =
           (if IsPending (hd (GetDeviceQueueItemsForDevEUI db devEUI))
               \<and> (case TimeoutAfter (hd (GetDeviceQueueItemsForDevEUI db devEUI)) of
                     None \<Rightarrow> False | Some t \<Rightarrow> time_After t now)
            then Inl ErrDoesNotExist
            else Inr (hd (GetDeviceQueueItemsForDevEUI db devEUI)))"
    using assms
    by (cases "GetDeviceQueueItemsForDevEUI db devEUI")
       (simp_all add: GetNextDeviceQueueItemForDevEUI_def pending_awaiting_ack_def)
  ultimately show ?thesis by auto
qed

text \<open>
  The theorem at the queue of the test (frame counters 1, 3, 2): the item with
  \<open>FCnt = 1\<close> is returned, and when it is pending with a timeout one minute ahead
  the call fails.
\<close>

theorem C8_next_item_witness:
  "GetDeviceQueueItemsForDevEUI [test_item 1 1 3, test_item 2 3 3, test_item 3 2 3] 0x0102030405060708 \<noteq> []
   \<and> GetNextDeviceQueueItemForDevEUI test_now [test_item 1 1 3, test_item 2 3 3, test_item 3 2 3] 0x0102030405060708
       = Inr (test_item 1 1 3)
   \<and> GetNextDeviceQueueItemForDevEUI test_now
        [test_item 2 3 3, (test_item 1 1 3)\<lparr>IsPending := True, TimeoutAfter := Some \<lparr>sec = 1060, nsec = 0\<rparr>\<rparr>,
         test_item 3 2 3] 0x0102030405060708
       = Inl ErrDoesNotExist"
proof -
  have a: "GetDeviceQueueItemsForDevEUI [test_item 1 1 3, test_item 2 3 3, test_item 3 2 3] 0x0102030405060708
      = [test_item 1 1 3, test_item 3 2 3, test_item 2 3 3]"
    by (simp add: GetDeviceQueueItemsForDevEUI_def test_item_def)
  have b: "GetDeviceQueueItemsForDevEUI
      [test_item 2 3 3, (test_item 1 1 3)\<lparr>IsPending := True, TimeoutAfter := Some \<lparr>sec = 1060, nsec = 0\<rparr>\<rparr>,
       test_item 3 2 3] 0x0102030405060708
      = [(test_item 1 1 3)\<lparr>IsPending := True, TimeoutAfter := Some \<lparr>sec = 1060, nsec = 0\<rparr>\<rparr>,
         test_item 3 2 3, test_item 2 3 3]"
    by (simp add: GetDeviceQueueItemsForDevEUI_def test_item_def word_le_nat_alt)
  have 1: "GetNextDeviceQueueItemForDevEUI test_now [test_item 1 1 3, test_item 2 3 3, test_item 3 2 3]
      0x0102030405060708 = Inr (test_item 1 1 3)"
    using C8_next_item_is_head_unless_pending [of "[test_item 1 1 3, test_item 2 3 3, test_item 3 2 3]"
        "0x0102030405060708" test_now]
    unfolding a by (simp add: test_item_def)
  have 2: "GetNextDeviceQueueItemForDevEUI test_now
      [test_item 2 3 3, (test_item 1 1 3)\<lparr>IsPending := True, TimeoutAfter := Some \<lparr>sec = 1060, nsec = 0\<rparr>\<rparr>,
       test_item 3 2 3] 0x0102030405060708 = Inl ErrDoesNotExist"
    using C8_next_item_is_head_unless_pending [of "[test_item 2 3 3,
        (test_item 1 1 3)\<lparr>IsPending := True, TimeoutAfter := Some \<lparr>sec = 1060, nsec = 0\<rparr>\<rparr>, test_item 3 2 3]"
        "0x0102030405060708" test_now]
    unfolding b by (simp add: test_item_def time_After_def test_now_def)
  from a 1 2 show ?thesis by simp
qed

subsection \<open>Class-B/C dispatcher helper\<close>

lemma eligible_row_locks [simp]:
  "eligible now g i (st\<lparr>row_locks := l\<rparr>) = eligible now g i st"
  by (rule ext) (simp add: eligible_def supports_mode_def)

lemma take_1_all_equal:
  assumes "b \<in> set xs" "\<forall>x \<in> set xs. x = b"
  shows "take 1 xs = [b]"
  using assms by (cases xs) auto

lemma GetDevices_limit_1:
  "GetDevicesWithClassBOrClassCDeviceQueueItems now g i st tx 1 =
     (take 1 (filter (\<lambda>d. \<not> locked_by_other st tx d)
                (filter (eligible now g i st) (sort_key Device.DevEUI (device st)))),
      st\<lparr>row_locks := row_locks st
           @ map (\<lambda>d. (Device.DevEUI d, tx))
               (take 1 (filter (\<lambda>d. \<not> locked_by_other st tx d)
                          (filter (eligible now g i st) (sort_key Device.DevEUI (device st)))))\<rparr>)"
  by (simp add: GetDevicesWithClassBOrClassCDeviceQueueItems_def Let_def conj_commute)

text \<open>
  Claim C9. In a store whose eligible devices are exactly two, \<open>d1\<close> and \<open>d2\<close>, with
  no row lock on either, let two transactions \<open>tx1\<close> and \<open>tx2\<close> call
  \<open>GetDevicesWithClassBOrClassCDeviceQueueItems\<close> with limit 1, the second while the
  first is still open (neither has committed or rolled back). Each call returns one
  device, the two devices differ, and together they are \<open>d1\<close> and \<open>d2\<close>. When the
  first transaction is rolled back, its device can be selected again by a transaction
  other than the second.
\<close>

theorem C9_two_transactions_disjoint:
  assumes two: "set (filter (eligible now g i st) (device st)) = {d1, d2}"
    and ne: "Device.DevEUI d1 \<noteq> Device.DevEUI d2"
    and free: "Device.DevEUI d1 \<notin> fst ` set (row_locks st)" "Device.DevEUI d2 \<notin> fst ` set (row_locks st)"
    and tx: "tx1 \<noteq> tx2"
  shows "\<exists>a b st1 st2.
           GetDevicesWithClassBOrClassCDeviceQueueItems now g i st tx1 1 = ([a], st1)
         \<and> GetDevicesWithClassBOrClassCDeviceQueueItems now g i st1 tx2 1 = ([b], st2)
         \<and> a \<noteq> b \<and> Device.DevEUI a \<noteq> Device.DevEUI b \<and> {a, b} = {d1, d2}
         \<and> (tx3 \<noteq> tx2 \<longrightarrow>
              fst (GetDevicesWithClassBOrClassCDeviceQueueItems now g i (Rollback st2 tx1) tx3 1) = [a])"
proof -
  define E where "E = filter (eligible now g i st) (sort_key Device.DevEUI (device st))"
  have setE: "set E = {d1, d2}"
    using two by (simp add: E_def)
  then have "E \<noteq> []"
    by auto
  then obtain a E' where hd: "E = a # E'"
    by (cases E) auto
  with setE have "a = d1 \<or> a = d2"
    by auto
  then obtain b where ab: "{a, b} = {d1, d2}" and eui: "Device.DevEUI a \<noteq> Device.DevEUI b"
    using ne by (metis insert_commute)
  from ab setE have mem: "x = a \<or> x = b" if "x \<in> set E" for x
    using that by auto
  from ab setE have b: "b \<in> set E" and a: "a \<in> set E"
    by auto
  from ab free have fa: "Device.DevEUI a \<notin> fst ` set (row_locks st)"
    and fb: "Device.DevEUI b \<notin> fst ` set (row_locks st)"
    by (auto simp: doubleton_eq_iff)
  have la: "fst l \<noteq> Device.DevEUI a" and lb: "fst l \<noteq> Device.DevEUI b"
    if "l \<in> set (row_locks st)" for l
    using fa fb that by (metis imageI)+
  define st1 where "st1 = st\<lparr>row_locks := row_locks st @ [(Device.DevEUI a, tx1)]\<rparr>"
  define st2 where "st2 = st1\<lparr>row_locks := row_locks st1 @ [(Device.DevEUI b, tx2)]\<rparr>"
  have E1: "filter (eligible now g i st1) (sort_key Device.DevEUI (device st1)) = E"
    and E2: "filter (eligible now g i (Rollback st2 tx1)) (sort_key Device.DevEUI (device (Rollback st2 tx1))) = E"
    by (simp_all add: st1_def st2_def Rollback_def E_def)
  have free1: "\<not> locked_by_other st tx1 x" if "x \<in> set E" for x
    using mem [OF that] la lb by (auto simp: locked_by_other_def list_ex_iff)
  then have "filter (\<lambda>d. \<not> locked_by_other st tx1 d) E = E"
    by simp
  then have call1: "GetDevicesWithClassBOrClassCDeviceQueueItems now g i st tx1 1 = ([a], st1)"
    by (simp add: GetDevices_limit_1 E_def [symmetric] hd st1_def)
  have "locked_by_other st1 tx2 a"
    using tx by (simp add: locked_by_other_def st1_def)
  moreover have "\<not> locked_by_other st1 tx2 b"
    using lb eui by (auto simp: locked_by_other_def list_ex_iff st1_def)
  ultimately have "b \<in> set (filter (\<lambda>d. \<not> locked_by_other st1 tx2 d) E)"
    and "\<forall>x \<in> set (filter (\<lambda>d. \<not> locked_by_other st1 tx2 d) E). x = b"
    using b mem by auto
  then have "take 1 (filter (\<lambda>d. \<not> locked_by_other st1 tx2 d) E) = [b]"
    by (rule take_1_all_equal)
  then have call2: "GetDevicesWithClassBOrClassCDeviceQueueItems now g i st1 tx2 1 = ([b], st2)"
    by (simp add: GetDevices_limit_1 E1 st2_def)
  have call3: "fst (GetDevicesWithClassBOrClassCDeviceQueueItems now g i (Rollback st2 tx1) tx3 1) = [a]"
    if "tx3 \<noteq> tx2"
  proof -
    have locks: "row_locks (Rollback st2 tx1)
        = filter (\<lambda>l. snd l \<noteq> tx1) (row_locks st) @ [(Device.DevEUI b, tx2)]"
      using tx by (simp add: Rollback_def st2_def st1_def)
    have "\<not> locked_by_other (Rollback st2 tx1) tx3 a"
      using la eui by (auto simp: locked_by_other_def list_ex_iff locks)
    moreover have "locked_by_other (Rollback st2 tx1) tx3 b"
      using that by (auto simp: locked_by_other_def locks)
    ultimately have "a \<in> set (filter (\<lambda>d. \<not> locked_by_other (Rollback st2 tx1) tx3 d) E)"
      and "\<forall>x \<in> set (filter (\<lambda>d. \<not> locked_by_other (Rollback st2 tx1) tx3 d) E). x = a"
      using a mem by auto
    then have "take 1 (filter (\<lambda>d. \<not> locked_by_other (Rollback st2 tx1) tx3 d) E) = [a]"
      by (rule take_1_all_equal)
    then show ?thesis
      by (simp add: GetDevices_limit_1 E2)
  qed
  from eui have "a \<noteq> b"
    by auto
  with call1 call2 call3 eui ab show ?thesis
    by blast
qed

lemma two_devices_eligible:
  "filter (eligible test_now test_gps_now 2000000000 two_devices_store) (device two_devices_store)
     = [class_b_device 0x0202020202020202, class_b_device 0x0101010101010101]"
  by (simp add: two_devices_store_def eligible_def supports_mode_def class_b_device_def
      GetDeviceQueueItemsForDevEUI_def pingslot_item_def schedulable_item_def test_gps_now_def
      pending_awaiting_ack_def)

text \<open>
  The theorem at the store of the test "two pingslot queue items for two devices (limit
  1)": the first transaction gets the device \<open>0101010101010101\<close>, the second the
  device \<open>0202020202020202\<close>.
\<close>

theorem C9_two_transactions_witness:
  "set (filter (eligible test_now test_gps_now 2000000000 two_devices_store) (device two_devices_store))
       = {class_b_device 0x0101010101010101, class_b_device 0x0202020202020202}
   \<and> Device.DevEUI (class_b_device 0x0101010101010101) \<noteq> Device.DevEUI (class_b_device 0x0202020202020202)
   \<and> row_locks two_devices_store = []
   \<and> fst (GetDevicesWithClassBOrClassCDeviceQueueItems test_now test_gps_now 2000000000
            two_devices_store 1 1) = [class_b_device 0x0101010101010101]
   \<and> fst (GetDevicesWithClassBOrClassCDeviceQueueItems test_now test_gps_now 2000000000
            (snd (GetDevicesWithClassBOrClassCDeviceQueueItems test_now test_gps_now 2000000000
                    two_devices_store 1 1)) 2 1) = [class_b_device 0x0202020202020202]"
proof -
  have 2: "set (filter (eligible test_now test_gps_now 2000000000 two_devices_store) (device two_devices_store))
       = {class_b_device 0x0101010101010101, class_b_device 0x0202020202020202}"
    unfolding two_devices_eligible by auto
  have 3: "Device.DevEUI (class_b_device 0x0101010101010101) \<noteq> Device.DevEUI (class_b_device 0x0202020202020202)"
    by (simp add: class_b_device_def)
  have 4: "row_locks two_devices_store = []"
    by (simp add: two_devices_store_def)
  have 5: "Device.DevEUI (class_b_device 0x0101010101010101) \<notin> fst ` set (row_locks two_devices_store)"
    and 6: "Device.DevEUI (class_b_device 0x0202020202020202) \<notin> fst ` set (row_locks two_devices_store)"
    by (simp_all add: 4)
  have 7: "(1 :: nat) \<noteq> 2"
    by simp
  have first: "fst (GetDevicesWithClassBOrClassCDeviceQueueItems test_now test_gps_now 2000000000
            two_devices_store 1 1) = [class_b_device 0x0101010101010101]"
    by (simp add: GetDevices_limit_1 two_devices_eligible [simplified] locked_by_other_def 4)
       (simp add: two_devices_store_def class_b_device_def eligible_def supports_mode_def
          GetDeviceQueueItemsForDevEUI_def pingslot_item_def schedulable_item_def test_gps_now_def
          pending_awaiting_ack_def word_le_nat_alt)
  from C9_two_transactions_disjoint [OF 2 3 5 6 7, of 0] first 3
  have "fst (GetDevicesWithClassBOrClassCDeviceQueueItems test_now test_gps_now 2000000000
            (snd (GetDevicesWithClassBOrClassCDeviceQueueItems test_now test_gps_now 2000000000
                    two_devices_store 1 1)) 2 1) = [class_b_device 0x0202020202020202]"
    by (auto simp: doubleton_eq_iff)
  with 2 3 4 first show ?thesis
    by simp
qed

end
